(* ===== verification/Tel_Prelude.thy ===== *)
theory Tel_Prelude
  imports Main "HOL-Library.Word" "HOL-Library.Sublist" "HOL-Library.Multiset"
begin

text \<open>
  Shared vocabulary of the development: the machine types of the code, the faults an
  execution can end in, the result type every fallible operation returns, and the list and
  word facts that more than one component needs.
\<close>

section \<open>Machine types\<close>

text \<open>
  \<^verbatim>\<open>char\<close> buffers and \<^verbatim>\<open>std::string\<close> contents are lists of bytes; \<^verbatim>\<open>std::uint64_t\<close>,
  \<^verbatim>\<open>index_t\<close> and \<^verbatim>\<open>mark_t\<close> are 64-bit words. \<^verbatim>\<open>std::size_t\<close> constants are natural numbers.
\<close>

type_synonym byte = "8 word"
type_synonym bytes = "byte list"
type_synonym u32 = "32 word"
type_synonym u64 = "64 word"
type_synonym index_t = u64
type_synonym mark_t = u64

section \<open>Faults and results\<close>

text \<open>
  A fault is an execution that has no result: a failed \<^verbatim>\<open>assert\<close> (with its text), an access
  outside an array or past the end of an unterminated C string, a null dereference, or an
  access through a destroyed object.
\<close>

datatype fault =
    Assert_Failed string
  | Out_Of_Bounds
  | Null_Deref
  | Use_After_Free

type_synonym 'a res = "fault + 'a"

fun res_bind :: "'a res \<Rightarrow> ('a \<Rightarrow> 'b res) \<Rightarrow> 'b res" where
  "res_bind (Inl e) f = Inl e"
| "res_bind (Inr x) f = f x"

fun res_map :: "('a \<Rightarrow> 'b) \<Rightarrow> 'a res \<Rightarrow> 'b res" where
  "res_map f (Inl e) = Inl e"
| "res_map f (Inr x) = Inr (f x)"

fun res_list :: "('a \<Rightarrow> 'b res) \<Rightarrow> 'a list \<Rightarrow> 'b list res" where
  "res_list f [] = Inr []"
| "res_list f (x # xs) = res_bind (f x) (\<lambda>y. res_map (\<lambda>ys. y # ys) (res_list f xs))"

lemma res_bind_Inr_iff: "res_bind m f = Inr y \<longleftrightarrow> (\<exists>x. m = Inr x \<and> f x = Inr y)"
  by (cases m) auto

lemma res_map_Inr_iff: "res_map f m = Inr y \<longleftrightarrow> (\<exists>x. m = Inr x \<and> y = f x)"
  by (cases m) auto

text \<open>Sequences of calls are associated to the right.\<close>

lemma res_bind_assoc: "res_bind (res_bind r f) g = res_bind r (\<lambda>x. res_bind (f x) g)"
  by (cases r) simp_all

lemma res_bind_map: "res_bind (res_map f r) g = res_bind r (\<lambda>x. g (f x))"
  by (cases r) simp_all

lemma res_map_bind: "res_map f (res_bind r g) = res_bind r (\<lambda>x. res_map f (g x))"
  by (cases r) simp_all

lemma res_map_map: "res_map f (res_map g r) = res_map (\<lambda>x. f (g x)) r"
  by (cases r) simp_all

lemma res_bind_if: "res_bind (if b then x else y) f = (if b then res_bind x f else res_bind y f)"
  by simp

lemma res_list_all_Inr:
  "(\<And>x. x \<in> set xs \<Longrightarrow> f x = Inr (g x)) \<Longrightarrow> res_list f xs = Inr (map g xs)"
  by (induction xs) auto

named_theorems layout_simps \<open>accessors and updates of the mapped structures\<close>
named_theorems wf_intros \<open>shape preservation of the mapped structures\<close>

section \<open>Lists\<close>

text \<open>Removing position \<open>i\<close> by moving the last element into it.\<close>

definition swap_remove :: "nat \<Rightarrow> 'a list \<Rightarrow> 'a list" where
  "swap_remove i xs = butlast (xs[i := last xs])"

lemma length_swap_remove [simp]: "length (swap_remove i xs) = length xs - 1"
  by (simp add: swap_remove_def)

lemma swap_remove_last: "i = length xs - 1 \<Longrightarrow> swap_remove i xs = butlast xs"
  by (cases xs rule: rev_cases) (auto simp: swap_remove_def)

lemma swap_remove_snoc:
  "i < length xs \<Longrightarrow> swap_remove i (xs @ [y]) = xs[i := y]"
  by (simp add: swap_remove_def list_update_append)

lemma nth_swap_remove:
  assumes "j < length xs - 1"
  shows "swap_remove i xs ! j = (if j = i then last xs else xs ! j)"
  using assms by (simp add: swap_remove_def nth_butlast nth_list_update)

lemma map_swap_remove: "i < length xs \<Longrightarrow> map f (swap_remove i xs) = swap_remove i (map f xs)"
  by (cases xs rule: rev_cases) (auto simp: swap_remove_def map_butlast map_update)

lemma mset_swap_remove:
  assumes "i < length xs"
  shows "mset (swap_remove i xs) = mset xs - {#xs ! i#}"
proof (cases xs rule: rev_cases)
  case Nil
  with assms show ?thesis by simp
next
  case (snoc ys y)
  show ?thesis
  proof (cases "i = length ys")
    case True
    with snoc show ?thesis by (simp add: swap_remove_def list_update_append)
  next
    case False
    with snoc assms have i: "i < length ys" by simp
    then have "ys ! i \<in># mset ys" by simp
    with snoc i show ?thesis
      by (simp add: swap_remove_snoc mset_update nth_append)
  qed
qed

lemma set_swap_remove_subset: "i < length xs \<Longrightarrow> set (swap_remove i xs) \<subseteq> set xs"
  using mset_swap_remove[of i xs] by (metis in_diffD set_mset_mset subsetI)

lemma distinct_swap_remove:
  assumes "distinct xs" "i < length xs"
  shows "distinct (swap_remove i xs)" "set (swap_remove i xs) = set xs - {xs ! i}"
proof -
  have m: "mset (swap_remove i xs) = mset xs - {#xs ! i#}"
    using assms(2) by (rule mset_swap_remove)
  have d: "count (mset xs) a = (if a \<in> set xs then 1 else 0)" for a
    using assms(1) by (simp add: distinct_count_atmost_1)
  then have c: "count (mset (swap_remove i xs)) a
      = (if a \<in> set xs - {xs ! i} then 1 else 0)" for a
    using assms(2) by (auto simp: m)
  then show s: "set (swap_remove i xs) = set xs - {xs ! i}"
    by (metis (no_types, lifting) count_greater_zero_iff not_gr_zero set_eqI set_mset_mset
        zero_neq_one)
  show "distinct (swap_remove i xs)"
    using c s by (simp add: distinct_count_atmost_1)
qed

lemma list_all_update:
  "list_all P xs \<Longrightarrow> (i < length xs \<Longrightarrow> P y) \<Longrightarrow> list_all P (xs[i := y])"
  by (cases "i < length xs") (auto simp: list_all_length nth_list_update)

lemma takeWhile_neq_append_replicate:
  "x \<notin> set xs \<Longrightarrow> takeWhile (\<lambda>c. c \<noteq> x) (xs @ x # ys) = xs"
  by (induction xs) auto

text \<open>The least index whose element satisfies a predicate.\<close>

fun first_index :: "('a \<Rightarrow> bool) \<Rightarrow> 'a list \<Rightarrow> nat option" where
  "first_index P [] = None"
| "first_index P (x # xs) = (if P x then Some 0 else map_option Suc (first_index P xs))"

lemma first_index_Some:
  "first_index P xs = Some j \<Longrightarrow> j < length xs \<and> P (xs ! j) \<and> (\<forall>k<j. \<not> P (xs ! k))"
  by (induction xs arbitrary: j) (auto split: if_splits simp: nth_Cons split: nat.splits)

lemma first_index_None: "first_index P xs = None \<longleftrightarrow> list_all (\<lambda>x. \<not> P x) xs"
  by (induction xs) auto

lemma first_index_map: "first_index P (map f xs) = first_index (\<lambda>x. P (f x)) xs"
  by (induction xs) auto

lemma first_index_cong:
  "(\<And>x. x \<in> set xs \<Longrightarrow> P x \<longleftrightarrow> Q x) \<Longrightarrow> first_index P xs = first_index Q xs"
  by (induction xs) auto

section \<open>Words\<close>

lemma unat_less_64 [simp]: "unat (x :: u64) < 18446744073709551616"
proof -
  have "unat x < 2 ^ LENGTH(64)" by (rule unsigned_less)
  then show ?thesis by simp
qed

lemma unat_of_nat_64 [simp]: "n < 18446744073709551616 \<Longrightarrow> unat (of_nat n :: u64) = n"
  by (simp add: unat_of_nat)

lemma unat_plus1_64: "unat (x :: u64) + 1 < 18446744073709551616 \<Longrightarrow> unat (x + 1) = unat x + 1"
  by (simp add: unat_word_ariths)

lemma unat_minus1_64: "(x :: u64) \<noteq> 0 \<Longrightarrow> unat (x - 1) = unat x - 1"
  by (metis unat_minus_one)

lemma of_nat_unat_64 [simp]: "(of_nat (unat (x :: u64)) :: u64) = x"
  by simp

end
