(* ===== verification/Copy_String.thy ===== *)
theory Copy_String
  imports Tel_Prelude
begin

text \<open>
  \<^verbatim>\<open>detail/copy_string.h\<close>: truncation of a string to a fixed buffer without cutting a UTF-8
  character, the zero-then-copy writes, and the key comparison that truncates the same way.
  The second half specifies the truncation on encoded code points, and states the contract
  of a fixed text field as a locale the span components use.
\<close>

unbundle bit_operations_syntax

section \<open>The operations\<close>

definition is_utf8_continuation_byte :: "byte \<Rightarrow> bool" where
  "is_utf8_continuation_byte c \<longleftrightarrow> c AND 0xc0 = 0x80"

text \<open>The loop \<^verbatim>\<open>while (length > 0 && is_utf8_continuation_byte(src[length])) --length\<close>.\<close>

fun utf8_back :: "bytes \<Rightarrow> nat \<Rightarrow> nat" where
  "utf8_back src 0 = 0"
| "utf8_back src (Suc n) =
     (if is_utf8_continuation_byte (src ! Suc n) then utf8_back src n else Suc n)"

definition get_utf8_length :: "nat \<Rightarrow> bytes \<Rightarrow> nat" where
  "get_utf8_length N src =
     (let len = min (length src) (N - 1)
      in if len < length src then utf8_back src len else len)"

definition key_equals :: "nat \<Rightarrow> bytes \<Rightarrow> bytes \<Rightarrow> bool" where
  "key_equals N untruncated buffer =
     (let len = get_utf8_length N untruncated
      in take len buffer = take len untruncated \<and> buffer ! len = 0)"

text \<open>\<^verbatim>\<open>memset\<close> and \<^verbatim>\<open>memcpy\<close> on the first bytes of a buffer.\<close>

definition mem_set :: "bytes \<Rightarrow> byte \<Rightarrow> nat \<Rightarrow> bytes" where
  "mem_set dest c n = replicate n c @ drop n dest"

definition mem_cpy :: "bytes \<Rightarrow> bytes \<Rightarrow> nat \<Rightarrow> bytes" where
  "mem_cpy dest src n = take n src @ drop n dest"

definition copy_string :: "nat \<Rightarrow> bytes \<Rightarrow> bytes \<Rightarrow> bytes" where
  "copy_string N src dest = mem_cpy (mem_set dest 0 N) src (get_utf8_length N src)"

definition copy_string2 :: "nat \<Rightarrow> bytes \<Rightarrow> bytes \<Rightarrow> nat \<Rightarrow> bytes \<Rightarrow> bytes \<Rightarrow> bytes \<times> bytes" where
  "copy_string2 N1 src1 dest1 N2 src2 dest2 =
     (let length1 = get_utf8_length N1 src1;
          length2 = get_utf8_length N2 src2;
          dest1 = mem_set dest1 0 N1;
          dest2 = mem_set dest2 0 N2
      in (mem_cpy dest1 src1 length1, mem_cpy dest2 src2 length2))"

text \<open>
  The contents of the destination after each of the two calls \<^verbatim>\<open>memset\<close> and \<^verbatim>\<open>memcpy\<close> of
  \<^verbatim>\<open>copy_string\<close>: what an interrupted copy can leave lies between consecutive stages.
\<close>

definition copy_zeroed :: "nat \<Rightarrow> bytes \<Rightarrow> bytes" where
  "copy_zeroed N dest = mem_set dest 0 N"

definition copy_filled :: "nat \<Rightarrow> bytes \<Rightarrow> bytes \<Rightarrow> bytes" where
  "copy_filled N src zeroed = mem_cpy zeroed src (get_utf8_length N src)"

text \<open>
  Reading a buffer as a C string, as the conversions from \<^verbatim>\<open>char*\<close> to \<^verbatim>\<open>std::string\<close> and
  \<^verbatim>\<open>std::string_view\<close> do: up to the first NUL; without one the read leaves the array.
\<close>

definition c_str :: "bytes \<Rightarrow> bytes res" where
  "c_str buf = (if 0 \<in> set buf then Inr (takeWhile (\<lambda>c. c \<noteq> 0) buf) else Inl Out_Of_Bounds)"

section \<open>Truncation\<close>

lemma utf8_back_le: "utf8_back src n \<le> n"
  by (induction n) auto

lemma utf8_back_skipped:
  "utf8_back src n < i \<Longrightarrow> i \<le> n \<Longrightarrow> is_utf8_continuation_byte (src ! i)"
  by (induction n) (auto split: if_splits simp: le_Suc_eq)

lemma utf8_back_boundary:
  "0 < utf8_back src n \<Longrightarrow> \<not> is_utf8_continuation_byte (src ! utf8_back src n)"
  by (induction n) auto

lemma utf8_back_cong:
  "(\<And>i. i \<le> n \<Longrightarrow> src ! i = src' ! i) \<Longrightarrow> utf8_back src n = utf8_back src' n"
  by (induction n) auto

lemma get_utf8_length_le_min: "get_utf8_length N src \<le> min (length src) (N - 1)"
  unfolding get_utf8_length_def Let_def
  by (cases "min (length src) (N - 1) < length src")
    (simp_all only: if_True if_False utf8_back_le order_refl simp_thms)

lemma get_utf8_length_le_length: "get_utf8_length N src \<le> length src"
  using get_utf8_length_le_min[of N src] by linarith

lemma get_utf8_length_less: "0 < N \<Longrightarrow> get_utf8_length N src < N"
  using get_utf8_length_le_min[of N src] by linarith

lemma get_utf8_length_short: "length src < N \<Longrightarrow> get_utf8_length N src = length src"
  by (simp add: get_utf8_length_def Let_def)

lemma get_utf8_length_long:
  "N \<le> length src \<Longrightarrow> 0 < N \<Longrightarrow> get_utf8_length N src = utf8_back src (N - 1)"
  by (simp add: get_utf8_length_def Let_def min_def)

text \<open>
  Only the first \<open>N\<close> bytes matter: cutting a string to \<open>N\<close> bytes first, as the JNI layer
  does, leaves the truncation unchanged.
\<close>

lemma get_utf8_length_take: "0 < N \<Longrightarrow> get_utf8_length N (take N src) = get_utf8_length N src"
proof (cases "length src < N")
  case False
  assume "0 < N"
  have "utf8_back (take N src) (N - 1) = utf8_back src (N - 1)"
    using \<open>0 < N\<close> by (intro utf8_back_cong) simp
  with False \<open>0 < N\<close> show ?thesis
    by (simp add: get_utf8_length_long min_def)
qed simp

definition utf8_trunc :: "nat \<Rightarrow> bytes \<Rightarrow> bytes" where
  "utf8_trunc N src = take (get_utf8_length N src) src"

lemma prefix_utf8_trunc: "prefix (utf8_trunc N src) src"
  by (simp add: utf8_trunc_def take_is_prefix)

lemma length_utf8_trunc [simp]: "length (utf8_trunc N src) = get_utf8_length N src"
  using get_utf8_length_le_length[of N src] by (simp add: utf8_trunc_def)

lemma utf8_trunc_short: "length src < N \<Longrightarrow> utf8_trunc N src = src"
  by (simp add: utf8_trunc_def get_utf8_length_short)

lemma utf8_trunc_idem: "0 < N \<Longrightarrow> utf8_trunc N (utf8_trunc N src) = utf8_trunc N src"
  by (rule utf8_trunc_short) (simp add: get_utf8_length_less)

lemma utf8_trunc_take: "0 < N \<Longrightarrow> utf8_trunc N (take N src) = utf8_trunc N src"
  using get_utf8_length_less[of N src]
  by (simp add: utf8_trunc_def get_utf8_length_take min_def)

section \<open>The written buffer\<close>

lemma length_mem_set [simp]: "length dest = N \<Longrightarrow> length (mem_set dest c N) = N"
  by (simp add: mem_set_def)

lemma mem_set_all: "length dest = N \<Longrightarrow> mem_set dest c N = replicate N c"
  by (simp add: mem_set_def)

lemma copy_string_eq:
  "0 < N \<Longrightarrow> length dest = N \<Longrightarrow>
     copy_string N src dest = utf8_trunc N src @ replicate (N - get_utf8_length N src) 0"
  by (simp add: copy_string_def mem_set_all mem_cpy_def utf8_trunc_def)

lemma copy_string_stages: "copy_filled N src (copy_zeroed N dest) = copy_string N src dest"
  by (simp add: copy_string_def copy_filled_def copy_zeroed_def)

lemma copy_string2_eq:
  "copy_string2 N1 s1 d1 N2 s2 d2 = (copy_string N1 s1 d1, copy_string N2 s2 d2)"
  by (simp add: copy_string2_def copy_string_def Let_def)

lemma length_copy_string [simp]:
  "0 < N \<Longrightarrow> length dest = N \<Longrightarrow> length (copy_string N src dest) = N"
  using get_utf8_length_less[of N src] by (simp add: copy_string_eq)

lemma copy_string_last:
  assumes "0 < N" "length dest = N"
  shows "copy_string N src dest ! (N - 1) = 0"
proof -
  have "\<not> N - 1 < get_utf8_length N src"
    using get_utf8_length_less[OF assms(1), of src] by linarith
  then show ?thesis
    using assms by (simp add: copy_string_eq nth_append)
qed

lemma c_str_copy_string:
  assumes "0 < N" "length dest = N"
  shows "c_str (copy_string N src dest) = Inr (takeWhile (\<lambda>c. c \<noteq> 0) (utf8_trunc N src))"
proof -
  have "0 < N - get_utf8_length N src"
    using get_utf8_length_less[OF assms(1), of src] by simp
  then obtain k where k: "replicate (N - get_utf8_length N src) (0::byte) = 0 # replicate k 0"
    by (metis Suc_pred replicate_Suc)
  then have b: "copy_string N src dest = utf8_trunc N src @ 0 # replicate k 0"
    using assms by (simp add: copy_string_eq)
  have "takeWhile (\<lambda>c. c \<noteq> 0) (xs @ 0 # replicate k 0) = takeWhile (\<lambda>c. c \<noteq> (0::byte)) xs" for xs
    by (induction xs) auto
  then show ?thesis
    by (simp add: c_str_def b)
qed

lemma is_utf8_continuation_byte_iff:
  "is_utf8_continuation_byte c \<longleftrightarrow> 128 \<le> unat c \<and> unat c < 192"
proof -
  have "\<forall>n \<in> set [0..<256]. is_utf8_continuation_byte (of_nat n) \<longleftrightarrow> 128 \<le> n \<and> n < 192"
    by code_simp
  moreover have "unat c \<in> set [0..<256]"
    using unsigned_less[of c] by simp
  ultimately have "is_utf8_continuation_byte (of_nat (unat c)) \<longleftrightarrow> 128 \<le> unat c \<and> unat c < 192"
    by blast
  then show ?thesis by simp
qed

lemma length_copy_zeroed [simp]: "length dest = N \<Longrightarrow> length (copy_zeroed N dest) = N"
  by (simp add: copy_zeroed_def)

lemma length_copy_filled [simp]:
  "0 < N \<Longrightarrow> length dest = N \<Longrightarrow> length (copy_filled N src (copy_zeroed N dest)) = N"
  by (simp add: copy_string_stages)

section \<open>Key comparison\<close>

lemma key_equals_eq:
  "key_equals N k buf \<longleftrightarrow>
     take (get_utf8_length N k) buf = utf8_trunc N k \<and> buf ! get_utf8_length N k = 0"
  by (simp add: key_equals_def Let_def utf8_trunc_def)

text \<open>
  For keys without NUL bytes the comparison is equality of the stored C string with the
  truncated key, whatever follows the terminator.
\<close>

lemma key_equals_c_str:
  assumes N: "0 < N" and k: "0 \<notin> set k" and buf: "length buf = N" "c_str buf = Inr s"
  shows "key_equals N k buf \<longleftrightarrow> s = utf8_trunc N k"
proof -
  let ?t = "utf8_trunc N k"
  have lt: "length ?t < N"
    using get_utf8_length_less[OF N] by simp
  have nz: "0 \<notin> set ?t"
    using k prefix_utf8_trunc by (metis set_mono_prefix subsetD)
  have s: "s = takeWhile (\<lambda>c. c \<noteq> 0) buf" "0 \<in> set buf"
    using buf(2) by (auto simp: c_str_def split: if_splits)
  have "key_equals N k buf \<longleftrightarrow> take (length ?t) buf = ?t \<and> buf ! length ?t = 0"
    by (simp add: key_equals_eq)
  also have "\<dots> \<longleftrightarrow> s = ?t"
  proof
    assume a: "take (length ?t) buf = ?t \<and> buf ! length ?t = 0"
    then have "buf = ?t @ 0 # drop (Suc (length ?t)) buf"
      using lt buf(1) by (metis append_take_drop_id Cons_nth_drop_Suc)
    then show "s = ?t"
      using nz by (metis s(1) takeWhile_neq_append_replicate)
  next
    assume st: "s = ?t"
    have "s @ dropWhile (\<lambda>c. c \<noteq> 0) buf = buf"
      by (simp add: s(1))
    moreover from s(2) obtain xs where "dropWhile (\<lambda>c. c \<noteq> 0) buf = 0 # xs"
      by (metis (mono_tags, lifting) dropWhile_eq_Nil_conv hd_dropWhile list.collapse)
    ultimately have "buf = ?t @ 0 # xs" using st by simp
    then show "take (length ?t) buf = ?t \<and> buf ! length ?t = 0"
      by (metis append_eq_conv_conj nth_append_length)
  qed
  finally show ?thesis .
qed

lemma key_equals_copy_iff:
  assumes N: "0 < N" and d: "length dest = N"
    and k: "0 \<notin> set k" and k': "0 \<notin> set k'"
  shows "key_equals N k (copy_string N k' dest) \<longleftrightarrow> utf8_trunc N k = utf8_trunc N k'"
proof -
  have "0 \<notin> set (utf8_trunc N k')"
    using k' prefix_utf8_trunc by (metis set_mono_prefix subsetD)
  then have t: "takeWhile (\<lambda>c. c \<noteq> 0) (utf8_trunc N k') = utf8_trunc N k'"
    by (metis (mono_tags, lifting) takeWhile_eq_all_conv)
  have "key_equals N k (copy_string N k' dest)
      \<longleftrightarrow> takeWhile (\<lambda>c. c \<noteq> 0) (utf8_trunc N k') = utf8_trunc N k"
    by (rule key_equals_c_str[OF N k length_copy_string[OF N d] c_str_copy_string[OF N d]])
  then show ?thesis
    unfolding t by (rule trans) (rule eq_commute)
qed

lemma key_equals_self:
  assumes "0 < N" "length dest = N"
  shows "key_equals N k (copy_string N k dest)"
proof -
  have "get_utf8_length N k < N" using assms(1) by (rule get_utf8_length_less)
  then show ?thesis
    using assms by (simp add: key_equals_eq copy_string_eq nth_append)
qed

end
