(* ===== verification/Mmap_Config.thy ===== *)
theory Mmap_Config
  imports Tel_Prelude
begin

text \<open>
  The sizes of the program: the three layout sizes of \<^verbatim>\<open>mmap_size.h\<close>, their span and
  attribute limits (\<^verbatim>\<open>mmap_config.h\<close>), the page size (\<^verbatim>\<open>page_size.h\<close>), and the byte sizes of
  the packed structures of \<^verbatim>\<open>marked_span.h\<close>, \<^verbatim>\<open>header.h\<close> and \<^verbatim>\<open>memory_layout.h\<close>.
\<close>

section \<open>Layout sizes\<close>

datatype mmap_size = Small | Medium | Large

text \<open>
  \<^verbatim>\<open>enum class MmapSize : std::uint64_t\<close>: a value of the enum type is any 64-bit word (a
  cast or a file can produce others); the enumerators are the three codes.
\<close>

fun mmap_size_code :: "mmap_size \<Rightarrow> u64" where
  "mmap_size_code Small = 0"
| "mmap_size_code Medium = 1"
| "mmap_size_code Large = 2"

instantiation mmap_size :: linorder
begin

definition less_eq_mmap_size :: "mmap_size \<Rightarrow> mmap_size \<Rightarrow> bool" where
  "less_eq_mmap_size a b \<longleftrightarrow> mmap_size_code a \<le> mmap_size_code b"

definition less_mmap_size :: "mmap_size \<Rightarrow> mmap_size \<Rightarrow> bool" where
  "less_mmap_size a b \<longleftrightarrow> mmap_size_code a < mmap_size_code b"

instance
proof
  fix a b c :: mmap_size
  show "(a < b) = (a \<le> b \<and> \<not> b \<le> a)"
    by (auto simp: less_eq_mmap_size_def less_mmap_size_def)
  show "a \<le> a"
    by (simp add: less_eq_mmap_size_def)
  show "a \<le> b \<Longrightarrow> b \<le> c \<Longrightarrow> a \<le> c"
    by (simp add: less_eq_mmap_size_def)
  show "a \<le> b \<Longrightarrow> b \<le> a \<Longrightarrow> a = b"
    by (cases a; cases b) (auto simp: less_eq_mmap_size_def word_le_nat_alt)
  show "a \<le> b \<or> b \<le> a"
    by (auto simp: less_eq_mmap_size_def)
qed

end

lemma mmap_size_code_inject [simp]: "mmap_size_code a = mmap_size_code b \<longleftrightarrow> a = b"
  by (cases a; cases b) auto

record config =
  max_spans :: nat
  max_attributes :: nat

fun mmap_config :: "mmap_size \<Rightarrow> config" where
  "mmap_config Large = \<lparr>max_spans = 2048, max_attributes = 128\<rparr>"
| "mmap_config Medium = \<lparr>max_spans = 1024, max_attributes = 64\<rparr>"
| "mmap_config Small = \<lparr>max_spans = 128, max_attributes = 16\<rparr>"

lemma max_spans_bounds: "0 < max_spans (mmap_config sz)" "max_spans (mmap_config sz) \<le> 2048"
  by (cases sz; simp)+

lemma max_attributes_bounds:
  "0 < max_attributes (mmap_config sz)" "max_attributes (mmap_config sz) \<le> 128"
  by (cases sz; simp)+

lemma max_spans_mono: "a \<le> b \<Longrightarrow> max_spans (mmap_config a) \<le> max_spans (mmap_config b)"
  by (cases a; cases b) (auto simp: less_eq_mmap_size_def word_le_nat_alt)

text \<open>The limits are small enough for every 64-bit count to hold them exactly.\<close>

lemma unat_max_spans [simp]:
  "unat (of_nat (max_spans (mmap_config sz)) :: u64) = max_spans (mmap_config sz)"
  using max_spans_bounds(2)[of sz] by simp

lemma unat_max_attributes [simp]:
  "unat (of_nat (max_attributes (mmap_config sz)) :: u64) = max_attributes (mmap_config sz)"
  using max_attributes_bounds(2)[of sz] by simp

section \<open>Sizes of the packed structures\<close>

definition attr_key_size :: nat where "attr_key_size = 64"
definition attr_value_size :: nat where "attr_value_size = 128"
definition span_name_size :: nat where "span_name_size = 64"

definition sizeof_raw_attribute :: nat where
  "sizeof_raw_attribute = attr_key_size + attr_value_size"

definition offset_attr_count :: nat where
  "offset_attr_count = 2 * 8 + 8 + 8 + 8 + 8 + span_name_size"

definition sizeof_raw_span :: "mmap_size \<Rightarrow> nat" where
  "sizeof_raw_span sz =
     offset_attr_count + 8 + max_attributes (mmap_config sz) * sizeof_raw_attribute"

definition sizeof_marked_span :: "mmap_size \<Rightarrow> nat" where
  "sizeof_marked_span sz = 8 + sizeof_raw_span sz"

definition sizeof_header :: nat where
  "sizeof_header = 8 + 8 + 8 + 8"

definition sizeof_memory_layout :: "mmap_size \<Rightarrow> nat" where
  "sizeof_memory_layout sz = sizeof_header + max_spans (mmap_config sz) * sizeof_marked_span sz"

lemmas sizeof_defs =
  sizeof_memory_layout_def sizeof_header_def sizeof_marked_span_def sizeof_raw_span_def
  offset_attr_count_def sizeof_raw_attribute_def attr_key_size_def attr_value_size_def
  span_name_size_def

text \<open>
  The static assertions of \<^verbatim>\<open>mmap_config.h\<close>, \<^verbatim>\<open>header.h\<close>, \<^verbatim>\<open>marked_span.h\<close> and \<^verbatim>\<open>memory_layout.h\<close>:
  sizes and offsets are whole words. The enum has a \<^verbatim>\<open>std::uint64_t\<close> behind it.
\<close>

definition sizeof_mmap_size :: nat where "sizeof_mmap_size = 8"
definition offset_mmap_size :: nat where "offset_mmap_size = 8 + 8"
definition offset_active_span_count :: nat where
  "offset_active_span_count = 8 + 8 + sizeof_mmap_size"

definition word_aligned :: "nat \<Rightarrow> bool" where
  "word_aligned n \<longleftrightarrow> n mod 8 = 0"

definition header_asserts :: bool where
  "header_asserts \<longleftrightarrow> word_aligned offset_active_span_count \<and> word_aligned offset_mmap_size \<and>
     word_aligned sizeof_header"

definition marked_span_asserts :: bool where
  "marked_span_asserts \<longleftrightarrow> word_aligned sizeof_raw_attribute \<and> word_aligned (sizeof_raw_span Small) \<and>
     word_aligned offset_attr_count \<and> word_aligned 8 \<and> word_aligned (sizeof_marked_span Small)"

definition layout_size_asserts :: bool where
  "layout_size_asserts \<longleftrightarrow> word_aligned (sizeof_memory_layout Small) \<and>
     word_aligned (sizeof_memory_layout Medium) \<and> word_aligned (sizeof_memory_layout Large)"

definition marked_spans_assert :: bool where
  "marked_spans_assert \<longleftrightarrow> word_aligned sizeof_header"

lemmas assert_defs =
  header_asserts_def marked_spans_assert_def marked_span_asserts_def layout_size_asserts_def word_aligned_def
  sizeof_mmap_size_def offset_mmap_size_def offset_active_span_count_def

lemma static_asserts_hold:
  "word_aligned sizeof_mmap_size \<and> header_asserts \<and> marked_span_asserts \<and> marked_spans_assert \<and>
     layout_size_asserts"
  by (simp add: assert_defs sizeof_defs)

text \<open>\<^verbatim>\<open>get_memory_layout_size\<close> switches on the runtime enum value; \<^verbatim>\<open>default\<close> is Small.\<close>

definition get_memory_layout_size :: "u64 \<Rightarrow> nat" where
  "get_memory_layout_size w =
     (if w = mmap_size_code Large then sizeof_memory_layout Large
      else if w = mmap_size_code Medium then sizeof_memory_layout Medium
      else sizeof_memory_layout Small)"

lemma get_memory_layout_size_code [simp]:
  "get_memory_layout_size (mmap_size_code sz) = sizeof_memory_layout sz"
  by (cases sz) (auto simp: get_memory_layout_size_def)

section \<open>Page size and file size\<close>

text \<open>\<^verbatim>\<open>get_page_size\<close> guards the value \<^verbatim>\<open>sysconf(_SC_PAGESIZE)\<close> returned, here \<open>ps\<close>.\<close>

definition get_page_size :: "int \<Rightarrow> nat" where
  "get_page_size ps = (if ps \<le> 0 then 4096 else nat ps)"

lemma get_page_size_pos [simp]: "0 < get_page_size ps"
  by (simp add: get_page_size_def)

definition get_aligned_size :: "int \<Rightarrow> u64 \<Rightarrow> nat" where
  "get_aligned_size ps mmap_size =
     (let page_size = get_page_size ps; layout_size = get_memory_layout_size mmap_size
      in ((layout_size + page_size - 1) div page_size) * page_size)"

lemma round_up_bounds:
  fixes n p :: nat
  assumes "0 < p"
  shows "n \<le> (n + p - 1) div p * p" and "(n + p - 1) div p * p < n + p"
proof -
  have e: "(n + p - 1) div p * p + (n + p - 1) mod p = n + p - 1"
    by (rule div_mult_mod_eq)
  have m: "(n + p - 1) mod p < p"
    using assms by simp
  from e m assms show "n \<le> (n + p - 1) div p * p" by linarith
  from e m assms show "(n + p - 1) div p * p < n + p" by linarith
qed

end
