(* ===== verification/Text_Field.thy ===== *)
theory Text_Field
  imports Copy_String Mmap_Config
begin

text \<open>
  What the truncation of \<^verbatim>\<open>copy_string.h\<close> promises: on UTF-8 text it keeps the longest prefix
  of whole characters that fits. Then the contract of a fixed text field (write, read back,
  compare) as a locale, interpreted by the copy routines for the three fields of the layout.
\<close>

section \<open>Truncation on whole characters\<close>

text \<open>A character: one leading byte, then continuation bytes only.\<close>

definition utf8_char :: "bytes \<Rightarrow> bool" where
  "utf8_char c \<longleftrightarrow> c \<noteq> [] \<and> \<not> is_utf8_continuation_byte (hd c) \<and>
     list_all is_utf8_continuation_byte (tl c)"

text \<open>The characters, from the left, that fit in \<open>m\<close> bytes.\<close>

fun utf8_fit :: "nat \<Rightarrow> bytes list \<Rightarrow> bytes list" where
  "utf8_fit m [] = []"
| "utf8_fit m (c # cs) = (if length c \<le> m then c # utf8_fit (m - length c) cs else [])"

lemma utf8_fit_split:
  "\<exists>rest. cs = utf8_fit m cs @ rest \<and> length (concat (utf8_fit m cs)) \<le> m \<and>
     (rest \<noteq> [] \<longrightarrow> m < length (concat (utf8_fit m cs)) + length (hd rest))"
proof (induction cs arbitrary: m)
  case (Cons c cs)
  show ?case
  proof (cases "length c \<le> m")
    case True
    from Cons.IH[of "m - length c"] obtain rest where
      "cs = utf8_fit (m - length c) cs @ rest"
      "length (concat (utf8_fit (m - length c) cs)) \<le> m - length c"
      "rest \<noteq> [] \<longrightarrow>
         m - length c < length (concat (utf8_fit (m - length c) cs)) + length (hd rest)"
      by blast
    with True show ?thesis
      by (intro exI[of _ rest]) auto
  qed auto
qed simp

lemma utf8_fit_all: "length (concat cs) \<le> m \<Longrightarrow> utf8_fit m cs = cs"
  by (induction cs arbitrary: m) auto

lemma utf8_back_unique:
  assumes "p \<le> n" "\<And>i. p < i \<Longrightarrow> i \<le> n \<Longrightarrow> is_utf8_continuation_byte (src ! i)"
    and "\<not> is_utf8_continuation_byte (src ! p)"
  shows "utf8_back src n = p"
  using assms
proof (induction n)
  case (Suc n)
  show ?case
  proof (cases "p = Suc n")
    case False
    with Suc.prems(1,2) have "is_utf8_continuation_byte (src ! Suc n)" "p \<le> n"
      by auto
    with Suc show ?thesis by simp
  qed (use Suc.prems(3) in auto)
qed simp

lemma utf8_back_chars:
  assumes "list_all utf8_char cs" "m < length (concat cs)"
  shows "utf8_back (concat cs) m = length (concat (utf8_fit m cs))"
proof -
  let ?p = "length (concat (utf8_fit m cs))"
  from utf8_fit_split[of cs m] obtain rest where
    cs: "cs = utf8_fit m cs @ rest" and p: "?p \<le> m"
    and r: "rest \<noteq> [] \<longrightarrow> m < ?p + length (hd rest)"
    by blast
  have "rest \<noteq> []"
  proof
    assume "rest = []"
    with cs have "utf8_fit m cs = cs" by simp
    with p assms(2) show False by simp
  qed
  then obtain c cs2 where rest: "rest = c # cs2"
    by (cases rest) auto
  have src: "concat cs = concat (utf8_fit m cs) @ c @ concat cs2"
    by (subst cs) (simp add: rest)
  have "utf8_char c"
    using assms(1) rest by (subst (asm) cs) simp
  then have at: "concat cs ! (?p + j) = c ! j" if "j < length c" for j
    using that by (simp add: src nth_append)
  show ?thesis
  proof (rule utf8_back_unique[OF p])
    show "\<not> is_utf8_continuation_byte (concat cs ! ?p)"
      using at[of 0] \<open>utf8_char c\<close> by (cases c) (simp_all add: utf8_char_def)
  next
    fix i assume i: "?p < i" "i \<le> m"
    define j where "j = i - ?p"
    have j: "0 < j" "j < length c" "i = ?p + j"
      using i r rest by (auto simp: j_def)
    then have "c ! j = tl c ! (j - 1)"
      by (simp add: nth_tl)
    then show "is_utf8_continuation_byte (concat cs ! i)"
      using j at[of j] \<open>utf8_char c\<close> by (simp add: utf8_char_def list_all_length)
  qed
qed

lemma utf8_trunc_chars:
  assumes "0 < N" "list_all utf8_char cs"
  shows "utf8_trunc N (concat cs) = concat (utf8_fit (N - 1) cs)"
proof (cases "length (concat cs) < N")
  case True
  then show ?thesis by (simp add: utf8_trunc_short utf8_fit_all)
next
  case False
  then have "get_utf8_length N (concat cs) = length (concat (utf8_fit (N - 1) cs))"
    using assms by (simp add: get_utf8_length_long utf8_back_chars)
  moreover obtain rest where "cs = utf8_fit (N - 1) cs @ rest"
    using utf8_fit_split by blast
  then have "concat cs = concat (utf8_fit (N - 1) cs) @ concat rest"
    by (metis concat_append)
  ultimately show ?thesis
    by (simp add: utf8_trunc_def)
qed

section \<open>Encoded code points\<close>

definition utf8_encode :: "nat \<Rightarrow> bytes" where
  "utf8_encode c =
     (if c < 0x80 then [of_nat c]
      else if c < 0x800 then [of_nat (0xC0 + c div 0x40), of_nat (0x80 + c mod 0x40)]
      else if c < 0x10000 then
        [of_nat (0xE0 + c div 0x1000), of_nat (0x80 + c div 0x40 mod 0x40),
         of_nat (0x80 + c mod 0x40)]
      else
        [of_nat (0xF0 + c div 0x40000), of_nat (0x80 + c div 0x1000 mod 0x40),
         of_nat (0x80 + c div 0x40 mod 0x40), of_nat (0x80 + c mod 0x40)])"

definition utf8_string :: "nat list \<Rightarrow> bytes" where
  "utf8_string cps = concat (map utf8_encode cps)"

lemma unat_of_nat_8: "n < 256 \<Longrightarrow> unat (of_nat n :: byte) = n"
  by (simp add: unat_of_nat)

lemma utf8_char_encode:
  assumes "c < 0x110000"
  shows "utf8_char (utf8_encode c)"
proof -
  have cont: "is_utf8_continuation_byte (of_nat (0x80 + k mod 0x40))" for k
  proof -
    have "k mod 0x40 < 0x40" by simp
    then show ?thesis
      by (simp add: is_utf8_continuation_byte_iff unat_of_nat_8 del: of_nat_add)
  qed
  have lead: "\<not> is_utf8_continuation_byte (of_nat k)" if "k < 256" "k < 128 \<or> 192 \<le> k" for k
    using that by (auto simp: is_utf8_continuation_byte_iff unat_of_nat_8)
  show ?thesis
    unfolding utf8_encode_def utf8_char_def
    using assms cont[of c] cont[of "c div 0x40"] cont[of "c div 0x1000"]
      lead[of c] lead[of "0xC0 + c div 0x40"] lead[of "0xE0 + c div 0x1000"]
      lead[of "0xF0 + c div 0x40000"]
    by (auto simp del: of_nat_add)
qed

lemma utf8_fit_prefix: "\<exists>k \<le> length cs. utf8_fit m cs = take k cs"
proof (induction cs arbitrary: m)
  case (Cons c cs)
  from Cons.IH[of "m - length c"] obtain k where
    "k \<le> length cs" "utf8_fit (m - length c) cs = take k cs" by blast
  then show ?case
    by (cases "length c \<le> m") (auto intro: exI[of _ "Suc k"])
qed simp

section \<open>The contract of a text field\<close>

text \<open>
  A field of \<open>N\<close> bytes, as its users rely on it: writing truncates to a prefix that leaves
  room for the terminator, reading returns what was kept, and the comparison finds a
  stored text.
\<close>

locale text_field =
  fixes N :: nat
    and trunc :: "bytes \<Rightarrow> bytes"
    and put :: "bytes \<Rightarrow> bytes \<Rightarrow> bytes"
    and matches :: "bytes \<Rightarrow> bytes \<Rightarrow> bool"
  assumes trunc_prefix: "prefix (trunc s) s"
    and trunc_less: "length (trunc s) < N"
    and trunc_fits: "length s < N \<Longrightarrow> trunc s = s"
    and put_length: "length dest = N \<Longrightarrow> length (put s dest) = N"
    and put_read: "length dest = N \<Longrightarrow>
      c_str (put s dest) = Inr (takeWhile (\<lambda>c. c \<noteq> 0) (trunc s))"
    and put_overwrites: "length dest = N \<Longrightarrow> length dest' = N \<Longrightarrow> put s dest = put s dest'"
    and matches_read: "length buf = N \<Longrightarrow> c_str buf = Inr t \<Longrightarrow> 0 \<notin> set s \<Longrightarrow>
      matches s buf \<longleftrightarrow> t = trunc s"
begin

abbreviation (input) stored :: "bytes \<Rightarrow> bytes" where
  "stored s \<equiv> takeWhile (\<lambda>c. c \<noteq> 0) (trunc s)"

lemma stored_less: "length (stored s) < N"
  using trunc_less[of s] length_takeWhile_le le_less_trans by blast

lemma stored_no_nul: "0 \<notin> set (stored s)"
  by (auto dest: set_takeWhileD)

lemma stored_fits: "length s < N \<Longrightarrow> 0 \<notin> set s \<Longrightarrow> stored s = s"
  by (simp add: trunc_fits takeWhile_eq_all_conv) auto

lemma stored_idem: "stored (stored s) = stored s"
  by (rule stored_fits[OF stored_less stored_no_nul])

lemma stored_nul_free: "0 \<notin> set s \<Longrightarrow> stored s = trunc s"
proof -
  assume "0 \<notin> set s"
  then have "0 \<notin> set (trunc s)"
    using trunc_prefix set_mono_prefix by (metis subsetD)
  then show ?thesis
    by (metis (mono_tags, lifting) takeWhile_eq_all_conv)
qed

lemma put_terminated: "length dest = N \<Longrightarrow> 0 \<in> set (put s dest)"
  using put_read[of dest s] by (auto simp: c_str_def split: if_splits)

lemma matches_put:
  assumes "length dest = N" "0 \<notin> set s" "0 \<notin> set t"
  shows "matches s (put t dest) \<longleftrightarrow> trunc s = trunc t"
proof -
  have "matches s (put t dest) \<longleftrightarrow> stored t = trunc s"
    using assms by (intro matches_read put_length put_read)
  then show ?thesis
    unfolding stored_nul_free[OF assms(3)] by (rule trans) (rule eq_commute)
qed

end

lemma text_field_copy: "0 < N \<Longrightarrow> text_field N (utf8_trunc N) (copy_string N) (key_equals N)"
proof
  assume N: "0 < N"
  fix s t dest dest' buf :: bytes
  show "prefix (utf8_trunc N s) s" by (rule prefix_utf8_trunc)
  show "length (utf8_trunc N s) < N" using N by (simp add: get_utf8_length_less)
  show "length s < N \<Longrightarrow> utf8_trunc N s = s" by (rule utf8_trunc_short)
  show "length dest = N \<Longrightarrow> length (copy_string N s dest) = N" using N by simp
  show "length dest = N \<Longrightarrow>
      c_str (copy_string N s dest) = Inr (takeWhile (\<lambda>c. c \<noteq> 0) (utf8_trunc N s))"
    using N by (simp add: c_str_copy_string)
  show "length dest = N \<Longrightarrow> length dest' = N \<Longrightarrow> copy_string N s dest = copy_string N s dest'"
    using N by (simp add: copy_string_eq)
  show "length buf = N \<Longrightarrow> c_str buf = Inr t \<Longrightarrow> 0 \<notin> set s \<Longrightarrow>
      key_equals N s buf \<longleftrightarrow> t = utf8_trunc N s"
    using N by (simp add: key_equals_c_str)
qed

lemma field_sizes_pos [simp]: "0 < attr_key_size" "0 < attr_value_size" "0 < span_name_size"
  by (simp_all add: attr_key_size_def attr_value_size_def span_name_size_def)

interpretation key_field:
  text_field attr_key_size "utf8_trunc attr_key_size" "copy_string attr_key_size"
    "key_equals attr_key_size"
  by (rule text_field_copy) simp

interpretation value_field:
  text_field attr_value_size "utf8_trunc attr_value_size" "copy_string attr_value_size"
    "key_equals attr_value_size"
  by (rule text_field_copy) simp

interpretation name_field:
  text_field span_name_size "utf8_trunc span_name_size" "copy_string span_name_size"
    "key_equals span_name_size"
  by (rule text_field_copy) simp

end
