(* ===== verification/Raw_Layout.thy ===== *)
theory Raw_Layout
  imports Text_Field
begin

text \<open>
  The structures of the mapped file (\<^verbatim>\<open>detail/marked_span.h\<close>, \<^verbatim>\<open>detail/header.h\<close>,
  \<^verbatim>\<open>detail/memory_layout.h\<close>) as records, their shape (array lengths, fixed by the template
  argument \<^verbatim>\<open>Size\<close>), and the individual stores the program makes into them. Every operation
  that changes the mapping is a list of such stores in program order; running the list is
  the operation, and a prefix of it is what a crash leaves behind.
\<close>

section \<open>The structures\<close>

record raw_attribute =
  attr_key :: bytes
  attr_value :: bytes

record raw_span =
  raw_trace_id :: "u64 \<times> u64"
  raw_span_id :: u64
  raw_parent_span_id :: u64
  raw_start_time :: u64
  raw_end_time :: u64
  raw_name :: bytes
  raw_attr_count :: u64
  raw_attributes :: "raw_attribute list"

record marked_span =
  ms_mark :: mark_t
  ms_span :: raw_span

record header =
  h_signature :: u64
  h_version :: u64
  h_mmap_size :: u64
  h_active_span_count :: u64

record memory_layout =
  ml_header :: header
  ml_marked_spans :: "marked_span list"

text \<open>Zeroed memory.\<close>

definition zero_attribute :: raw_attribute where
  "zero_attribute = \<lparr>attr_key = replicate attr_key_size 0, attr_value = replicate attr_value_size 0\<rparr>"

definition zero_raw_span :: "mmap_size \<Rightarrow> raw_span" where
  "zero_raw_span sz =
     \<lparr>raw_trace_id = (0, 0), raw_span_id = 0, raw_parent_span_id = 0, raw_start_time = 0,
      raw_end_time = 0, raw_name = replicate span_name_size 0, raw_attr_count = 0,
      raw_attributes = replicate (max_attributes (mmap_config sz)) zero_attribute\<rparr>"

definition zero_marked_span :: "mmap_size \<Rightarrow> marked_span" where
  "zero_marked_span sz = \<lparr>ms_mark = 0, ms_span = zero_raw_span sz\<rparr>"

definition zero_header :: header where
  "zero_header = \<lparr>h_signature = 0, h_version = 0, h_mmap_size = 0, h_active_span_count = 0\<rparr>"

definition zero_layout :: "mmap_size \<Rightarrow> memory_layout" where
  "zero_layout sz =
     \<lparr>ml_header = zero_header,
      ml_marked_spans = replicate (max_spans (mmap_config sz)) (zero_marked_span sz)\<rparr>"

section \<open>Shape\<close>

text \<open>\<open>wf_\<close> is the shape the types fix: any bytes of the right size satisfy it.\<close>

definition wf_attribute :: "raw_attribute \<Rightarrow> bool" where
  "wf_attribute a \<longleftrightarrow> length (attr_key a) = attr_key_size \<and> length (attr_value a) = attr_value_size"

definition wf_raw_span :: "mmap_size \<Rightarrow> raw_span \<Rightarrow> bool" where
  "wf_raw_span sz r \<longleftrightarrow> length (raw_name r) = span_name_size \<and>
     length (raw_attributes r) = max_attributes (mmap_config sz) \<and>
     list_all wf_attribute (raw_attributes r)"

definition wf_layout :: "mmap_size \<Rightarrow> memory_layout \<Rightarrow> bool" where
  "wf_layout sz l \<longleftrightarrow> length (ml_marked_spans l) = max_spans (mmap_config sz) \<and>
     list_all (\<lambda>m. wf_raw_span sz (ms_span m)) (ml_marked_spans l)"

text \<open>
  \<open>clean_\<close> is what the writers keep and the readers need: every C string is terminated and
  the attribute count is within the array.
\<close>

definition clean_attribute :: "raw_attribute \<Rightarrow> bool" where
  "clean_attribute a \<longleftrightarrow> wf_attribute a \<and> 0 \<in> set (attr_key a) \<and> 0 \<in> set (attr_value a)"

definition clean_raw_span :: "mmap_size \<Rightarrow> raw_span \<Rightarrow> bool" where
  "clean_raw_span sz r \<longleftrightarrow> wf_raw_span sz r \<and> 0 \<in> set (raw_name r) \<and>
     unat (raw_attr_count r) \<le> max_attributes (mmap_config sz) \<and>
     list_all clean_attribute (raw_attributes r)"

lemma clean_zero_attribute [simp]: "clean_attribute zero_attribute"
  by (simp add: clean_attribute_def wf_attribute_def zero_attribute_def)

lemma clean_zero_raw_span [simp]: "clean_raw_span sz (zero_raw_span sz)"
  by (auto simp: clean_raw_span_def wf_raw_span_def zero_raw_span_def list_all_iff
      clean_attribute_def[of zero_attribute, symmetric] intro: clean_zero_attribute)
    (use clean_zero_attribute in \<open>simp add: clean_attribute_def\<close>)

lemma clean_raw_span_wf: "clean_raw_span sz r \<Longrightarrow> wf_raw_span sz r"
  by (simp add: clean_raw_span_def)

lemma wf_zero_layout [simp]: "wf_layout sz (zero_layout sz)"
  using clean_raw_span_wf[OF clean_zero_raw_span[of sz]]
  by (simp add: wf_layout_def zero_layout_def zero_marked_span_def list_all_length)

section \<open>Stores\<close>

text \<open>
  The code writes the mapping through scalar stores (a mark, a count, a time), one struct
  assignment (a whole raw span) and \<^verbatim>\<open>memset\<close>/\<^verbatim>\<open>memcpy\<close> calls (a key or value buffer, whose
  constructor carries the buffer after the call; the array of marked spans).
\<close>

datatype store =
    Store_Signature u64
  | Store_Version u64
  | Store_Mmap_Size u64
  | Store_Count u64
  | Store_Mark nat mark_t
  | Store_Span nat raw_span
  | Store_End_Time nat u64
  | Store_Attr_Key nat nat bytes
  | Store_Attr_Value nat nat bytes
  | Store_Attr_Count nat u64
  | Store_Clear_Spans

definition upd_header :: "(header \<Rightarrow> header) \<Rightarrow> memory_layout \<Rightarrow> memory_layout" where
  "upd_header f l = l\<lparr>ml_header := f (ml_header l)\<rparr>"

definition upd_slot :: "nat \<Rightarrow> (marked_span \<Rightarrow> marked_span) \<Rightarrow> memory_layout \<Rightarrow> memory_layout" where
  "upd_slot i f l = l\<lparr>ml_marked_spans := (ml_marked_spans l)[i := f (ml_marked_spans l ! i)]\<rparr>"

definition upd_span :: "nat \<Rightarrow> (raw_span \<Rightarrow> raw_span) \<Rightarrow> memory_layout \<Rightarrow> memory_layout" where
  "upd_span i f = upd_slot i (\<lambda>m. m\<lparr>ms_span := f (ms_span m)\<rparr>)"

definition upd_attr :: "nat \<Rightarrow> (raw_attribute \<Rightarrow> raw_attribute) \<Rightarrow> raw_span \<Rightarrow> raw_span" where
  "upd_attr j f r = r\<lparr>raw_attributes := (raw_attributes r)[j := f (raw_attributes r ! j)]\<rparr>"

fun exec_store :: "mmap_size \<Rightarrow> store \<Rightarrow> memory_layout \<Rightarrow> memory_layout" where
  "exec_store sz (Store_Signature w) l = upd_header (\<lambda>h. h\<lparr>h_signature := w\<rparr>) l"
| "exec_store sz (Store_Version w) l = upd_header (\<lambda>h. h\<lparr>h_version := w\<rparr>) l"
| "exec_store sz (Store_Mmap_Size w) l = upd_header (\<lambda>h. h\<lparr>h_mmap_size := w\<rparr>) l"
| "exec_store sz (Store_Count w) l = upd_header (\<lambda>h. h\<lparr>h_active_span_count := w\<rparr>) l"
| "exec_store sz (Store_Mark i w) l = upd_slot i (\<lambda>m. m\<lparr>ms_mark := w\<rparr>) l"
| "exec_store sz (Store_Span i r) l = upd_span i (\<lambda>_. r) l"
| "exec_store sz (Store_End_Time i w) l = upd_span i (\<lambda>r. r\<lparr>raw_end_time := w\<rparr>) l"
| "exec_store sz (Store_Attr_Key i j b) l = upd_span i (upd_attr j (\<lambda>a. a\<lparr>attr_key := b\<rparr>)) l"
| "exec_store sz (Store_Attr_Value i j b) l = upd_span i (upd_attr j (\<lambda>a. a\<lparr>attr_value := b\<rparr>)) l"
| "exec_store sz (Store_Attr_Count i w) l = upd_span i (\<lambda>r. r\<lparr>raw_attr_count := w\<rparr>) l"
| "exec_store sz Store_Clear_Spans l =
     l\<lparr>ml_marked_spans := replicate (length (ml_marked_spans l)) (zero_marked_span sz)\<rparr>"

fun exec_stores :: "mmap_size \<Rightarrow> store list \<Rightarrow> memory_layout \<Rightarrow> memory_layout" where
  "exec_stores sz [] l = l"
| "exec_stores sz (s # ss) l = exec_stores sz ss (exec_store sz s l)"

lemma exec_stores_append: "exec_stores sz (ss @ ts) l = exec_stores sz ts (exec_stores sz ss l)"
  by (induction ss arbitrary: l) auto

lemma marked_span_copy [simp]:
  "m\<lparr>ms_span := ms_span z, ms_mark := ms_mark z\<rparr> = (z :: marked_span)"
  by (cases m; cases z) simp

section \<open>Views of the layout\<close>

abbreviation active_count :: "memory_layout \<Rightarrow> u64" where
  "active_count l \<equiv> h_active_span_count (ml_header l)"

abbreviation slot_mark :: "memory_layout \<Rightarrow> nat \<Rightarrow> mark_t" where
  "slot_mark l i \<equiv> ms_mark (ml_marked_spans l ! i)"

abbreviation slot_span :: "memory_layout \<Rightarrow> nat \<Rightarrow> raw_span" where
  "slot_span l i \<equiv> ms_span (ml_marked_spans l ! i)"

text \<open>The slots below the active count, in slot order.\<close>

definition active :: "memory_layout \<Rightarrow> marked_span list" where
  "active l = take (unat (active_count l)) (ml_marked_spans l)"

lemma upd_header_simps [layout_simps]:
  "ml_header (upd_header f l) = f (ml_header l)"
  "ml_marked_spans (upd_header f l) = ml_marked_spans l"
  by (simp_all add: upd_header_def)

lemma upd_slot_simps [layout_simps]:
  "ml_header (upd_slot i f l) = ml_header l"
  "length (ml_marked_spans (upd_slot i f l)) = length (ml_marked_spans l)"
  "ml_marked_spans (upd_slot i f l) = (ml_marked_spans l)[i := f (ml_marked_spans l ! i)]"
  by (simp_all add: upd_slot_def)

lemma upd_span_simps [layout_simps]:
  "ml_header (upd_span i f l) = ml_header l"
  "length (ml_marked_spans (upd_span i f l)) = length (ml_marked_spans l)"
  "ml_marked_spans (upd_span i f l) =
     (ml_marked_spans l)[i := (ml_marked_spans l ! i)\<lparr>ms_span := f (slot_span l i)\<rparr>]"
  by (simp_all add: upd_span_def upd_slot_def)

lemma wf_layout_slot: "wf_layout sz l \<Longrightarrow> i < max_spans (mmap_config sz) \<Longrightarrow> wf_raw_span sz (slot_span l i)"
  by (simp add: wf_layout_def list_all_length)

lemma wf_upd_header [wf_intros]: "wf_layout sz l \<Longrightarrow> wf_layout sz (upd_header f l)"
  by (simp add: wf_layout_def layout_simps)

lemma wf_upd_slot [wf_intros]:
  "wf_layout sz l \<Longrightarrow> (i < max_spans (mmap_config sz) \<Longrightarrow> wf_raw_span sz (ms_span (f (ml_marked_spans l ! i))))
     \<Longrightarrow> wf_layout sz (upd_slot i f l)"
  by (auto simp: wf_layout_def layout_simps intro!: list_all_update)

lemma wf_upd_span [wf_intros]:
  "wf_layout sz l \<Longrightarrow> (i < max_spans (mmap_config sz) \<Longrightarrow> wf_raw_span sz (f (slot_span l i)))
     \<Longrightarrow> wf_layout sz (upd_span i f l)"
  unfolding upd_span_def by (rule wf_upd_slot) simp_all

lemma wf_upd_attr [wf_intros]:
  "wf_raw_span sz r \<Longrightarrow> (j < max_attributes (mmap_config sz) \<Longrightarrow> wf_attribute (f (raw_attributes r ! j)))
     \<Longrightarrow> wf_raw_span sz (upd_attr j f r)"
  by (auto simp: wf_raw_span_def upd_attr_def intro!: list_all_update)

text \<open>A store whose payload has the right shape keeps the shape of the layout.\<close>

fun wf_store :: "mmap_size \<Rightarrow> store \<Rightarrow> bool" where
  "wf_store sz (Store_Span i r) = wf_raw_span sz r"
| "wf_store sz (Store_Attr_Key i j b) = (length b = attr_key_size)"
| "wf_store sz (Store_Attr_Value i j b) = (length b = attr_value_size)"
| "wf_store sz _ = True"

lemma wf_exec_store:
  assumes "wf_layout sz l" "wf_store sz s"
  shows "wf_layout sz (exec_store sz s l)"
proof -
  have r: "wf_raw_span sz (slot_span l i)" if "i < max_spans (mmap_config sz)" for i
    using assms(1) that by (rule wf_layout_slot)
  have a: "wf_attribute (raw_attributes (slot_span l i) ! j)"
    if "i < max_spans (mmap_config sz)" "j < max_attributes (mmap_config sz)" for i j
    using r[OF that(1)] that(2) by (simp add: wf_raw_span_def list_all_length)
  have z: "wf_raw_span sz (zero_raw_span sz)"
    by (rule clean_raw_span_wf) simp
  show ?thesis
  proof (cases s)
    case Store_Clear_Spans
    with assms z show ?thesis
      by (simp add: wf_layout_def zero_marked_span_def list_all_length)
  next
    case (Store_End_Time i w)
    have "wf_raw_span sz ((slot_span l i)\<lparr>raw_end_time := w\<rparr>)" if "i < max_spans (mmap_config sz)"
      using r[OF that] by (simp add: wf_raw_span_def)
    with Store_End_Time assms show ?thesis by (auto intro!: wf_intros)
  next
    case (Store_Attr_Count i w)
    have "wf_raw_span sz ((slot_span l i)\<lparr>raw_attr_count := w\<rparr>)" if "i < max_spans (mmap_config sz)"
      using r[OF that] by (simp add: wf_raw_span_def)
    with Store_Attr_Count assms show ?thesis by (auto intro!: wf_intros)
  next
    case (Store_Attr_Key i j b)
    with assms r a show ?thesis
      by (auto intro!: wf_intros simp: wf_attribute_def)
  next
    case (Store_Attr_Value i j b)
    with assms r a show ?thesis
      by (auto intro!: wf_intros simp: wf_attribute_def)
  qed (use assms r in \<open>auto intro!: wf_intros\<close>)
qed

lemma wf_exec_stores:
  "wf_layout sz l \<Longrightarrow> list_all (wf_store sz) ss \<Longrightarrow> wf_layout sz (exec_stores sz ss l)"
  by (induction ss arbitrary: l) (auto intro: wf_exec_store)

end
