(* ===== verification/Span_Model.thy ===== *)
theory Span_Model
  imports Raw_Layout
begin

text \<open>
  \<^verbatim>\<open>span.h\<close>: the span the SDKs pass around, its conversion into the raw layout
  (\<^verbatim>\<open>to_raw_span\<close>) and back (the constructor from a \<^verbatim>\<open>RawSpan\<close>). The main result is the round
  trip: reading back what was written gives the span clipped to the layout's limits.
\<close>

section \<open>Spans\<close>

record trace_id =
  ti_high :: u64
  ti_low :: u64

type_synonym attributes_list = "(bytes \<times> bytes) list"

record span =
  sp_trace_id :: trace_id
  sp_span_id :: u64
  sp_parent_span_id :: u64
  sp_start_time :: u64
  sp_end_time :: u64
  sp_name :: bytes
  sp_attributes :: attributes_list

text \<open>The public constructor asserts that the span id is not zero.\<close>

definition make_span ::
    "trace_id \<Rightarrow> u64 \<Rightarrow> u64 \<Rightarrow> u64 \<Rightarrow> u64 \<Rightarrow> bytes \<Rightarrow> attributes_list \<Rightarrow> span res" where
  "make_span trace_id span_id parent_span_id start_time end_time name attributes =
     (if span_id = 0 then Inl (Assert_Failed ''span_id != 0'')
      else Inr \<lparr>sp_trace_id = trace_id, sp_span_id = span_id,
                sp_parent_span_id = parent_span_id, sp_start_time = start_time,
                sp_end_time = end_time, sp_name = name, sp_attributes = attributes\<rparr>)"

section \<open>Reading a raw span\<close>

text \<open>
  The loop over \<open>i < attr_count\<close>: \<open>n\<close> counts the remaining iterations, the list holds the
  remaining elements of the array, \<open>acc\<close> the attributes copied so far. An attribute with an
  empty value is skipped; its key is read only when the value is not empty.
\<close>

fun read_attributes :: "nat \<Rightarrow> raw_attribute list \<Rightarrow> attributes_list \<Rightarrow> attributes_list res" where
  "read_attributes 0 raws acc = Inr acc"
| "read_attributes (Suc n) [] acc = Inl Out_Of_Bounds"
| "read_attributes (Suc n) (a # raws) acc =
     res_bind (c_str (attr_value a)) (\<lambda>attr_value.
       if attr_value = [] then read_attributes n raws acc
       else res_bind (c_str (attr_key a)) (\<lambda>attr_key.
         read_attributes n raws (acc @ [(attr_key, attr_value)])))"

definition span_of_raw :: "raw_span \<Rightarrow> span res" where
  "span_of_raw raw =
     res_bind (c_str (raw_name raw)) (\<lambda>name.
       res_bind (read_attributes (unat (raw_attr_count raw)) (raw_attributes raw) []) (\<lambda>attributes.
         Inr \<lparr>sp_trace_id = \<lparr>ti_high = fst (raw_trace_id raw), ti_low = snd (raw_trace_id raw)\<rparr>,
              sp_span_id = raw_span_id raw,
              sp_parent_span_id = raw_parent_span_id raw,
              sp_start_time = raw_start_time raw,
              sp_end_time = raw_end_time raw,
              sp_name = name,
              sp_attributes = attributes\<rparr>))"

section \<open>Writing a raw span\<close>

definition set_raw_attribute :: "bytes \<Rightarrow> bytes \<Rightarrow> raw_attribute \<Rightarrow> raw_attribute" where
  "set_raw_attribute key value a =
     (let (k, v) = copy_string2 attr_key_size key (attr_key a) attr_value_size value (attr_value a)
      in a\<lparr>attr_key := k, attr_value := v\<rparr>)"

fun write_attributes :: "mmap_size \<Rightarrow> attributes_list \<Rightarrow> raw_span \<Rightarrow> raw_span" where
  "write_attributes sz [] raw = raw"
| "write_attributes sz ((key, value) # attrs) raw =
     (if max_attributes (mmap_config sz) \<le> unat (raw_attr_count raw) then raw
      else
        let raw' = upd_attr (unat (raw_attr_count raw)) (set_raw_attribute key value) raw
        in write_attributes sz attrs (raw'\<lparr>raw_attr_count := raw_attr_count raw + 1\<rparr>))"

definition to_raw_span :: "mmap_size \<Rightarrow> span \<Rightarrow> raw_span" where
  "to_raw_span sz s =
     (let raw = (zero_raw_span sz)
            \<lparr>raw_trace_id := (ti_high (sp_trace_id s), ti_low (sp_trace_id s)),
             raw_span_id := sp_span_id s,
             raw_parent_span_id := sp_parent_span_id s,
             raw_start_time := sp_start_time s,
             raw_end_time := sp_end_time s\<rparr>;
          raw = raw\<lparr>raw_name := copy_string span_name_size (sp_name s) (raw_name raw)\<rparr>;
          raw = raw\<lparr>raw_attr_count := 0\<rparr>
      in write_attributes sz (sp_attributes s) raw)"

section \<open>What a written span holds\<close>

text \<open>The attribute a pair of strings becomes in zeroed (or any) buffers.\<close>

definition raw_attribute_of :: "bytes \<times> bytes \<Rightarrow> raw_attribute" where
  "raw_attribute_of kv = set_raw_attribute (fst kv) (snd kv) zero_attribute"

lemma set_raw_attribute_eq:
  "set_raw_attribute k v a =
     a\<lparr>attr_key := copy_string attr_key_size k (attr_key a),
       attr_value := copy_string attr_value_size v (attr_value a)\<rparr>"
  by (simp add: set_raw_attribute_def copy_string2_eq)

lemma set_raw_attribute_of:
  "wf_attribute a \<Longrightarrow> set_raw_attribute k v a = raw_attribute_of (k, v)"
  using key_field.put_overwrites[of "attr_key a" "replicate attr_key_size 0" k]
    value_field.put_overwrites[of "attr_value a" "replicate attr_value_size 0" v]
  by (simp add: raw_attribute_of_def set_raw_attribute_eq wf_attribute_def zero_attribute_def)

lemma clean_raw_attribute_of [simp]: "clean_attribute (raw_attribute_of kv)"
  by (simp add: raw_attribute_of_def set_raw_attribute_eq clean_attribute_def wf_attribute_def
      zero_attribute_def key_field.put_terminated value_field.put_terminated)

lemma wf_raw_attribute_of [simp]: "wf_attribute (raw_attribute_of kv)"
  using clean_raw_attribute_of[of kv] by (simp add: clean_attribute_def)

lemma c_str_raw_attribute_of:
  "c_str (attr_key (raw_attribute_of (k, v))) =
     Inr (takeWhile (\<lambda>c. c \<noteq> 0) (utf8_trunc attr_key_size k))"
  "c_str (attr_value (raw_attribute_of (k, v))) =
     Inr (takeWhile (\<lambda>c. c \<noteq> 0) (utf8_trunc attr_value_size v))"
  by (simp_all add: raw_attribute_of_def set_raw_attribute_eq zero_attribute_def
      key_field.put_read value_field.put_read)

text \<open>The array after writing a list of attributes into slots \<open>c\<close>, \<open>c + 1\<close>, ...\<close>

lemma write_attributes_eq:
  assumes "length (raw_attributes raw) = max_attributes (mmap_config sz)"
    and "list_all wf_attribute (raw_attributes raw)"
    and "unat (raw_attr_count raw) = c" "c \<le> max_attributes (mmap_config sz)"
    and "n = min (length attrs) (max_attributes (mmap_config sz) - c)"
  shows "write_attributes sz attrs raw =
    raw\<lparr>raw_attributes := take c (raw_attributes raw) @ map raw_attribute_of (take n attrs)
                           @ drop (c + n) (raw_attributes raw),
        raw_attr_count := of_nat (c + n)\<rparr>"
  using assms
proof (induction attrs arbitrary: raw c n)
  case Nil
  then have "raw_attr_count raw = of_nat c" by auto
  with Nil show ?case by simp
next
  case (Cons kv attrs)
  obtain k v where kv: "kv = (k, v)" by (cases kv)
  let ?m = "max_attributes (mmap_config sz)"
  have cw: "raw_attr_count raw = of_nat c" using Cons.prems(3) by auto
  show ?case
  proof (cases "?m \<le> c")
    case True
    with Cons.prems kv show ?thesis by (simp add: cw)
  next
    case False
    then have lt: "c < length (raw_attributes raw)" using Cons.prems(1) by simp
    define raw' where "raw' = (upd_attr c (set_raw_attribute k v) raw)
        \<lparr>raw_attr_count := raw_attr_count raw + 1\<rparr>"
    have attrs': "raw_attributes raw' = (raw_attributes raw)[c := raw_attribute_of (k, v)]"
      using Cons.prems(2) lt
      by (simp add: raw'_def upd_attr_def set_raw_attribute_of list_all_length)
    have c': "unat (raw_attr_count raw') = c + 1"
      using Cons.prems(3) False max_attributes_bounds(2)[of sz]
      by (simp add: raw'_def upd_attr_def unat_plus1_64)
    have "write_attributes sz (kv # attrs) raw = write_attributes sz attrs raw'"
      using False Cons.prems(3) by (simp add: kv raw'_def Let_def)
    also have "\<dots> = raw'\<lparr>raw_attributes := take (c + 1) (raw_attributes raw')
          @ map raw_attribute_of (take (n - 1) attrs) @ drop (c + 1 + (n - 1)) (raw_attributes raw'),
        raw_attr_count := of_nat (c + 1 + (n - 1))\<rparr>"
      using Cons.prems False c' attrs'
      by (intro Cons.IH) (auto simp: intro!: list_all_update)
    also have "\<dots> = raw\<lparr>raw_attributes := take c (raw_attributes raw)
          @ map raw_attribute_of (take n (kv # attrs)) @ drop (c + n) (raw_attributes raw),
        raw_attr_count := of_nat (c + n)\<rparr>"
    proof -
      have n: "0 < n" using Cons.prems(5) False by simp
      then have t: "take n (kv # attrs) = kv # take (n - 1) attrs"
        by (simp add: take_Cons')
      have "take (c + 1) (raw_attributes raw') = take c (raw_attributes raw) @ [raw_attribute_of kv]"
        using lt by (simp add: attrs' kv take_Suc_conv_app_nth take_update_swap list_update_append)
      moreover have "drop (c + 1 + (n - 1)) (raw_attributes raw') = drop (c + n) (raw_attributes raw)"
        using n by (simp add: attrs' drop_update_cancel)
      ultimately show ?thesis
        using n by (simp add: t raw'_def upd_attr_def)
    qed
    finally show ?thesis .
  qed
qed

lemma to_raw_span_eq:
  fixes sz :: mmap_size and s :: span
  defines "n \<equiv> min (length (sp_attributes s)) (max_attributes (mmap_config sz))"
  shows "to_raw_span sz s =
    \<lparr>raw_trace_id = (ti_high (sp_trace_id s), ti_low (sp_trace_id s)),
     raw_span_id = sp_span_id s, raw_parent_span_id = sp_parent_span_id s,
     raw_start_time = sp_start_time s, raw_end_time = sp_end_time s,
     raw_name = copy_string span_name_size (sp_name s) (replicate span_name_size 0),
     raw_attr_count = of_nat n,
     raw_attributes = map raw_attribute_of (take n (sp_attributes s))
       @ replicate (max_attributes (mmap_config sz) - n) zero_attribute\<rparr>"
proof -
  have wz: "wf_attribute zero_attribute"
    using clean_zero_attribute by (simp add: clean_attribute_def)
  show ?thesis
    unfolding to_raw_span_def Let_def
    by (subst write_attributes_eq[where c = 0 and n = n])
      (simp_all add: zero_raw_span_def n_def list_all_length wz)
qed

lemma to_raw_span_id [simp]: "raw_span_id (to_raw_span sz s) = sp_span_id s"
  by (simp add: to_raw_span_eq)

lemma clean_to_raw_span [simp]: "clean_raw_span sz (to_raw_span sz s)"
proof -
  let ?m = "max_attributes (mmap_config sz)"
  let ?n = "min (length (sp_attributes s)) ?m"
  have wz: "wf_attribute zero_attribute"
    using clean_zero_attribute by (simp add: clean_attribute_def)
  have all: "list_all wf_attribute (map raw_attribute_of kvs @ replicate k zero_attribute)"
    "list_all clean_attribute (map raw_attribute_of kvs @ replicate k zero_attribute)" for kvs k
    by (auto simp: list_all_iff wz)
  have n: "unat (of_nat ?n :: u64) \<le> ?m"
    using max_attributes_bounds(2)[of sz] by simp
  show ?thesis
    using all n
    by (simp add: to_raw_span_eq clean_raw_span_def wf_raw_span_def name_field.put_terminated
        name_field.put_length)
qed

lemma wf_to_raw_span [simp]: "wf_raw_span sz (to_raw_span sz s)"
  by (rule clean_raw_span_wf) simp

section \<open>Round trip\<close>

text \<open>What the layout keeps of a text, of an attribute list and of a span.\<close>

definition kept_text :: "nat \<Rightarrow> bytes \<Rightarrow> bytes" where
  "kept_text N s = takeWhile (\<lambda>c. c \<noteq> 0) (utf8_trunc N s)"

definition clip_attributes :: "mmap_size \<Rightarrow> attributes_list \<Rightarrow> attributes_list" where
  "clip_attributes sz attrs =
     filter (\<lambda>kv. snd kv \<noteq> [])
       (map (\<lambda>(k, v). (kept_text attr_key_size k, kept_text attr_value_size v))
         (take (max_attributes (mmap_config sz)) attrs))"

definition clip_span :: "mmap_size \<Rightarrow> span \<Rightarrow> span" where
  "clip_span sz s =
     s\<lparr>sp_name := kept_text span_name_size (sp_name s),
       sp_attributes := clip_attributes sz (sp_attributes s)\<rparr>"

lemma read_attributes_written:
  "read_attributes (length kvs) (map raw_attribute_of kvs @ rest) acc =
     Inr (acc @ filter (\<lambda>kv. snd kv \<noteq> [])
       (map (\<lambda>(k, v). (kept_text attr_key_size k, kept_text attr_value_size v)) kvs))"
proof (induction kvs arbitrary: acc)
  case (Cons kv kvs)
  obtain k v where "kv = (k, v)" by (cases kv)
  with Cons.IH show ?case
    by (simp add: c_str_raw_attribute_of kept_text_def)
qed simp

lemma read_attributes_total:
  assumes "list_all clean_attribute raws" "n \<le> length raws"
  shows "\<exists>attrs. read_attributes n raws acc = Inr attrs"
  using assms
proof (induction raws arbitrary: n acc)
  case (Cons a raws)
  then show ?case
    by (cases n) (auto simp: clean_attribute_def c_str_def)
qed simp

text \<open>Reading a clean raw span cannot fault.\<close>

lemma span_of_raw_total:
  assumes "clean_raw_span sz r"
  shows "\<exists>s. span_of_raw r = Inr s \<and> sp_span_id s = raw_span_id r"
proof -
  have "unat (raw_attr_count r) \<le> length (raw_attributes r)" "list_all clean_attribute (raw_attributes r)"
    using assms by (simp_all add: clean_raw_span_def wf_raw_span_def)
  then obtain attrs where
    "read_attributes (unat (raw_attr_count r)) (raw_attributes r) [] = Inr attrs"
    using read_attributes_total by blast
  with assms show ?thesis
    by (simp add: span_of_raw_def clean_raw_span_def c_str_def)
qed

lemma span_round_trip: "span_of_raw (to_raw_span sz s) = Inr (clip_span sz s)"
proof -
  let ?m = "max_attributes (mmap_config sz)"
  let ?n = "min (length (sp_attributes s)) ?m"
  have t: "take ?n (sp_attributes s) = take ?m (sp_attributes s)"
    by (simp add: min_def)
  have n: "unat (of_nat ?n :: u64) = length (take ?m (sp_attributes s))"
    using max_attributes_bounds(2)[of sz] by (simp add: min_def)
  have r: "read_attributes (unat (of_nat ?n :: u64))
      (map raw_attribute_of (take ?m (sp_attributes s)) @ rest) []
    = Inr (clip_attributes sz (sp_attributes s))" for rest
    unfolding n read_attributes_written by (simp add: clip_attributes_def)
  show ?thesis
    unfolding span_of_raw_def to_raw_span_eq t
    by (simp add: r name_field.put_read clip_span_def kept_text_def)
qed

lemma kept_text_fits: "length s < N \<Longrightarrow> 0 \<notin> set s \<Longrightarrow> kept_text N s = s"
  by (simp add: kept_text_def utf8_trunc_short takeWhile_eq_all_conv) auto

text \<open>Spans that lose nothing: every text fits its field and no attribute is dropped.\<close>

definition span_fits :: "mmap_size \<Rightarrow> span \<Rightarrow> bool" where
  "span_fits sz s \<longleftrightarrow> length (sp_name s) < span_name_size \<and> 0 \<notin> set (sp_name s) \<and>
     length (sp_attributes s) \<le> max_attributes (mmap_config sz) \<and>
     list_all (\<lambda>(k, v). length k < attr_key_size \<and> 0 \<notin> set k \<and>
       length v < attr_value_size \<and> 0 \<notin> set v \<and> v \<noteq> []) (sp_attributes s)"

lemma clip_span_fits:
  assumes "span_fits sz s"
  shows "clip_span sz s = s"
proof -
  have f: "length (sp_attributes s) \<le> max_attributes (mmap_config sz)"
    "list_all (\<lambda>(k, v). length k < attr_key_size \<and> 0 \<notin> set k \<and>
       length v < attr_value_size \<and> 0 \<notin> set v \<and> v \<noteq> []) (sp_attributes s)"
    using assms by (simp_all add: span_fits_def)
  have "filter (\<lambda>kv. snd kv \<noteq> []) (map (\<lambda>(k, v). (kept_text attr_key_size k, kept_text attr_value_size v)) kvs)
      = kvs"
    if "list_all (\<lambda>(k, v). length k < attr_key_size \<and> 0 \<notin> set k \<and>
       length v < attr_value_size \<and> 0 \<notin> set v \<and> v \<noteq> []) kvs" for kvs
    using that by (induction kvs) (auto simp: kept_text_fits)
  with f have "clip_attributes sz (sp_attributes s) = sp_attributes s"
    by (simp add: clip_attributes_def)
  with assms show ?thesis by (simp add: clip_span_def span_fits_def kept_text_fits)
qed

end
