(* ===== verification/Raw_Span_Data.thy ===== *)
theory Raw_Span_Data
  imports Span_Model
begin

text \<open>
  \<^verbatim>\<open>detail/raw_span_data.h\<close>: the array of marked spans in the mapping, with swap-and-remove
  and the mark counter. The template argument \<^verbatim>\<open>Size\<close> is the first argument of each operation.
  An operation checks its assertions, then runs its list of stores; the lists are named,
  because the crash analysis is about their prefixes.
\<close>

record raw_span_data =
  rd_layout :: memory_layout
  rd_mark_counter :: u64

section \<open>Operations\<close>

text \<open>The constructor asserts that the mapping it takes is initialized (\<open>None\<close>: it is not).\<close>

definition rsd_new :: "memory_layout option \<Rightarrow> raw_span_data res" where
  "rsd_new mapping =
     (case mapping of
        None \<Rightarrow> Inl (Assert_Failed ''layout_.is_initialized()'')
      | Some l \<Rightarrow> Inr \<lparr>rd_layout = l, rd_mark_counter = 0\<rparr>)"

definition rsd_count :: "raw_span_data \<Rightarrow> u64" where
  "rsd_count d = active_count (rd_layout d)"

definition rsd_max_count :: "mmap_size \<Rightarrow> nat" where
  "rsd_max_count sz = max_spans (mmap_config sz)"

definition rsd_size :: "mmap_size \<Rightarrow> raw_span_data \<Rightarrow> u64 res" where
  "rsd_size sz d =
     (if h_mmap_size (ml_header (rd_layout d)) = mmap_size_code sz then Inr (mmap_size_code sz)
      else Inl (Assert_Failed ''layout_->header.mmap_size == Size''))"

definition run_on :: "mmap_size \<Rightarrow> store list \<Rightarrow> raw_span_data \<Rightarrow> raw_span_data" where
  "run_on sz ss d = d\<lparr>rd_layout := exec_stores sz ss (rd_layout d)\<rparr>"

definition add_stores :: "mmap_size \<Rightarrow> span \<Rightarrow> mark_t \<Rightarrow> memory_layout \<Rightarrow> store list" where
  "add_stores sz s mark l =
     (let i = unat (active_count l)
      in [Store_Mark i 0,
          Store_Span i (to_raw_span sz s),
          Store_Mark i mark,
          Store_Count (active_count l + 1)])"

definition rsd_add :: "mmap_size \<Rightarrow> span \<Rightarrow> raw_span_data \<Rightarrow> (index_t \<times> raw_span_data) res" where
  "rsd_add sz s d =
     (let raw_index = rsd_count d; l = rd_layout d
      in if \<not> unat raw_index < rsd_max_count sz then
           Inl (Assert_Failed ''raw_index < max_count()'')
         else if slot_mark l (unat raw_index) \<noteq> 0 then
           Inl (Assert_Failed ''layout_->marked_spans[raw_index].mark == 0'')
         else
           let mark = rd_mark_counter d + 1
           in Inr (raw_index, run_on sz (add_stores sz s mark l) (d\<lparr>rd_mark_counter := mark\<rparr>)))"

text \<open>
  The scan for a key: \<open>n\<close> iterations remain, \<open>raws\<close> are the attributes from index \<open>i\<close> on.
\<close>

fun find_attribute :: "bytes \<Rightarrow> nat \<Rightarrow> raw_attribute list \<Rightarrow> nat \<Rightarrow> nat option res" where
  "find_attribute key 0 raws i = Inr None"
| "find_attribute key (Suc n) [] i = Inl Out_Of_Bounds"
| "find_attribute key (Suc n) (a # raws) i =
     (if key_equals attr_key_size key (attr_key a) then Inr (Some i)
      else find_attribute key n raws (Suc i))"

definition update_attribute_stores :: "nat \<Rightarrow> nat \<Rightarrow> bytes \<Rightarrow> raw_attribute \<Rightarrow> store list" where
  "update_attribute_stores i j value a =
     (let zeroed = copy_zeroed attr_value_size (attr_value a)
      in [Store_Attr_Value i j zeroed,
          Store_Attr_Value i j (copy_filled attr_value_size value zeroed)])"

definition append_attribute_stores ::
    "nat \<Rightarrow> nat \<Rightarrow> bytes \<Rightarrow> bytes \<Rightarrow> raw_attribute \<Rightarrow> u64 \<Rightarrow> store list" where
  "append_attribute_stores i j key value a new_count =
     (let zeroed_key = copy_zeroed attr_key_size (attr_key a);
          zeroed_value = copy_zeroed attr_value_size (attr_value a)
      in [Store_Attr_Key i j zeroed_key,
          Store_Attr_Value i j zeroed_value,
          Store_Attr_Key i j (copy_filled attr_key_size key zeroed_key),
          Store_Attr_Value i j (copy_filled attr_value_size value zeroed_value),
          Store_Attr_Count i new_count])"

text \<open>The returned attribute index, and the stores made in slot \<open>i\<close>.\<close>

definition set_attribute_stores ::
    "mmap_size \<Rightarrow> nat \<Rightarrow> bytes \<Rightarrow> bytes \<Rightarrow> raw_span \<Rightarrow> (index_t \<times> store list) res" where
  "set_attribute_stores sz i key value raw =
     res_bind (find_attribute key (unat (raw_attr_count raw)) (raw_attributes raw) 0) (\<lambda>found.
       case found of
         Some j \<Rightarrow>
           Inr (of_nat j, update_attribute_stores i j value (raw_attributes raw ! j))
       | None \<Rightarrow>
           if unat (raw_attr_count raw) < max_attributes (mmap_config sz) then
             let j = unat (raw_attr_count raw)
             in Inr (raw_attr_count raw,
                  append_attribute_stores i j key value (raw_attributes raw ! j)
                    (raw_attr_count raw + 1))
           else Inr (of_nat (max_attributes (mmap_config sz)), []))"

definition rsd_set_attribute_on_span ::
    "mmap_size \<Rightarrow> index_t \<Rightarrow> bytes \<Rightarrow> bytes \<Rightarrow> raw_span_data \<Rightarrow> (index_t \<times> raw_span_data) res" where
  "rsd_set_attribute_on_span sz raw_index key value d =
     (if \<not> unat raw_index < rsd_max_count sz then Inl Out_Of_Bounds
      else res_map (\<lambda>(attr_index, ss). (attr_index, run_on sz ss d))
        (set_attribute_stores sz (unat raw_index) key value
          (slot_span (rd_layout d) (unat raw_index))))"

definition rsd_set_end_time :: "mmap_size \<Rightarrow> index_t \<Rightarrow> u64 \<Rightarrow> raw_span_data \<Rightarrow> raw_span_data res" where
  "rsd_set_end_time sz raw_index end_time d =
     (if \<not> raw_index < rsd_count d then Inl (Assert_Failed ''raw_index < count()'')
      else if \<not> unat raw_index < rsd_max_count sz then Inl Out_Of_Bounds
      else if \<not> 0 < slot_mark (rd_layout d) (unat raw_index) then
        Inl (Assert_Failed ''layout_->marked_spans[raw_index].mark > 0'')
      else Inr (run_on sz [Store_End_Time (unat raw_index) end_time] d))"

definition rsd_get_mark :: "mmap_size \<Rightarrow> index_t \<Rightarrow> raw_span_data \<Rightarrow> mark_t res" where
  "rsd_get_mark sz raw_index d =
     (if \<not> unat raw_index < rsd_max_count sz then Inl Out_Of_Bounds
      else Inr (slot_mark (rd_layout d) (unat raw_index)))"

definition rsd_get_raw_span :: "mmap_size \<Rightarrow> index_t \<Rightarrow> raw_span_data \<Rightarrow> raw_span res" where
  "rsd_get_raw_span sz raw_index d =
     (if \<not> unat raw_index < rsd_max_count sz then Inl Out_Of_Bounds
      else if \<not> 0 < slot_mark (rd_layout d) (unat raw_index) then
        Inl (Assert_Failed ''layout_->marked_spans[raw_index].mark > 0'')
      else Inr (slot_span (rd_layout d) (unat raw_index)))"

definition rsd_get :: "mmap_size \<Rightarrow> index_t \<Rightarrow> raw_span_data \<Rightarrow> span res" where
  "rsd_get sz raw_index d =
     (if \<not> unat raw_index < rsd_max_count sz then Inl Out_Of_Bounds
      else if \<not> 0 < slot_mark (rd_layout d) (unat raw_index) then
        Inl (Assert_Failed ''layout_->marked_spans[raw_index].mark > 0'')
      else span_of_raw (slot_span (rd_layout d) (unat raw_index)))"

definition remove_stores :: "nat \<Rightarrow> memory_layout \<Rightarrow> store list" where
  "remove_stores i l =
     (let last_index = unat (active_count l - 1)
      in if i = last_index then
           [Store_Mark i 0,
            Store_Count (active_count l - 1)]
         else
           let last_mark = slot_mark l last_index
           in [Store_Mark i 0,
               Store_Span i (slot_span l last_index),
               Store_Mark i last_mark,
               Store_Mark last_index 0,
               Store_Count (active_count l - 1)])"

definition rsd_remove :: "mmap_size \<Rightarrow> index_t \<Rightarrow> raw_span_data \<Rightarrow> (u64 \<times> raw_span_data) res" where
  "rsd_remove sz raw_index d =
     (let l = rd_layout d; i = unat raw_index; last_index = active_count l - 1
      in if \<not> i < rsd_max_count sz then Inl (Assert_Failed ''raw_index < max_count()'')
         else if \<not> 0 < slot_mark l i then
           Inl (Assert_Failed ''layout_->marked_spans[raw_index].mark > 0'')
         else if \<not> raw_index < active_count l then
           Inl (Assert_Failed ''raw_index < layout_->header.active_span_count'')
         else if \<not> unat last_index < rsd_max_count sz then Inl Out_Of_Bounds
         else if \<not> 0 < slot_mark l (unat last_index) then
           Inl (Assert_Failed ''layout_->marked_spans[last_index].mark > 0'')
         else Inr (if raw_index = last_index then 0 else raw_span_id (slot_span l (unat last_index)),
                   run_on sz (remove_stores i l) d))"

definition remove_all_stores :: "store list" where
  "remove_all_stores = [Store_Count 0, Store_Clear_Spans]"

definition rsd_remove_all :: "mmap_size \<Rightarrow> raw_span_data \<Rightarrow> raw_span_data" where
  "rsd_remove_all sz d = run_on sz remove_all_stores d"

section \<open>Invariant\<close>

text \<open>
  A slot is live when it is marked with a mark the counter has issued and its span is clean.
\<close>

definition live_slot :: "mmap_size \<Rightarrow> mark_t \<Rightarrow> marked_span \<Rightarrow> bool" where
  "live_slot sz counter m \<longleftrightarrow>
     0 < ms_mark m \<and> ms_mark m \<le> counter \<and> clean_raw_span sz (ms_span m)"

definition layout_inv :: "mmap_size \<Rightarrow> mark_t \<Rightarrow> memory_layout \<Rightarrow> bool" where
  "layout_inv sz counter l \<longleftrightarrow>
     wf_layout sz l \<and> h_mmap_size (ml_header l) = mmap_size_code sz \<and>
     unat (active_count l) \<le> max_spans (mmap_config sz) \<and>
     list_all (live_slot sz counter) (active l) \<and>
     distinct (map ms_mark (active l)) \<and>
     list_all (\<lambda>m. ms_mark m = 0) (drop (unat (active_count l)) (ml_marked_spans l))"

definition rsd_inv :: "mmap_size \<Rightarrow> raw_span_data \<Rightarrow> bool" where
  "rsd_inv sz d \<longleftrightarrow> layout_inv sz (rd_mark_counter d) (rd_layout d)"

definition rsd_slots :: "raw_span_data \<Rightarrow> marked_span list" where
  "rsd_slots d = active (rd_layout d)"

end
