(* ===== verification/Raw_Span_Laws.thy ===== *)
theory Raw_Span_Laws
  imports Raw_Span_Data
begin

text \<open>
  What each operation of \<^verbatim>\<open>RawSpanData\<close> does to the list of active slots, and that each keeps
  the invariant. The laws are collected in the locale \<open>marked_store\<close>, the contract the
  layers above rely on; \<open>RawSpanData<Size>\<close> provides it.
\<close>

section \<open>Active slots\<close>

lemma length_active: "layout_inv sz c l \<Longrightarrow> length (active l) = unat (active_count l)"
  by (simp add: layout_inv_def active_def wf_layout_def)

lemma nth_active: "i < unat (active_count l) \<Longrightarrow> active l ! i = ml_marked_spans l ! i"
  by (simp add: active_def)

lemma layout_inv_slot:
  assumes "layout_inv sz c l" "i < unat (active_count l)"
  shows "live_slot sz c (ml_marked_spans l ! i)"
proof -
  have "i < length (active l)" using assms by (simp add: length_active)
  moreover have "list_all (live_slot sz c) (active l)"
    using assms(1) by (simp add: layout_inv_def)
  ultimately have "live_slot sz c (active l ! i)"
    by (simp add: list_all_length)
  then show ?thesis
    using assms(2) by (simp add: nth_active)
qed

lemma layout_inv_unmarked:
  assumes "layout_inv sz c l" "unat (active_count l) \<le> i" "i < max_spans (mmap_config sz)"
  shows "slot_mark l i = 0"
proof -
  let ?n = "unat (active_count l)"
  have len: "length (ml_marked_spans l) = max_spans (mmap_config sz)"
    using assms(1) by (simp add: layout_inv_def wf_layout_def)
  then have "i - ?n < length (drop ?n (ml_marked_spans l))"
    using assms by simp
  moreover have "list_all (\<lambda>m. ms_mark m = 0) (drop ?n (ml_marked_spans l))"
    using assms(1) by (simp add: layout_inv_def)
  ultimately have "ms_mark (drop ?n (ml_marked_spans l) ! (i - ?n)) = 0"
    by (simp add: list_all_length del: length_drop)
  then show ?thesis
    using assms(2,3) len by simp
qed

lemma live_slot_mono: "live_slot sz c m \<Longrightarrow> c \<le> c' \<Longrightarrow> live_slot sz c' m"
  by (auto simp: live_slot_def)

text \<open>A layout described by its parts.\<close>

lemma layout_invI:
  assumes "wf_layout sz l" "h_mmap_size (ml_header l) = mmap_size_code sz"
    and "ml_marked_spans l = ls @ rest" "unat (active_count l) = length ls"
    and "list_all (live_slot sz c) ls" "distinct (map ms_mark ls)"
    and "list_all (\<lambda>m. ms_mark m = 0) rest"
  shows "layout_inv sz c l" "active l = ls"
proof -
  show a: "active l = ls"
    using assms(3,4) by (simp add: active_def)
  have "length ls \<le> max_spans (mmap_config sz)"
    using assms(1,3) by (simp add: wf_layout_def)
  then show "layout_inv sz c l"
    using assms a by (simp add: layout_inv_def)
qed

lemma layout_invE:
  assumes "layout_inv sz c l"
  obtains ls rest where
    "ml_marked_spans l = ls @ rest" "active l = ls" "unat (active_count l) = length ls"
    "list_all (live_slot sz c) ls" "distinct (map ms_mark ls)"
    "list_all (\<lambda>m. ms_mark m = 0) rest"
    "wf_layout sz l" "h_mmap_size (ml_header l) = mmap_size_code sz"
    "length ls + length rest = max_spans (mmap_config sz)"
proof (rule that)
  let ?n = "unat (active_count l)"
  show "ml_marked_spans l = active l @ drop ?n (ml_marked_spans l)"
    by (simp add: active_def)
  show "unat (active_count l) = length (active l)"
    using assms by (simp add: length_active)
  show "length (active l) + length (drop ?n (ml_marked_spans l)) = max_spans (mmap_config sz)"
    using assms by (simp add: length_active) (simp add: layout_inv_def wf_layout_def)
qed (use assms in \<open>simp_all add: layout_inv_def\<close>)

section \<open>Laws of the stores\<close>

lemma unat_word_less_64: "unat (a :: u64) < unat b \<longleftrightarrow> a < b"
  by (simp add: word_less_nat_alt)

lemma add_law:
  fixes s :: span
  assumes inv: "layout_inv sz c l"
    and room: "unat (active_count l) < max_spans (mmap_config sz)"
    and mark: "c < mark"
  defines "l' \<equiv> exec_stores sz (add_stores sz s mark l) l"
  shows "layout_inv sz mark l'"
    and "active l' = active l @ [\<lparr>ms_mark = mark, ms_span = to_raw_span sz s\<rparr>]"
    and "active_count l' = active_count l + 1"
proof -
  from inv obtain ls rest where l: "ml_marked_spans l = ls @ rest" "active l = ls"
    "unat (active_count l) = length ls" "list_all (live_slot sz c) ls"
    "distinct (map ms_mark ls)" "list_all (\<lambda>m. ms_mark m = 0) rest"
    "wf_layout sz l" "h_mmap_size (ml_header l) = mmap_size_code sz"
    "length ls + length rest = max_spans (mmap_config sz)"
    by (rule layout_invE)
  from room l(3,9) have "rest \<noteq> []" by auto
  then obtain m rest' where rest: "rest = m # rest'" by (cases rest) auto
  let ?new = "\<lparr>ms_mark = mark, ms_span = to_raw_span sz s\<rparr>"
  have ll': "l' = upd_header (\<lambda>h. h\<lparr>h_active_span_count := active_count l + 1\<rparr>)
      (l\<lparr>ml_marked_spans := ls @ ?new # rest'\<rparr>)"
    using l(1,3) rest by (simp add: l'_def add_stores_def Let_def upd_slot_def upd_span_def
        upd_header_def list_update_append nth_append)
  have spans: "ml_marked_spans l' = (ls @ [?new]) @ rest'"
    by (simp add: ll' layout_simps)
  show cnt: "active_count l' = active_count l + 1"
    by (simp add: ll' layout_simps)
  have n: "unat (active_count l') = length (ls @ [?new])"
    using room max_spans_bounds(2)[of sz] l(3) by (simp add: cnt unat_plus1_64)
  have wf: "wf_layout sz l'"
    unfolding l'_def by (rule wf_exec_stores) (simp_all add: l(7) add_stores_def Let_def)
  have "0 < mark" using mark by (metis le_less_trans word_zero_le)
  then have live: "list_all (live_slot sz mark) (ls @ [?new])"
    using l(4) mark by (auto simp: list_all_iff intro: live_slot_mono) (simp add: live_slot_def)
  have dist: "distinct (map ms_mark (ls @ [?new]))"
    using l(4,5) mark by (auto simp: list_all_iff live_slot_def)
  have rest0: "list_all (\<lambda>m. ms_mark m = 0) rest'"
    using l(6) rest by simp
  have size: "h_mmap_size (ml_header l') = mmap_size_code sz"
    using l(8) by (simp add: ll' layout_simps)
  show "layout_inv sz mark l'" "active l' = active l @ [?new]"
    using layout_invI[OF wf size spans n live dist rest0] l(2) by simp_all
qed

text \<open>The last span moves into the slot, and its own slot is unmarked.\<close>

lemma exec_remove_stores:
  assumes l: "ml_marked_spans l = us @ z # rest" and last: "unat (active_count l - 1) = length us"
    and i: "i \<le> length us"
  shows "exec_stores sz (remove_stores i l) l =
    upd_header (\<lambda>h. h\<lparr>h_active_span_count := active_count l - 1\<rparr>)
      (l\<lparr>ml_marked_spans := us[i := z] @ z\<lparr>ms_mark := 0\<rparr> # rest\<rparr>)"
proof (cases "i = length us")
  case True
  then show ?thesis
    using l last by (simp add: remove_stores_def Let_def upd_slot_def
        upd_span_def upd_header_def list_update_append nth_append list_update_beyond)
next
  case False
  then have "i < length us" using i by simp
  then show ?thesis
    using l last False by (simp add: remove_stores_def Let_def upd_slot_def
        upd_span_def upd_header_def list_update_append nth_append)
qed

lemma remove_law:
  assumes inv: "layout_inv sz c l" and i: "i < unat (active_count l)"
  defines "l' \<equiv> exec_stores sz (remove_stores i l) l"
  shows "layout_inv sz c l'"
    and "active l' = swap_remove i (active l)"
    and "active_count l' = active_count l - 1"
proof -
  from inv obtain ls rest where l: "ml_marked_spans l = ls @ rest" "active l = ls"
    "unat (active_count l) = length ls" "list_all (live_slot sz c) ls"
    "distinct (map ms_mark ls)" "list_all (\<lambda>m. ms_mark m = 0) rest"
    "wf_layout sz l" "h_mmap_size (ml_header l) = mmap_size_code sz"
    "length ls + length rest = max_spans (mmap_config sz)"
    by (rule layout_invE)
  from i l(3) have "ls \<noteq> []" by auto
  then obtain us z where ls: "ls = us @ [z]" by (cases ls rule: rev_cases) auto
  have nz: "active_count l \<noteq> 0" using i by auto
  have last: "unat (active_count l - 1) = length us"
    using nz l(3) ls by (simp add: unat_minus1_64)
  have iu: "i \<le> length us" using i l(3) ls by simp
  have sr: "swap_remove i ls = us[i := z]"
    using iu ls by (cases "i = length us") (simp_all add: swap_remove_snoc swap_remove_last list_update_beyond)
  let ?z0 = "z\<lparr>ms_mark := 0\<rparr>"
  have ll': "l' = upd_header (\<lambda>h. h\<lparr>h_active_span_count := active_count l - 1\<rparr>)
      (l\<lparr>ml_marked_spans := us[i := z] @ ?z0 # rest\<rparr>)"
    unfolding l'_def using l(1) ls last iu by (intro exec_remove_stores) simp_all
  have spans: "ml_marked_spans l' = swap_remove i ls @ ?z0 # rest"
    by (simp add: ll' layout_simps sr)
  show cnt: "active_count l' = active_count l - 1"
    by (simp add: ll' layout_simps)
  have n: "unat (active_count l') = length (swap_remove i ls)"
    using last ls by (simp add: cnt)
  have wfs: "list_all (wf_store sz) (remove_stores i l)"
    using wf_layout_slot[OF l(7), of "length us"] l(9) ls
    by (simp add: remove_stores_def Let_def last)
  have wf: "wf_layout sz l'"
    unfolding l'_def by (rule wf_exec_stores[OF l(7) wfs])
  have sub: "set (swap_remove i ls) \<subseteq> set ls"
    using i l(3) by (intro set_swap_remove_subset) simp
  then have live: "list_all (live_slot sz c) (swap_remove i ls)"
    using l(4) by (auto simp: list_all_iff)
  have dist: "distinct (map ms_mark (swap_remove i ls))"
    using i l(3,5) by (simp add: map_swap_remove distinct_swap_remove(1))
  have rest0: "list_all (\<lambda>m. ms_mark m = 0) (?z0 # rest)"
    using l(6) by simp
  have size: "h_mmap_size (ml_header l') = mmap_size_code sz"
    using l(8) by (simp add: ll' layout_simps)
  show "layout_inv sz c l'" "active l' = swap_remove i (active l)"
    using layout_invI[OF wf size spans n live dist rest0] l(2) by simp_all
qed

text \<open>Stores that only change the span of one active slot.\<close>

lemma modify_law:
  assumes inv: "layout_inv sz c l" and i: "i < unat (active_count l)"
    and clean: "clean_raw_span sz (f (slot_span l i))"
  shows "layout_inv sz c (upd_span i f l)"
    and "active (upd_span i f l) = (active l)[i := (active l ! i)\<lparr>ms_span := f (ms_span (active l ! i))\<rparr>]"
proof -
  from inv obtain ls rest where l: "ml_marked_spans l = ls @ rest" "active l = ls"
    "unat (active_count l) = length ls" "list_all (live_slot sz c) ls"
    "distinct (map ms_mark ls)" "list_all (\<lambda>m. ms_mark m = 0) rest"
    "wf_layout sz l" "h_mmap_size (ml_header l) = mmap_size_code sz"
    "length ls + length rest = max_spans (mmap_config sz)"
    by (rule layout_invE)
  let ?m = "(ls ! i)\<lparr>ms_span := f (ms_span (ls ! i))\<rparr>"
  have i': "i < length ls" using i l(3) by simp
  have spans: "ml_marked_spans (upd_span i f l) = ls[i := ?m] @ rest"
    using l(1) i' by (simp add: layout_simps list_update_append nth_append)
  have "live_slot sz c ?m"
    using l(1,4) i' clean by (simp add: live_slot_def list_all_length nth_append)
  then have live: "list_all (live_slot sz c) (ls[i := ?m])"
    using l(4) by (intro list_all_update)
  have "map ms_mark (ls[i := ?m]) = map ms_mark ls"
    by (simp add: map_update) (metis list_update_id map_update)
  then have dist: "distinct (map ms_mark (ls[i := ?m]))"
    using l(5) by simp
  have wf: "wf_layout sz (upd_span i f l)"
    using l(7) clean_raw_span_wf[OF clean] by (intro wf_intros)
  have size: "h_mmap_size (ml_header (upd_span i f l)) = mmap_size_code sz"
    using l(8) by (simp add: layout_simps)
  have n: "unat (active_count (upd_span i f l)) = length (ls[i := ?m])"
    using l(3) by (simp add: layout_simps)
  show "layout_inv sz c (upd_span i f l)"
    "active (upd_span i f l) = (active l)[i := (active l ! i)\<lparr>ms_span := f (ms_span (active l ! i))\<rparr>]"
    using layout_invI[OF wf size spans n live dist l(6)] l(2) by simp_all
qed

end
