(* ===== verification/Attribute_Laws.thy ===== *)
theory Attribute_Laws
  imports Raw_Span_Laws
begin

text \<open>
  \<^verbatim>\<open>RawSpanData::set_attribute_on_span\<close> on one raw span: the scan, the two kinds of write, and
  the refinement to an update of an association list (replace the first occurrence of the
  key, else append while there is room).
\<close>

section \<open>The attributes a raw span holds\<close>

definition text_of :: "bytes \<Rightarrow> bytes" where
  "text_of buf = takeWhile (\<lambda>c. c \<noteq> 0) buf"

definition attribute_text :: "raw_attribute \<Rightarrow> bytes \<times> bytes" where
  "attribute_text a = (text_of (attr_key a), text_of (attr_value a))"

definition stored_attributes :: "raw_span \<Rightarrow> attributes_list" where
  "stored_attributes r = map attribute_text (take (unat (raw_attr_count r)) (raw_attributes r))"

lemma c_str_text_of: "0 \<in> set buf \<Longrightarrow> c_str buf = Inr (text_of buf)"
  by (simp add: c_str_def text_of_def)

lemma text_of_c_str: "c_str buf = Inr s \<Longrightarrow> text_of buf = s"
  by (auto simp: c_str_def text_of_def split: if_splits)

lemma read_attributes_eq:
  assumes "list_all clean_attribute raws" "n \<le> length raws"
  shows "read_attributes n raws acc =
    Inr (acc @ filter (\<lambda>kv. snd kv \<noteq> []) (map attribute_text (take n raws)))"
  using assms
proof (induction raws arbitrary: n acc)
  case (Cons a raws)
  then show ?case
    by (cases n) (auto simp: clean_attribute_def c_str_text_of attribute_text_def)
qed simp

lemma span_of_raw_attributes:
  assumes "clean_raw_span sz r" "span_of_raw r = Inr s"
  shows "sp_attributes s = filter (\<lambda>kv. snd kv \<noteq> []) (stored_attributes r)"
    and "sp_span_id s = raw_span_id r" and "sp_end_time s = raw_end_time r"
proof -
  have c: "list_all clean_attribute (raw_attributes r)"
    "unat (raw_attr_count r) \<le> length (raw_attributes r)"
    using assms(1) by (simp_all add: clean_raw_span_def wf_raw_span_def)
  show "sp_attributes s = filter (\<lambda>kv. snd kv \<noteq> []) (stored_attributes r)"
    "sp_span_id s = raw_span_id r" "sp_end_time s = raw_end_time r"
    using assms(2) read_attributes_eq[OF c, of "[]"]
    by (auto simp: span_of_raw_def res_bind_Inr_iff stored_attributes_def)
qed

section \<open>The scan\<close>

lemma find_attribute_eq:
  "n \<le> length raws \<Longrightarrow>
     find_attribute key n raws i =
       Inr (map_option (\<lambda>j. i + j)
         (first_index (\<lambda>a. key_equals attr_key_size key (attr_key a)) (take n raws)))"
proof (induction key n raws i rule: find_attribute.induct)
  case (3 key n a raws i)
  then show ?case
    by (auto simp: option.map_comp comp_def intro!: option.map_cong)
qed auto

lemma find_attribute_unterminated:
  "length raws < n \<Longrightarrow> list_all (\<lambda>a. \<not> key_equals attr_key_size key (attr_key a)) raws \<Longrightarrow>
     find_attribute key n raws i = Inl Out_Of_Bounds"
  by (induction key n raws i rule: find_attribute.induct) auto

section \<open>The specification\<close>

fun update_first :: "'k \<Rightarrow> 'v \<Rightarrow> ('k \<times> 'v) list \<Rightarrow> ('k \<times> 'v) list option" where
  "update_first k v [] = None"
| "update_first k v ((k', v') # kvs) =
     (if k' = k then Some ((k', v) # kvs) else map_option (\<lambda>r. (k', v') # r) (update_first k v kvs))"

definition upsert :: "nat \<Rightarrow> 'k \<Rightarrow> 'v \<Rightarrow> ('k \<times> 'v) list \<Rightarrow> ('k \<times> 'v) list" where
  "upsert limit k v kvs =
     (case update_first k v kvs of
        Some kvs' \<Rightarrow> kvs'
      | None \<Rightarrow> if length kvs < limit then kvs @ [(k, v)] else kvs)"

lemma update_first_index:
  "update_first k v kvs =
     map_option (\<lambda>j. kvs[j := (k, v)]) (first_index (\<lambda>kv. fst kv = k) kvs)"
  by (induction k v kvs rule: update_first.induct) (auto simp: option.map_comp comp_def)

lemma map_of_update_first:
  "update_first k v kvs = Some kvs' \<Longrightarrow> map_of kvs' = (map_of kvs)(k \<mapsto> v)"
  by (induction k v kvs arbitrary: kvs' rule: update_first.induct) (auto split: if_splits)

lemma update_first_None: "update_first k v kvs = None \<longleftrightarrow> k \<notin> fst ` set kvs"
  by (induction k v kvs rule: update_first.induct) auto

lemma map_of_upsert:
  assumes "k \<in> fst ` set kvs \<or> length kvs < limit"
  shows "map_of (upsert limit k v kvs) = (map_of kvs)(k \<mapsto> v)"
proof (cases "update_first k v kvs")
  case None
  then have "k \<notin> fst ` set kvs" by (simp add: update_first_None)
  then have "map_of kvs k = None" by (simp add: map_of_eq_None_iff)
  with None \<open>k \<notin> fst ` set kvs\<close> assms show ?thesis
    by (auto simp: upsert_def map_add_def split: option.splits)
qed (simp add: upsert_def map_of_update_first)

section \<open>The write\<close>

text \<open>The raw span after the call, as a function.\<close>

definition with_attribute :: "mmap_size \<Rightarrow> bytes \<Rightarrow> bytes \<Rightarrow> raw_span \<Rightarrow> raw_span" where
  "with_attribute sz key value r =
     (let n = unat (raw_attr_count r)
      in case first_index (\<lambda>a. key_equals attr_key_size key (attr_key a))
               (take n (raw_attributes r)) of
           Some j \<Rightarrow>
             upd_attr j (\<lambda>a. a\<lparr>attr_value := copy_string attr_value_size value (attr_value a)\<rparr>) r
         | None \<Rightarrow>
             if n < max_attributes (mmap_config sz) then
               (upd_attr n (set_raw_attribute key value) r)\<lparr>raw_attr_count := raw_attr_count r + 1\<rparr>
             else r)"

lemma exec_update_attribute:
  assumes "i < length (ml_marked_spans l)" "j < length (raw_attributes (slot_span l i))"
  shows "exec_stores sz (update_attribute_stores i j value (raw_attributes (slot_span l i) ! j)) l =
    upd_span i (upd_attr j
      (\<lambda>a. a\<lparr>attr_value := copy_string attr_value_size value (attr_value a)\<rparr>)) l"
  using assms
  by (simp add: update_attribute_stores_def Let_def upd_span_def upd_slot_def upd_attr_def
      copy_string_stages)

lemma exec_append_attribute:
  assumes "i < length (ml_marked_spans l)" "j < length (raw_attributes (slot_span l i))"
  shows "exec_stores sz
      (append_attribute_stores i j key value (raw_attributes (slot_span l i) ! j) c) l =
    upd_span i (\<lambda>r. (upd_attr j (set_raw_attribute key value) r)\<lparr>raw_attr_count := c\<rparr>) l"
  using assms
  by (simp add: append_attribute_stores_def Let_def upd_span_def upd_slot_def upd_attr_def
      copy_string_stages set_raw_attribute_eq)

lemma exec_set_attribute:
  assumes clean: "clean_raw_span sz (slot_span l i)" and i: "i < length (ml_marked_spans l)"
  shows "\<exists>idx ss. set_attribute_stores sz i key value (slot_span l i) = Inr (idx, ss) \<and>
    exec_stores sz ss l = upd_span i (with_attribute sz key value) l"
proof -
  let ?r = "slot_span l i"
  let ?n = "unat (raw_attr_count ?r)"
  let ?find = "first_index (\<lambda>a. key_equals attr_key_size key (attr_key a)) (take ?n (raw_attributes ?r))"
  have n: "?n \<le> length (raw_attributes ?r)"
    "length (raw_attributes ?r) = max_attributes (mmap_config sz)"
    using clean by (simp_all add: clean_raw_span_def wf_raw_span_def)
  have up: "upd_span i f l = upd_span i g l" if "f ?r = g ?r" for f g
    using that by (simp add: upd_span_def upd_slot_def)
  show ?thesis
  proof (cases ?find)
    case (Some j)
    then have "j < length (raw_attributes ?r)"
      using first_index_Some[OF Some] by simp
    with Some n i show ?thesis
      by (auto simp: set_attribute_stores_def find_attribute_eq exec_update_attribute
          with_attribute_def intro!: up)
  next
    case None
    show ?thesis
    proof (cases "?n < max_attributes (mmap_config sz)")
      case True
      with None n i show ?thesis
        by (auto simp: set_attribute_stores_def find_attribute_eq Let_def exec_append_attribute
            with_attribute_def intro!: up)
    next
      case False
      have "upd_span i (with_attribute sz key value) l = l"
        using None False i by (simp add: upd_span_def upd_slot_def with_attribute_def Let_def)
      with None False n show ?thesis
        by (simp add: set_attribute_stores_def find_attribute_eq)
    qed
  qed
qed

lemma clean_with_attribute:
  assumes "clean_raw_span sz r"
  shows "clean_raw_span sz (with_attribute sz key value r)"
proof -
  have c: "list_all clean_attribute (raw_attributes r)"
    "unat (raw_attr_count r) \<le> max_attributes (mmap_config sz)"
    "length (raw_attributes r) = max_attributes (mmap_config sz)"
    "length (raw_name r) = span_name_size" "0 \<in> set (raw_name r)"
    using assms by (simp_all add: clean_raw_span_def wf_raw_span_def)
  have wf: "list_all wf_attribute raws" if "list_all clean_attribute raws" for raws
    using that by (simp add: list_all_iff clean_attribute_def)
  have at: "clean_attribute (raw_attributes r ! j)" if "j < length (raw_attributes r)" for j
    using c(1) that by (simp add: list_all_length)
  have val: "clean_attribute (a\<lparr>attr_value := copy_string attr_value_size value (attr_value a)\<rparr>)"
    if "clean_attribute a" for a
    using that by (simp add: clean_attribute_def wf_attribute_def value_field.put_terminated)
  have key: "clean_attribute (set_raw_attribute key value a)" if "clean_attribute a" for a
    using that by (simp add: set_raw_attribute_of clean_attribute_def[of a])
  have room: "unat (raw_attr_count r + 1) \<le> max_attributes (mmap_config sz)"
    if "unat (raw_attr_count r) < max_attributes (mmap_config sz)"
    using that max_attributes_bounds(2)[of sz] by (simp add: unat_plus1_64)
  show ?thesis
    unfolding with_attribute_def Let_def clean_raw_span_def wf_raw_span_def upd_attr_def
    using c room
    by (auto split: option.splits intro!: list_all_update wf val key at)
qed

lemma with_attribute_span_id [simp]: "raw_span_id (with_attribute sz key value r) = raw_span_id r"
  by (simp add: with_attribute_def Let_def upd_attr_def split: option.splits)

text \<open>Where the value of a key is, or would be appended.\<close>

definition attribute_slot :: "'k \<Rightarrow> ('k \<times> 'v) list \<Rightarrow> nat" where
  "attribute_slot k kvs =
     (case first_index (\<lambda>kv. fst kv = k) kvs of Some q \<Rightarrow> q | None \<Rightarrow> length kvs)"

section \<open>Refinement\<close>

lemma first_index_stored:
  assumes clean: "clean_raw_span sz r" and key: "0 \<notin> set key"
  shows "first_index (\<lambda>kv. fst kv = utf8_trunc attr_key_size key) (stored_attributes r) =
    first_index (\<lambda>a. key_equals attr_key_size key (attr_key a))
      (take (unat (raw_attr_count r)) (raw_attributes r))"
  unfolding stored_attributes_def first_index_map
proof (rule first_index_cong)
  fix a assume "a \<in> set (take (unat (raw_attr_count r)) (raw_attributes r))"
  then have "clean_attribute a"
    using clean by (auto simp: clean_raw_span_def list_all_iff dest: in_set_takeD)
  then show "(fst (attribute_text a) = utf8_trunc attr_key_size key) = key_equals attr_key_size key (attr_key a)"
    using key by (simp add: attribute_text_def clean_attribute_def wf_attribute_def
        key_field.matches_read[OF _ c_str_text_of])
qed

text \<open>What one attribute reads as after its value, or all of it, was written.\<close>

lemma attribute_text_value:
  "clean_attribute a \<Longrightarrow>
     attribute_text (a\<lparr>attr_value := copy_string attr_value_size value (attr_value a)\<rparr>) =
       (fst (attribute_text a), kept_text attr_value_size value)"
  using text_of_c_str[OF value_field.put_read, of "attr_value a" "value"]
  by (simp add: attribute_text_def clean_attribute_def wf_attribute_def kept_text_def)

lemma attribute_text_both:
  "clean_attribute a \<Longrightarrow> 0 \<notin> set key \<Longrightarrow>
     attribute_text (set_raw_attribute key value a) =
       (utf8_trunc attr_key_size key, kept_text attr_value_size value)"
  using text_of_c_str[OF c_str_raw_attribute_of(1), of key "value"]
    text_of_c_str[OF c_str_raw_attribute_of(2), of key "value"]
  by (simp add: clean_attribute_def set_raw_attribute_of attribute_text_def kept_text_def
      key_field.stored_nul_free)

lemma stored_with_attribute:
  assumes clean: "clean_raw_span sz r" and key: "0 \<notin> set key"
  shows "stored_attributes (with_attribute sz key value r) =
    upsert (max_attributes (mmap_config sz)) (utf8_trunc attr_key_size key)
      (kept_text attr_value_size value) (stored_attributes r)"
proof -
  let ?n = "unat (raw_attr_count r)" and ?m = "max_attributes (mmap_config sz)"
  let ?k = "utf8_trunc attr_key_size key" and ?v = "kept_text attr_value_size value"
  let ?raws = "take ?n (raw_attributes r)"
  have c: "list_all clean_attribute (raw_attributes r)" "?n \<le> ?m"
    "length (raw_attributes r) = ?m"
    using clean by (simp_all add: clean_raw_span_def wf_raw_span_def)
  have at: "clean_attribute (raw_attributes r ! j)" if "j < ?m" for j
    using c that by (simp add: list_all_length)
  have find: "first_index (\<lambda>kv. fst kv = ?k) (stored_attributes r) =
      first_index (\<lambda>a. key_equals attr_key_size key (attr_key a)) ?raws"
    using clean key by (rule first_index_stored)
  have len: "length (stored_attributes r) = ?n"
    using c by (simp add: stored_attributes_def)
  show ?thesis
  proof (cases "first_index (\<lambda>a. key_equals attr_key_size key (attr_key a)) ?raws")
    case (Some j)
    then have j: "j < ?n" using first_index_Some[OF Some] by simp
    have "fst (stored_attributes r ! j) = ?k"
      using first_index_Some[of "\<lambda>kv. fst kv = ?k" "stored_attributes r" j] find Some by simp
    moreover have "stored_attributes r ! j = attribute_text (raw_attributes r ! j)"
      using j c by (simp add: stored_attributes_def)
    ultimately show ?thesis
      using Some j c attribute_text_value[OF at]
      by (simp add: upsert_def update_first_index find with_attribute_def Let_def upd_attr_def)
        (simp add: stored_attributes_def take_update_swap map_update)
  next
    case None
    show ?thesis
    proof (cases "?n < ?m")
      case True
      have u: "unat (raw_attr_count r + 1) = Suc ?n"
        using True max_attributes_bounds(2)[of sz] by (simp add: unat_plus1_64)
      have "stored_attributes (with_attribute sz key value r) = stored_attributes r @ [(?k, ?v)]"
        using None True c attribute_text_both[OF at[OF True] key]
        by (simp add: with_attribute_def Let_def upd_attr_def stored_attributes_def u
            take_Suc_conv_app_nth take_update_swap list_update_append)
      then show ?thesis
        using None True by (simp add: upsert_def update_first_index find len)
    next
      case False
      then show ?thesis
        using None by (simp add: upsert_def update_first_index find len with_attribute_def Let_def)
    qed
  qed
qed

section \<open>What the call touches\<close>

lemma attribute_slot_stored:
  assumes clean: "clean_raw_span sz r" and key: "0 \<notin> set key"
  shows "attribute_slot (utf8_trunc attr_key_size key) (stored_attributes r) =
    (case first_index (\<lambda>a. key_equals attr_key_size key (attr_key a))
        (take (unat (raw_attr_count r)) (raw_attributes r)) of
       Some q \<Rightarrow> q | None \<Rightarrow> unat (raw_attr_count r))"
proof -
  have "length (stored_attributes r) = unat (raw_attr_count r)"
    using clean by (simp add: stored_attributes_def clean_raw_span_def wf_raw_span_def)
  then show ?thesis unfolding attribute_slot_def first_index_stored[OF assms] by (simp only:)
qed

lemma with_attribute_touches:
  assumes "clean_raw_span sz r" "0 \<notin> set key"
  shows "\<exists>a c. with_attribute sz key value r = r\<lparr>raw_attributes := (raw_attributes r)
      [attribute_slot (utf8_trunc attr_key_size key) (stored_attributes r) := a], raw_attr_count := c\<rparr>"
proof -
  let ?n = "unat (raw_attr_count r)"
  have same: "r\<lparr>raw_attributes := as\<rparr> = r\<lparr>raw_attributes := as, raw_attr_count := raw_attr_count r\<rparr>" for as
    by simp
  show ?thesis
  proof (cases "first_index (\<lambda>a. key_equals attr_key_size key (attr_key a)) (take ?n (raw_attributes r))")
    case (Some q)
    show ?thesis
      unfolding with_attribute_def Let_def upd_attr_def attribute_slot_stored[OF assms] Some option.case
      by (intro exI) (rule same)
  next
    case None
    have "r = r\<lparr>raw_attributes := (raw_attributes r)[?n := raw_attributes r ! ?n], raw_attr_count := raw_attr_count r\<rparr>"
      by simp
    then have "\<exists>a c. r = r\<lparr>raw_attributes := (raw_attributes r)[?n := a], raw_attr_count := c\<rparr>" by blast
    moreover have "\<exists>a c. (upd_attr ?n f r)\<lparr>raw_attr_count := c'\<rparr> =
        r\<lparr>raw_attributes := (raw_attributes r)[?n := a], raw_attr_count := c\<rparr>" for f c'
      by (auto simp: upd_attr_def)
    ultimately show ?thesis
      unfolding with_attribute_def Let_def attribute_slot_stored[OF assms] None option.case by simp
  qed
qed

lemma set_attribute_index:
  assumes clean: "clean_raw_span sz r" and key: "0 \<notin> set key"
    and ss: "set_attribute_stores sz i key value r = Inr (idx, ss)"
  shows "unat idx = attribute_slot (utf8_trunc attr_key_size key) (stored_attributes r)"
proof -
  have n: "unat (raw_attr_count r) \<le> length (raw_attributes r)"
    "length (raw_attributes r) = max_attributes (mmap_config sz)"
    using clean by (simp_all add: clean_raw_span_def wf_raw_span_def)
  have small: "unat (of_nat q :: index_t) = q" if "q \<le> max_attributes (mmap_config sz)" for q
    using that max_attributes_bounds(2)[of sz] by (simp only: unat_of_nat_64)
  show ?thesis
  proof (cases "first_index (\<lambda>a. key_equals attr_key_size key (attr_key a))
      (take (unat (raw_attr_count r)) (raw_attributes r))")
    case None
    then show ?thesis
      using ss n small[of "unat (raw_attr_count r)"]
      by (auto simp: attribute_slot_stored[OF clean key] set_attribute_stores_def find_attribute_eq
          Let_def split: if_splits)
  next
    case (Some q)
    then show ?thesis
      using ss n small[of q] first_index_Some[OF Some]
      by (auto simp: attribute_slot_stored[OF clean key] set_attribute_stores_def find_attribute_eq)
  qed
qed

end
