(* ===== verification/Marked_Store.thy ===== *)
theory Marked_Store
  imports Attribute_Laws
begin

text \<open>
  The contract of a store of marked spans: what \<^verbatim>\<open>SpanDataImpl\<close> and \<^verbatim>\<open>RawSpanData<Size>\<close>
  promise the layers above. Slots are a list, adding appends with a fresh larger mark,
  removing swaps with the last slot, the setters change one span and no mark. Its users
  care about age: the spans in the order of their marks, that is, of their insertion.
\<close>

section \<open>Slots in the order of their marks\<close>

definition by_age :: "marked_span list \<Rightarrow> marked_span list" where
  "by_age ms = sort_key ms_mark ms"

lemma set_by_age [simp]: "set (by_age ms) = set ms"
  by (simp add: by_age_def)

lemma length_by_age [simp]: "length (by_age ms) = length ms"
  by (simp add: by_age_def)

lemma mset_by_age [simp]: "mset (by_age ms) = mset ms"
  by (simp add: by_age_def)

lemma by_age_unique:
  assumes "distinct (map ms_mark ms)" "set ns = set ms"
    and "distinct (map ms_mark ns)" "sorted (map ms_mark ns)"
  shows "by_age ms = ns"
  unfolding by_age_def
proof (rule map_sorted_distinct_set_unique[of ms_mark])
  show "inj_on ms_mark (set (sort_key ms_mark ms) \<union> set ns)"
    using assms(1,2) by (simp add: distinct_map)
  have "mset (map ms_mark (sort_key ms_mark ms)) = mset (map ms_mark ms)"
    by simp
  then show "distinct (map ms_mark (sort_key ms_mark ms))"
    using assms(1) by (metis distinct_count_atmost_1 set_mset_mset)
qed (use assms in simp_all)

lemma distinct_by_age: "distinct (map ms_mark ms) \<Longrightarrow> distinct (map ms_mark (by_age ms))"
  by (metis distinct_count_atmost_1 mset_by_age mset_map set_mset_mset)

lemma sorted_by_age: "sorted (map ms_mark (by_age ms))"
  by (simp add: by_age_def)

lemma by_age_snoc:
  assumes "distinct (map ms_mark ms)" "\<And>m'. m' \<in> set ms \<Longrightarrow> ms_mark m' < ms_mark m"
  shows "by_age (ms @ [m]) = by_age ms @ [m]"
proof (rule by_age_unique)
  have new: "ms_mark m \<notin> ms_mark ` set ms"
    using assms(2) by (metis imageE less_irrefl)
  then show "distinct (map ms_mark (by_age ms @ [m]))"
    using distinct_by_age[OF assms(1)] by auto
  show "sorted (map ms_mark (by_age ms @ [m]))"
    using assms(2) sorted_by_age[of ms] by (auto simp: sorted_append less_imp_le)
  show "distinct (map ms_mark (ms @ [m]))"
    using assms(1) new by auto
qed simp

lemma by_age_swap_remove:
  assumes "distinct (map ms_mark ms)" "i < length ms"
  shows "by_age (swap_remove i ms) = filter (\<lambda>m. ms_mark m \<noteq> ms_mark (ms ! i)) (by_age ms)"
proof (rule by_age_unique)
  have d: "distinct ms" using assms(1) by (simp add: distinct_map)
  have inj: "inj_on ms_mark (set ms)" using assms(1) by (simp add: distinct_map)
  have "set (swap_remove i ms) = set ms - {ms ! i}"
    using d assms(2) by (rule distinct_swap_remove(2))
  also have "\<dots> = {m \<in> set ms. ms_mark m \<noteq> ms_mark (ms ! i)}"
    using inj assms(2) by (auto simp: inj_on_def)
  finally show "set (filter (\<lambda>m. ms_mark m \<noteq> ms_mark (ms ! i)) (by_age ms)) = set (swap_remove i ms)"
    by auto
  show "distinct (map ms_mark (swap_remove i ms))"
    using assms by (simp add: map_swap_remove distinct_swap_remove(1))
  show "distinct (map ms_mark (filter (\<lambda>m. ms_mark m \<noteq> ms_mark (ms ! i)) (by_age ms)))"
    using distinct_by_age[OF assms(1)] by (rule distinct_map_filter)
  show "sorted (map ms_mark (filter (\<lambda>m. ms_mark m \<noteq> ms_mark (ms ! i)) (by_age ms)))"
    using sorted_by_age[of ms] by (rule sorted_filter)
qed

lemma by_age_update:
  assumes "distinct (map ms_mark ms)" "i < length ms" "ms_mark m' = ms_mark (ms ! i)"
  shows "by_age (ms[i := m']) = map (\<lambda>m. if ms_mark m = ms_mark (ms ! i) then m' else m) (by_age ms)"
proof (rule by_age_unique)
  let ?g = "\<lambda>m. if ms_mark m = ms_mark (ms ! i) then m' else m"
  have marks: "map ms_mark (map ?g ns) = map ms_mark ns" for ns
    using assms(3) by simp
  have g: "ms[i := m'] = map ?g ms"
    using assms(1,2) by (intro nth_equalityI)
      (auto simp: nth_list_update distinct_conv_nth split: if_splits)
  show "set (map ?g (by_age ms)) = set (ms[i := m'])"
    unfolding g by simp
  show "distinct (map ms_mark (ms[i := m']))"
    unfolding g marks by (rule assms(1))
  show "distinct (map ms_mark (map ?g (by_age ms)))"
    unfolding marks using assms(1) by (rule distinct_by_age)
  show "sorted (map ms_mark (map ?g (by_age ms)))"
    unfolding marks by (rule sorted_by_age)
qed

lemma hd_by_age_least:
  assumes "m \<in> set ms"
  shows "ms_mark (hd (by_age ms)) \<le> ms_mark m"
proof -
  have "by_age ms \<noteq> []" using assms by (metis empty_iff set_by_age set_empty)
  then obtain x xs where x: "by_age ms = x # xs" by (cases "by_age ms") auto
  have "m \<in> set (x # xs)" using assms set_by_age[of ms] x by simp
  moreover have "sorted (map ms_mark (x # xs))" using sorted_by_age[of ms] x by simp
  ultimately show ?thesis by (auto simp: x)
qed

section \<open>The contract\<close>

locale marked_store =
  fixes sz :: mmap_size
    and inv :: "'s \<Rightarrow> bool"
    and slots :: "'s \<Rightarrow> marked_span list"
    and counter :: "'s \<Rightarrow> mark_t"
    and cnt :: "'s \<Rightarrow> u64"
    and add :: "span \<Rightarrow> 's \<Rightarrow> (index_t \<times> 's) res"
    and remove :: "index_t \<Rightarrow> 's \<Rightarrow> (u64 \<times> 's) res"
    and set_end_time :: "index_t \<Rightarrow> u64 \<Rightarrow> 's \<Rightarrow> 's res"
    and set_attribute :: "index_t \<Rightarrow> bytes \<Rightarrow> bytes \<Rightarrow> 's \<Rightarrow> (index_t \<times> 's) res"
    and get_mark :: "index_t \<Rightarrow> 's \<Rightarrow> mark_t res"
    and get_raw :: "index_t \<Rightarrow> 's \<Rightarrow> raw_span res"
  assumes cnt_slots: "inv s \<Longrightarrow> unat (cnt s) = length (slots s)"
    and slots_limit: "inv s \<Longrightarrow> length (slots s) \<le> max_spans (mmap_config sz)"
    and slots_live: "inv s \<Longrightarrow> m \<in> set (slots s) \<Longrightarrow> live_slot sz (counter s) m"
    and slots_distinct: "inv s \<Longrightarrow> distinct (map ms_mark (slots s))"
    and add_slots: "inv s \<Longrightarrow> length (slots s) < max_spans (mmap_config sz) \<Longrightarrow>
      unat (counter s) + 1 < 2 ^ 64 \<Longrightarrow>
      \<exists>s'. add sp s = Inr (cnt s, s') \<and> inv s' \<and> counter s' = counter s + 1 \<and>
        slots s' = slots s @ [\<lparr>ms_mark = counter s + 1, ms_span = to_raw_span sz sp\<rparr>]"
    and remove_slots: "inv s \<Longrightarrow> unat i < length (slots s) \<Longrightarrow>
      \<exists>s'. remove i s =
          Inr (if unat i = length (slots s) - 1 then 0 else raw_span_id (ms_span (last (slots s))), s')
        \<and> inv s' \<and> counter s' = counter s \<and> slots s' = swap_remove (unat i) (slots s)"
    and end_slots: "inv s \<Longrightarrow> unat i < length (slots s) \<Longrightarrow>
      \<exists>s'. set_end_time i t s = Inr s' \<and> inv s' \<and> counter s' = counter s \<and>
        slots s' = (slots s)[unat i := (slots s ! unat i)
          \<lparr>ms_span := (ms_span (slots s ! unat i))\<lparr>raw_end_time := t\<rparr>\<rparr>]"
    and attribute_slots: "inv s \<Longrightarrow> unat i < length (slots s) \<Longrightarrow>
      \<exists>j s'. set_attribute i k v s = Inr (j, s') \<and> inv s' \<and> counter s' = counter s \<and>
        slots s' = (slots s)[unat i := (slots s ! unat i)
          \<lparr>ms_span := with_attribute sz k v (ms_span (slots s ! unat i))\<rparr>]"
    and get_mark_slot: "inv s \<Longrightarrow> unat i < length (slots s) \<Longrightarrow>
      get_mark i s = Inr (ms_mark (slots s ! unat i))"
    and get_raw_slot: "inv s \<Longrightarrow> unat i < length (slots s) \<Longrightarrow>
      get_raw i s = Inr (ms_span (slots s ! unat i))"
begin

lemma add_age:
  assumes "inv s" "length (slots s) < max_spans (mmap_config sz)" "unat (counter s) + 1 < 2 ^ 64"
  shows "\<exists>s'. add sp s = Inr (cnt s, s') \<and> inv s' \<and> counter s' = counter s + 1 \<and>
    slots s' = slots s @ [\<lparr>ms_mark = counter s + 1, ms_span = to_raw_span sz sp\<rparr>] \<and>
    by_age (slots s') = by_age (slots s) @ [\<lparr>ms_mark = counter s + 1, ms_span = to_raw_span sz sp\<rparr>]"
proof -
  have "counter s < counter s + 1"
    using assms(3) by (simp add: word_less_nat_alt unat_plus1_64)
  moreover have "ms_mark m \<le> counter s" if "m \<in> set (slots s)" for m
    using slots_live[OF assms(1) that] by (simp add: live_slot_def)
  ultimately have "by_age (slots s @ [\<lparr>ms_mark = counter s + 1, ms_span = r\<rparr>]) =
      by_age (slots s) @ [\<lparr>ms_mark = counter s + 1, ms_span = r\<rparr>]" for r
    using slots_distinct[OF assms(1)] by (intro by_age_snoc) (auto intro: le_less_trans)
  then show ?thesis
    using add_slots[OF assms] by metis
qed

lemma remove_age:
  assumes "inv s" "unat i < length (slots s)"
  shows "\<exists>s'. remove i s =
      Inr (if unat i = length (slots s) - 1 then 0 else raw_span_id (ms_span (last (slots s))), s')
    \<and> inv s' \<and> counter s' = counter s \<and> slots s' = swap_remove (unat i) (slots s) \<and>
    by_age (slots s') = filter (\<lambda>m. ms_mark m \<noteq> ms_mark (slots s ! unat i)) (by_age (slots s))"
  using remove_slots[OF assms] by_age_swap_remove[OF slots_distinct[OF assms(1)] assms(2)] by metis

lemma slot_clean: "inv s \<Longrightarrow> m \<in> set (slots s) \<Longrightarrow> clean_raw_span sz (ms_span m)"
  using slots_live by (simp add: live_slot_def)

lemma slot_readable:
  "inv s \<Longrightarrow> m \<in> set (slots s) \<Longrightarrow>
     \<exists>sp. span_of_raw (ms_span m) = Inr sp \<and> sp_span_id sp = raw_span_id (ms_span m)"
  using slot_clean span_of_raw_total by blast

end

section \<open>RawSpanData provides the contract\<close>

lemma rsd_slot:
  assumes "rsd_inv sz d" "unat i < length (rsd_slots d)"
  shows "i < active_count (rd_layout d)" "unat i < max_spans (mmap_config sz)"
    "ml_marked_spans (rd_layout d) ! unat i = rsd_slots d ! unat i"
    "0 < slot_mark (rd_layout d) (unat i)"
    "clean_raw_span sz (slot_span (rd_layout d) (unat i))"
proof -
  have n: "unat i < unat (active_count (rd_layout d))"
    using assms by (simp add: rsd_inv_def rsd_slots_def length_active)
  then show "i < active_count (rd_layout d)" by (simp add: word_less_nat_alt)
  show "unat i < max_spans (mmap_config sz)"
    using n assms(1) by (simp add: rsd_inv_def layout_inv_def)
  show "ml_marked_spans (rd_layout d) ! unat i = rsd_slots d ! unat i"
    using n by (simp add: rsd_slots_def nth_active)
  show "0 < slot_mark (rd_layout d) (unat i)"
    "clean_raw_span sz (slot_span (rd_layout d) (unat i))"
    using layout_inv_slot[OF _ n] assms(1) by (auto simp: rsd_inv_def live_slot_def)
qed

lemma run_on_simps [simp]:
  "rd_layout (run_on sz ss d) = exec_stores sz ss (rd_layout d)"
  "rd_mark_counter (run_on sz ss d) = rd_mark_counter d"
  by (simp_all add: run_on_def)

lemma rsd_add_law:
  assumes inv: "rsd_inv sz d" and room: "length (rsd_slots d) < max_spans (mmap_config sz)"
    and ctr: "unat (rd_mark_counter d) + 1 < 2 ^ 64"
  shows "\<exists>d'. rsd_add sz sp d = Inr (rsd_count d, d') \<and> rsd_inv sz d' \<and>
    rd_mark_counter d' = rd_mark_counter d + 1 \<and>
    rsd_slots d' = rsd_slots d @ [\<lparr>ms_mark = rd_mark_counter d + 1, ms_span = to_raw_span sz sp\<rparr>]"
proof -
  let ?l = "rd_layout d" and ?mark = "rd_mark_counter d + 1"
  have i: "layout_inv sz (rd_mark_counter d) ?l"
    using inv by (simp add: rsd_inv_def)
  have room': "unat (active_count ?l) < max_spans (mmap_config sz)"
    using room i by (simp add: rsd_slots_def length_active)
  have mark: "rd_mark_counter d < ?mark"
    using ctr by (simp add: word_less_nat_alt unat_plus1_64)
  have "slot_mark ?l (unat (active_count ?l)) = 0"
    using layout_inv_unmarked[OF i _ room'] by simp
  then have "rsd_add sz sp d =
      Inr (rsd_count d, run_on sz (add_stores sz sp ?mark ?l) (d\<lparr>rd_mark_counter := ?mark\<rparr>))"
    using room' by (simp add: rsd_add_def Let_def rsd_count_def rsd_max_count_def)
  then show ?thesis
    using add_law[OF i room' mark, of sp] by (simp add: rsd_inv_def rsd_slots_def)
qed

lemma rsd_remove_law:
  assumes inv: "rsd_inv sz d" and i: "unat i < length (rsd_slots d)"
  shows "\<exists>d'. rsd_remove sz i d =
      Inr (if unat i = length (rsd_slots d) - 1 then 0
           else raw_span_id (ms_span (last (rsd_slots d))), d') \<and> rsd_inv sz d' \<and>
    rd_mark_counter d' = rd_mark_counter d \<and> rsd_slots d' = swap_remove (unat i) (rsd_slots d)"
proof -
  let ?l = "rd_layout d"
  let ?last = "active_count ?l - 1"
  have li: "layout_inv sz (rd_mark_counter d) ?l"
    using inv by (simp add: rsd_inv_def)
  have len: "length (rsd_slots d) = unat (active_count ?l)"
    using li by (simp add: rsd_slots_def length_active)
  then have nz: "active_count ?l \<noteq> 0" using i by auto
  have last: "unat ?last = length (rsd_slots d) - 1"
    using nz len by (simp add: unat_minus1_64)
  then have lt: "unat ?last < length (rsd_slots d)" using i by simp
  have li_last: "i = ?last \<longleftrightarrow> unat i = length (rsd_slots d) - 1"
    using last by (metis word_unat_eq_iff)
  have "rsd_slots d \<noteq> []" using i by auto
  then have lastspan: "slot_span ?l (unat ?last) = ms_span (last (rsd_slots d))"
    using rsd_slot(3)[OF inv lt] last by (simp add: last_conv_nth)
  have "rsd_remove sz i d = Inr (if i = ?last then 0 else raw_span_id (slot_span ?l (unat ?last)),
      run_on sz (remove_stores (unat i) ?l) d)"
    using rsd_slot[OF inv i] rsd_slot[OF inv lt]
    by (simp add: rsd_remove_def Let_def rsd_max_count_def)
  moreover have "unat i < unat (active_count ?l)" using i len by simp
  note remove_law[OF li this]
  ultimately show ?thesis
    by (simp add: rsd_inv_def rsd_slots_def[of "run_on _ _ _"] li_last lastspan)
      (simp add: rsd_slots_def)
qed

lemma rsd_end_law:
  assumes inv: "rsd_inv sz d" and i: "unat i < length (rsd_slots d)"
  shows "\<exists>d'. rsd_set_end_time sz i t d = Inr d' \<and> rsd_inv sz d' \<and>
    rd_mark_counter d' = rd_mark_counter d \<and>
    rsd_slots d' = (rsd_slots d)[unat i := (rsd_slots d ! unat i)
      \<lparr>ms_span := (ms_span (rsd_slots d ! unat i))\<lparr>raw_end_time := t\<rparr>\<rparr>]"
proof -
  let ?l = "rd_layout d"
  have li: "layout_inv sz (rd_mark_counter d) ?l" using inv by (simp add: rsd_inv_def)
  have n: "unat i < unat (active_count ?l)"
    using i li by (simp add: rsd_slots_def length_active)
  have clean: "clean_raw_span sz ((slot_span ?l (unat i))\<lparr>raw_end_time := t\<rparr>)"
    using rsd_slot(5)[OF inv i] by (simp add: clean_raw_span_def wf_raw_span_def)
  have "rsd_set_end_time sz i t d = Inr (run_on sz [Store_End_Time (unat i) t] d)"
    using rsd_slot[OF inv i] by (simp add: rsd_set_end_time_def rsd_count_def rsd_max_count_def)
  then show ?thesis
    using modify_law[where f = "\<lambda>r. r\<lparr>raw_end_time := t\<rparr>", OF li n clean]
    by (simp add: rsd_inv_def rsd_slots_def)
qed

lemma rsd_attribute_law:
  assumes inv: "rsd_inv sz d" and i: "unat i < length (rsd_slots d)"
  shows "\<exists>j d'. rsd_set_attribute_on_span sz i k v d = Inr (j, d') \<and> rsd_inv sz d' \<and>
    rd_mark_counter d' = rd_mark_counter d \<and>
    rsd_slots d' = (rsd_slots d)[unat i := (rsd_slots d ! unat i)
      \<lparr>ms_span := with_attribute sz k v (ms_span (rsd_slots d ! unat i))\<rparr>]"
proof -
  let ?l = "rd_layout d"
  have li: "layout_inv sz (rd_mark_counter d) ?l" using inv by (simp add: rsd_inv_def)
  have n: "unat i < unat (active_count ?l)"
    using i li by (simp add: rsd_slots_def length_active)
  have clean: "clean_raw_span sz (slot_span ?l (unat i))" and m: "unat i < max_spans (mmap_config sz)"
    using rsd_slot[OF inv i] by simp_all
  have "unat i < length (ml_marked_spans ?l)"
    using m li by (simp add: layout_inv_def wf_layout_def)
  from exec_set_attribute[OF clean this, of k v] obtain idx ss where
    ss: "set_attribute_stores sz (unat i) k v (slot_span ?l (unat i)) = Inr (idx, ss)"
    "exec_stores sz ss ?l = upd_span (unat i) (with_attribute sz k v) ?l"
    by blast
  have "rsd_set_attribute_on_span sz i k v d = Inr (idx, run_on sz ss d)"
    using m ss(1) by (simp add: rsd_set_attribute_on_span_def rsd_max_count_def)
  then show ?thesis
    using modify_law[where f = "with_attribute sz k v", OF li n clean_with_attribute[OF clean]] ss(2)
    by (auto simp: rsd_inv_def rsd_slots_def intro!: exI)
qed

text \<open>All of the store after the call, not only the slots in use.\<close>

lemma rsd_attribute_exact:
  assumes inv: "rsd_inv sz d" and i: "unat i < length (rsd_slots d)" and key: "0 \<notin> set key"
  defines "r \<equiv> ms_span (rsd_slots d ! unat i)"
  shows "\<exists>j. rsd_set_attribute_on_span sz i key v d =
      Inr (j, d\<lparr>rd_layout := upd_span (unat i) (\<lambda>_. with_attribute sz key v r) (rd_layout d)\<rparr>) \<and>
    unat j = attribute_slot (utf8_trunc attr_key_size key) (stored_attributes r)"
proof -
  let ?l = "rd_layout d"
  note slot = rsd_slot[OF inv i]
  have r: "slot_span ?l (unat i) = r" using slot by (simp add: r_def)
  have clean: "clean_raw_span sz (slot_span ?l (unat i))" and m: "unat i < max_spans (mmap_config sz)"
    using slot by simp_all
  have len: "unat i < length (ml_marked_spans ?l)"
    using m inv by (simp add: rsd_inv_def layout_inv_def wf_layout_def)
  from exec_set_attribute[OF clean len, of key v] obtain idx ss where
    ss: "set_attribute_stores sz (unat i) key v (slot_span ?l (unat i)) = Inr (idx, ss)"
    "exec_stores sz ss ?l = upd_span (unat i) (with_attribute sz key v) ?l"
    by blast
  have "upd_span (unat i) (with_attribute sz key v) ?l = upd_span (unat i) (\<lambda>_. with_attribute sz key v r) ?l"
    using r by (simp add: upd_span_def upd_slot_def)
  then have "rsd_set_attribute_on_span sz i key v d =
      Inr (idx, d\<lparr>rd_layout := upd_span (unat i) (\<lambda>_. with_attribute sz key v r) ?l\<rparr>)"
    using m ss by (simp add: rsd_set_attribute_on_span_def rsd_max_count_def run_on_def)
  with set_attribute_index[OF clean key ss(1)] show ?thesis unfolding r by blast
qed

lemma rsd_marked_store:
  "marked_store sz (rsd_inv sz) rsd_slots rd_mark_counter rsd_count (rsd_add sz) (rsd_remove sz)
     (rsd_set_end_time sz) (rsd_set_attribute_on_span sz) (rsd_get_mark sz) (rsd_get_raw_span sz)"
proof
  fix d sp i t k v m
  show "rsd_inv sz d \<Longrightarrow> unat (rsd_count d) = length (rsd_slots d)"
    by (simp add: rsd_inv_def rsd_count_def rsd_slots_def length_active)
  show "rsd_inv sz d \<Longrightarrow> length (rsd_slots d) \<le> max_spans (mmap_config sz)"
    by (simp add: rsd_inv_def rsd_slots_def length_active) (simp add: layout_inv_def)
  show "rsd_inv sz d \<Longrightarrow> m \<in> set (rsd_slots d) \<Longrightarrow> live_slot sz (rd_mark_counter d) m"
    by (simp add: rsd_inv_def rsd_slots_def layout_inv_def list_all_iff)
  show "rsd_inv sz d \<Longrightarrow> distinct (map ms_mark (rsd_slots d))"
    by (simp add: rsd_inv_def rsd_slots_def layout_inv_def)
  show "rsd_inv sz d \<Longrightarrow> unat i < length (rsd_slots d) \<Longrightarrow>
      rsd_get_mark sz i d = Inr (ms_mark (rsd_slots d ! unat i))"
    using rsd_slot[of sz d i] by (simp add: rsd_get_mark_def rsd_max_count_def)
  show "rsd_inv sz d \<Longrightarrow> unat i < length (rsd_slots d) \<Longrightarrow>
      rsd_get_raw_span sz i d = Inr (ms_span (rsd_slots d ! unat i))"
    using rsd_slot[of sz d i] by (simp add: rsd_get_raw_span_def rsd_max_count_def)
qed (rule rsd_add_law rsd_remove_law rsd_end_law rsd_attribute_law; assumption)+

interpretation rsd: marked_store sz "rsd_inv sz" rsd_slots rd_mark_counter rsd_count
  "rsd_add sz" "rsd_remove sz" "rsd_set_end_time sz" "rsd_set_attribute_on_span sz"
  "rsd_get_mark sz" "rsd_get_raw_span sz" for sz
  by (rule rsd_marked_store)

end
