(* ===== verification/Span_Data_Impl.thy ===== *)
theory Span_Data_Impl
  imports Marked_Store
begin

text \<open>
  \<^verbatim>\<open>span_data_impl.cpp\<close>: the variant over the three layout sizes, chosen from the header, with
  one forwarding operation per member, and \<^verbatim>\<open>recovered_span_data.cpp\<close>, the read-only view of
  it. \<^verbatim>\<open>SpanDataImpl\<close> provides the same contract as the alternative it holds.
\<close>

section \<open>The variant\<close>

datatype span_data_impl =
    Data_Small raw_span_data
  | Data_Medium raw_span_data
  | Data_Large raw_span_data

text \<open>\<^verbatim>\<open>std::visit\<close>: apply the operation of the alternative that is held.\<close>

fun visit :: "(mmap_size \<Rightarrow> raw_span_data \<Rightarrow> 'a) \<Rightarrow> span_data_impl \<Rightarrow> 'a" where
  "visit f (Data_Small d) = f Small d"
| "visit f (Data_Medium d) = f Medium d"
| "visit f (Data_Large d) = f Large d"

fun with_data :: "span_data_impl \<Rightarrow> raw_span_data \<Rightarrow> span_data_impl" where
  "with_data (Data_Small _) d = Data_Small d"
| "with_data (Data_Medium _) d = Data_Medium d"
| "with_data (Data_Large _) d = Data_Large d"

text \<open>
  \<^verbatim>\<open>make_data\<close> picks the alternative from the header of the mapping (any unknown value gives
  Small) and constructs it; \<open>None\<close> is a mapping that is not initialized.
\<close>

definition make_data :: "memory_layout option \<Rightarrow> span_data_impl res" where
  "make_data mapping =
     (case mapping of
        None \<Rightarrow> Inl (Assert_Failed ''header.is_initialized()'')
      | Some l \<Rightarrow>
          if h_mmap_size (ml_header l) = mmap_size_code Large then
            res_map Data_Large (rsd_new (Some l))
          else if h_mmap_size (ml_header l) = mmap_size_code Medium then
            res_map Data_Medium (rsd_new (Some l))
          else res_map Data_Small (rsd_new (Some l)))"

definition impl_count :: "span_data_impl \<Rightarrow> u64" where
  "impl_count x = visit (\<lambda>_. rsd_count) x"

definition impl_max_count :: "span_data_impl \<Rightarrow> nat" where
  "impl_max_count x = visit (\<lambda>sz _. rsd_max_count sz) x"

definition impl_size :: "span_data_impl \<Rightarrow> u64 res" where
  "impl_size x = visit rsd_size x"

definition impl_add :: "span \<Rightarrow> span_data_impl \<Rightarrow> (index_t \<times> span_data_impl) res" where
  "impl_add s x = res_map (\<lambda>(i, d). (i, with_data x d)) (visit (\<lambda>sz. rsd_add sz s) x)"

definition impl_set_attribute_on_span ::
    "index_t \<Rightarrow> bytes \<Rightarrow> bytes \<Rightarrow> span_data_impl \<Rightarrow> (index_t \<times> span_data_impl) res" where
  "impl_set_attribute_on_span raw_index key value x =
     res_map (\<lambda>(i, d). (i, with_data x d))
       (visit (\<lambda>sz. rsd_set_attribute_on_span sz raw_index key value) x)"

definition impl_set_end_time :: "index_t \<Rightarrow> u64 \<Rightarrow> span_data_impl \<Rightarrow> span_data_impl res" where
  "impl_set_end_time raw_index end_time x =
     res_map (with_data x) (visit (\<lambda>sz. rsd_set_end_time sz raw_index end_time) x)"

definition impl_get_raw_span :: "index_t \<Rightarrow> span_data_impl \<Rightarrow> raw_span res" where
  "impl_get_raw_span raw_index x = visit (\<lambda>sz. rsd_get_raw_span sz raw_index) x"

definition impl_get_span_id :: "index_t \<Rightarrow> span_data_impl \<Rightarrow> u64 res" where
  "impl_get_span_id raw_index x = res_map raw_span_id (impl_get_raw_span raw_index x)"

definition impl_get_mark :: "index_t \<Rightarrow> span_data_impl \<Rightarrow> mark_t res" where
  "impl_get_mark raw_index x = visit (\<lambda>sz. rsd_get_mark sz raw_index) x"

definition impl_get :: "index_t \<Rightarrow> span_data_impl \<Rightarrow> span res" where
  "impl_get raw_index x = visit (\<lambda>sz. rsd_get sz raw_index) x"

definition impl_remove :: "index_t \<Rightarrow> span_data_impl \<Rightarrow> (u64 \<times> span_data_impl) res" where
  "impl_remove raw_index x =
     res_map (\<lambda>(i, d). (i, with_data x d)) (visit (\<lambda>sz. rsd_remove sz raw_index) x)"

definition impl_remove_all :: "span_data_impl \<Rightarrow> span_data_impl" where
  "impl_remove_all x = with_data x (visit rsd_remove_all x)"

section \<open>RecoveredSpanData\<close>

text \<open>A constant reference to a \<^verbatim>\<open>SpanDataImpl\<close>, with four forwarding members.\<close>

datatype recovered_span_data = Recovered_Span_Data (rec_impl: span_data_impl)

definition recovered_count :: "recovered_span_data \<Rightarrow> u64" where
  "recovered_count r = impl_count (rec_impl r)"

definition recovered_max_count :: "recovered_span_data \<Rightarrow> nat" where
  "recovered_max_count r = impl_max_count (rec_impl r)"

definition recovered_get_mark :: "index_t \<Rightarrow> recovered_span_data \<Rightarrow> mark_t res" where
  "recovered_get_mark raw_index r = impl_get_mark raw_index (rec_impl r)"

definition recovered_get :: "index_t \<Rightarrow> recovered_span_data \<Rightarrow> span res" where
  "recovered_get raw_index r = impl_get raw_index (rec_impl r)"

section \<open>The alternative that is held\<close>

fun impl_of :: "mmap_size \<Rightarrow> raw_span_data \<Rightarrow> span_data_impl" where
  "impl_of Small d = Data_Small d"
| "impl_of Medium d = Data_Medium d"
| "impl_of Large d = Data_Large d"

definition impl_data :: "span_data_impl \<Rightarrow> raw_span_data" where
  "impl_data x = visit (\<lambda>_ d. d) x"

definition impl_alt :: "span_data_impl \<Rightarrow> mmap_size" where
  "impl_alt x = visit (\<lambda>sz _. sz) x"

lemma visit_eq: "visit f x = f (impl_alt x) (impl_data x)"
  by (cases x) (simp_all add: impl_alt_def impl_data_def)

lemma with_data_simps [simp]:
  "impl_data (with_data x d) = d" "impl_alt (with_data x d) = impl_alt x"
  by (cases x; simp add: impl_alt_def impl_data_def)+

lemma impl_of_simps [simp]: "impl_data (impl_of sz d) = d" "impl_alt (impl_of sz d) = sz"
  by (cases sz; simp add: impl_alt_def impl_data_def)+

lemma impl_cases: "x = impl_of (impl_alt x) (impl_data x)"
  by (cases x) (simp_all add: impl_alt_def impl_data_def)

text \<open>The layout an unknown or known size word selects.\<close>

definition layout_alt :: "u64 \<Rightarrow> mmap_size" where
  "layout_alt w = (if w = 2 then Large else if w = 1 then Medium else Small)"

lemma layout_alt_code [simp]: "layout_alt (mmap_size_code sz) = sz"
  by (cases sz) (simp_all add: layout_alt_def)

lemma make_data_eq:
  "make_data (Some l) =
     Inr (impl_of (layout_alt (h_mmap_size (ml_header l))) \<lparr>rd_layout = l, rd_mark_counter = 0\<rparr>)"
  by (simp add: make_data_def rsd_new_def layout_alt_def)

lemma get_memory_layout_size_alt: "get_memory_layout_size w = sizeof_memory_layout (layout_alt w)"
  by (simp add: get_memory_layout_size_def layout_alt_def)

section \<open>The contract, provided again\<close>

definition impl_inv :: "mmap_size \<Rightarrow> span_data_impl \<Rightarrow> bool" where
  "impl_inv sz x \<longleftrightarrow> impl_alt x = sz \<and> rsd_inv sz (impl_data x)"

definition impl_slots :: "span_data_impl \<Rightarrow> marked_span list" where
  "impl_slots x = rsd_slots (impl_data x)"

definition impl_counter :: "span_data_impl \<Rightarrow> mark_t" where
  "impl_counter x = rd_mark_counter (impl_data x)"

lemmas impl_defs = impl_inv_def impl_slots_def impl_counter_def visit_eq

lemma impl_marked_store:
  "marked_store sz (impl_inv sz) impl_slots impl_counter impl_count impl_add impl_remove
     impl_set_end_time impl_set_attribute_on_span impl_get_mark impl_get_raw_span"
proof
  fix x sp t k v m and i :: index_t
  assume inv: "impl_inv sz x"
  then have d: "rsd_inv sz (impl_data x)" and [simp]: "impl_alt x = sz"
    by (simp_all add: impl_inv_def)
  show "unat (impl_count x) = length (impl_slots x)"
    using rsd.cnt_slots[OF d] by (simp add: impl_count_def impl_defs)
  show "length (impl_slots x) \<le> max_spans (mmap_config sz)"
    using rsd.slots_limit[OF d] by (simp add: impl_defs)
  show "m \<in> set (impl_slots x) \<Longrightarrow> live_slot sz (impl_counter x) m"
    using rsd.slots_live[OF d] by (simp add: impl_defs)
  show "distinct (map ms_mark (impl_slots x))"
    using rsd.slots_distinct[OF d] by (simp add: impl_defs)
  show "length (impl_slots x) < max_spans (mmap_config sz) \<Longrightarrow>
      unat (impl_counter x) + 1 < 2 ^ 64 \<Longrightarrow>
      \<exists>y. impl_add sp x = Inr (impl_count x, y) \<and> impl_inv sz y \<and>
        impl_counter y = impl_counter x + 1 \<and>
        impl_slots y = impl_slots x @ [\<lparr>ms_mark = impl_counter x + 1, ms_span = to_raw_span sz sp\<rparr>]"
    using rsd.add_slots[OF d, of sp]
    by (auto simp: impl_add_def impl_count_def impl_defs)
  assume "unat i < length (impl_slots x)"
  then have i: "unat i < length (rsd_slots (impl_data x))"
    by (simp add: impl_slots_def)
  show "impl_get_mark i x = Inr (ms_mark (impl_slots x ! unat i))"
    using rsd.get_mark_slot[OF d i] by (simp add: impl_get_mark_def impl_defs)
  show "impl_get_raw_span i x = Inr (ms_span (impl_slots x ! unat i))"
    using rsd.get_raw_slot[OF d i] by (simp add: impl_get_raw_span_def impl_defs)
  show "\<exists>y. impl_remove i x =
      Inr (if unat i = length (impl_slots x) - 1 then 0
           else raw_span_id (ms_span (last (impl_slots x))), y)
    \<and> impl_inv sz y \<and> impl_counter y = impl_counter x
    \<and> impl_slots y = swap_remove (unat i) (impl_slots x)"
    using rsd.remove_slots[OF d i]
    by (auto simp: impl_remove_def impl_defs)
  show "\<exists>y. impl_set_end_time i t x = Inr y \<and> impl_inv sz y \<and> impl_counter y = impl_counter x \<and>
      impl_slots y = (impl_slots x)[unat i := (impl_slots x ! unat i)
        \<lparr>ms_span := (ms_span (impl_slots x ! unat i))\<lparr>raw_end_time := t\<rparr>\<rparr>]"
    using rsd.end_slots[OF d i, of t]
    by (auto simp: impl_set_end_time_def impl_defs)
  show "\<exists>j y. impl_set_attribute_on_span i k v x = Inr (j, y) \<and> impl_inv sz y \<and>
      impl_counter y = impl_counter x \<and>
      impl_slots y = (impl_slots x)[unat i := (impl_slots x ! unat i)
        \<lparr>ms_span := with_attribute sz k v (ms_span (impl_slots x ! unat i))\<rparr>]"
    using rsd.attribute_slots[OF d i, of k v]
    by (auto simp: impl_set_attribute_on_span_def impl_defs)
qed

interpretation sdi: marked_store sz "impl_inv sz" impl_slots impl_counter impl_count
  impl_add impl_remove impl_set_end_time impl_set_attribute_on_span impl_get_mark
  impl_get_raw_span for sz
  by (rule impl_marked_store)

end
