(* ===== verification/Mutable_Span_Data.thy ===== *)
theory Mutable_Span_Data
  imports Span_Data_Impl
begin

text \<open>
  \<^verbatim>\<open>mutable_span_data.cpp\<close>: the writer of a running process. It owns the map from span ids to
  slot indexes and evicts the oldest span when the array is full. The specification is a
  bounded list of spans in insertion order; the operations are proved to refine it.
\<close>

section \<open>State and operations\<close>

record mutable_span_data =
  mu_impl :: span_data_impl
  mu_index :: "u64 \<rightharpoonup> index_t"

definition mut_new :: "span_data_impl \<Rightarrow> mutable_span_data" where
  "mut_new x = \<lparr>mu_impl = x, mu_index = Map.empty\<rparr>"

definition mut_count :: "mutable_span_data \<Rightarrow> u64" where
  "mut_count m = impl_count (mu_impl m)"

definition mut_remove :: "u64 \<Rightarrow> mutable_span_data \<Rightarrow> mutable_span_data res" where
  "mut_remove span_id m =
     (case mu_index m span_id of
        None \<Rightarrow> Inr m
      | Some raw_index \<Rightarrow>
          res_map (\<lambda>(moved_span_id, x).
            let index = (if 0 < moved_span_id then (mu_index m)(moved_span_id \<mapsto> raw_index)
                         else mu_index m)
            in m\<lparr>mu_impl := x, mu_index := index(span_id := None)\<rparr>)
          (impl_remove raw_index (mu_impl m)))"

text \<open>The loop that finds the oldest span: \<open>n\<close> iterations remain, from index \<open>i\<close> on.\<close>

fun oldest_scan :: "nat \<Rightarrow> u64 \<Rightarrow> mark_t \<Rightarrow> u64 \<Rightarrow> span_data_impl \<Rightarrow> u64 res" where
  "oldest_scan 0 i oldest_mark oldest_span_id x = Inr oldest_span_id"
| "oldest_scan (Suc n) i oldest_mark oldest_span_id x =
     res_bind (impl_get_mark i x) (\<lambda>mark.
       if mark < oldest_mark then
         res_bind (impl_get_span_id i x) (\<lambda>span_id. oldest_scan n (i + 1) mark span_id x)
       else oldest_scan n (i + 1) oldest_mark oldest_span_id x)"

definition oldest_span :: "span_data_impl \<Rightarrow> u64 res" where
  "oldest_span x = oldest_scan (unat (impl_count x)) 0 (- 1) 0 x"

text \<open>\<^verbatim>\<open>unordered_map::insert\<close> leaves an existing entry alone.\<close>

definition map_insert :: "'k \<Rightarrow> 'v \<Rightarrow> ('k \<rightharpoonup> 'v) \<Rightarrow> ('k \<rightharpoonup> 'v)" where
  "map_insert k v f = (case f k of None \<Rightarrow> f(k \<mapsto> v) | Some _ \<Rightarrow> f)"

definition mut_add :: "span \<Rightarrow> mutable_span_data \<Rightarrow> mutable_span_data res" where
  "mut_add s m =
     (if mu_index m (sp_span_id s) \<noteq> None then Inr m
      else
        res_bind
          (if unat (impl_count (mu_impl m)) = impl_max_count (mu_impl m) then
             res_bind (oldest_span (mu_impl m)) (\<lambda>oldest_span_id.
               if oldest_span_id \<noteq> 0 then mut_remove oldest_span_id m else Inr m)
           else Inr m)
          (\<lambda>m. res_map (\<lambda>(raw_index, x).
             m\<lparr>mu_impl := x, mu_index := map_insert (sp_span_id s) raw_index (mu_index m)\<rparr>)
           (impl_add s (mu_impl m))))"

definition mut_set_attribute_on_span ::
    "u64 \<Rightarrow> bytes \<Rightarrow> bytes \<Rightarrow> mutable_span_data \<Rightarrow> mutable_span_data res" where
  "mut_set_attribute_on_span span_id key value m =
     (case mu_index m span_id of
        None \<Rightarrow> Inr m
      | Some raw_index \<Rightarrow>
          res_map (\<lambda>(_, x). m\<lparr>mu_impl := x\<rparr>)
            (impl_set_attribute_on_span raw_index key value (mu_impl m)))"

text \<open>\<open>now\<close> is the clock reading \<^verbatim>\<open>system_clock::now()\<close> in nanoseconds.\<close>

definition mut_end :: "u64 \<Rightarrow> u64 \<Rightarrow> u64 \<Rightarrow> mutable_span_data \<Rightarrow> mutable_span_data res" where
  "mut_end now span_id end_time m =
     (case mu_index m span_id of
        None \<Rightarrow> Inr m
      | Some raw_index \<Rightarrow>
          let end_time = (if end_time = 0 then now else end_time)
          in res_map (\<lambda>x. m\<lparr>mu_impl := x\<rparr>) (impl_set_end_time raw_index end_time (mu_impl m)))"

section \<open>The index map\<close>

definition index_matches :: "('k \<rightharpoonup> index_t) \<Rightarrow> 'k list \<Rightarrow> bool" where
  "index_matches f ids \<longleftrightarrow> (\<forall>k j. f k = Some j \<longleftrightarrow> unat j < length ids \<and> ids ! unat j = k)"

lemma index_matchesD:
  "index_matches f ids \<Longrightarrow> f k = Some j \<longleftrightarrow> unat j < length ids \<and> ids ! unat j = k"
  by (simp only: index_matches_def)

lemma index_matches_dom:
  assumes "index_matches f ids" "length ids \<le> 2048"
  shows "f k = None \<longleftrightarrow> k \<notin> set ids"
proof
  assume n: "f k = None"
  show "k \<notin> set ids"
  proof
    assume "k \<in> set ids"
    then obtain j where "j < length ids" "ids ! j = k" by (auto simp: in_set_conv_nth)
    then have "f k = Some (of_nat j)"
      using assms(2) by (simp add: index_matchesD[OF assms(1)])
    with n show False by simp
  qed
next
  assume "k \<notin> set ids"
  then have "f k \<noteq> Some j" for j
    unfolding index_matchesD[OF assms(1)] by (metis nth_mem)
  then show "f k = None" by (metis option.exhaust)
qed

lemma index_matches_empty: "index_matches Map.empty []"
  by (simp add: index_matches_def)

lemma index_matches_snoc:
  assumes "index_matches f ids" "length ids \<le> 2048" "k \<notin> set ids"
  shows "index_matches (f(k \<mapsto> of_nat (length ids))) (ids @ [k])"
  unfolding index_matches_def
proof (intro allI)
  fix k' and j :: index_t
  have u: "unat (of_nat (length ids) :: u64) = length ids" using assms(2) by simp
  have "of_nat (length ids) = j \<longleftrightarrow> unat (of_nat (length ids) :: u64) = unat j"
    by (rule word_unat_eq_iff)
  then have w: "of_nat (length ids) = j \<longleftrightarrow> unat j = length ids"
    unfolding u by auto
  show "((f(k \<mapsto> of_nat (length ids))) k' = Some j) \<longleftrightarrow>
      (unat j < length (ids @ [k]) \<and> (ids @ [k]) ! unat j = k')"
  proof (cases "k' = k")
    case True
    have "unat j < length ids \<Longrightarrow> ids ! unat j \<noteq> k" using assms(3) by auto
    with True show ?thesis by (auto simp: w nth_append less_Suc_eq)
  next
    case False
    then show ?thesis
      using index_matchesD[OF assms(1), of k' j] by (auto simp: nth_append less_Suc_eq)
  qed
qed

lemma swap_remove_cases:
  fixes n i j m :: nat
  assumes "b = z \<longleftrightarrow> i = n" "z = a \<longleftrightarrow> n = j" "b = a \<longleftrightarrow> i = j"
    and "j < m \<and> (j < n \<or> j = n)"
  shows "(k \<noteq> b \<and> (if i \<noteq> n \<and> k = z then j = i else j < m \<and> a = k)) \<longleftrightarrow>
    j < n \<and> (if j = i then z else a) = k"
  using assms by (cases "j = i"; cases "j = n") auto

lemma index_matches_swap_remove:
  assumes m: "index_matches f ids" and d: "distinct ids" and i: "unat i < length ids"
  shows "index_matches
    ((if unat i = length ids - 1 then f else f(last ids \<mapsto> i))(ids ! unat i := None))
    (swap_remove (unat i) ids)"
  unfolding index_matches_def
proof (intro allI)
  fix k j
  let ?n = "length ids - 1"
  have l: "last ids = ids ! ?n" and n: "?n < length ids"
    using i last_conv_nth[of ids] by (cases "ids = []"; simp)+
  have f: "f k = Some j \<longleftrightarrow> unat j < length ids \<and> ids ! unat j = k"
    using m by (rule index_matchesD)
  have inj: "ids ! a = ids ! b \<longleftrightarrow> a = b" if "a < length ids" "b < length ids" for a b
    using d that by (simp add: nth_eq_iff_index_eq)
  have sr: "swap_remove (unat i) ids ! unat j = (if unat j = unat i then ids ! ?n else ids ! unat j)"
    if "unat j < ?n" using nth_swap_remove[OF that] l by simp
  have lt: "unat j < length ids \<longleftrightarrow> unat j < ?n \<or> unat j = ?n" using n by auto
  have w: "i = j \<longleftrightarrow> unat j = unat i" by (metis word_unat_eq_iff)
  have rhs: "(unat j < length (swap_remove (unat i) ids) \<and> swap_remove (unat i) ids ! unat j = k)
      \<longleftrightarrow> unat j < ?n \<and> (if unat j = unat i then ids ! ?n else ids ! unat j) = k"
    using sr by auto
  have moved: "(if unat i = ?n then f else f(last ids \<mapsto> i)) k =
      (if unat i \<noteq> ?n \<and> k = ids ! ?n then Some i else f k)"
    by (simp add: l)
  have upd: "((g(b := None)) k = Some j) \<longleftrightarrow> k \<noteq> b \<and> g k = Some j"
    for g :: "'a \<rightharpoonup> index_t" and b
    by simp
  have lhs: "(((if unat i = ?n then f else f(last ids \<mapsto> i))(ids ! unat i := None)) k = Some j)
      \<longleftrightarrow> k \<noteq> ids ! unat i \<and>
        (if unat i \<noteq> ?n \<and> k = ids ! ?n then unat j = unat i
         else unat j < length ids \<and> ids ! unat j = k)"
    unfolding upd moved
    by (cases "unat i \<noteq> ?n \<and> k = ids ! ?n")
      (simp_all only: if_True if_False option.inject w f simp_thms)
  show "(((if unat i = ?n then f else f(last ids \<mapsto> i))(ids ! unat i := None)) k = Some j) \<longleftrightarrow>
      (unat j < length (swap_remove (unat i) ids) \<and> swap_remove (unat i) ids ! unat j = k)"
    unfolding lhs rhs
  proof (cases "unat j < length ids")
    case True
    show "(k \<noteq> ids ! unat i \<and>
        (if unat i \<noteq> ?n \<and> k = ids ! ?n then unat j = unat i
         else unat j < length ids \<and> ids ! unat j = k)) \<longleftrightarrow>
      unat j < ?n \<and> (if unat j = unat i then ids ! ?n else ids ! unat j) = k"
      using True lt by (intro swap_remove_cases[OF inj[OF i n] inj[OF n True] inj[OF i True]]) blast
  qed (use i n in auto)
qed

section \<open>Invariant\<close>

abbreviation slot_id :: "marked_span \<Rightarrow> u64" where
  "slot_id ms \<equiv> raw_span_id (ms_span ms)"

definition mut_slots :: "mutable_span_data \<Rightarrow> marked_span list" where
  "mut_slots m = impl_slots (mu_impl m)"

definition mut_inv :: "mmap_size \<Rightarrow> mutable_span_data \<Rightarrow> bool" where
  "mut_inv sz m \<longleftrightarrow>
     impl_inv sz (mu_impl m) \<and>
     distinct (map slot_id (mut_slots m)) \<and>
     list_all (\<lambda>ms. slot_id ms \<noteq> 0) (mut_slots m) \<and>
     index_matches (mu_index m) (map slot_id (mut_slots m))"

lemma mut_inv_limit: "mut_inv sz m \<Longrightarrow> length (mut_slots m) \<le> max_spans (mmap_config sz)"
  using sdi.slots_limit by (simp add: mut_inv_def mut_slots_def)

lemma mut_inv_index:
  assumes "mut_inv sz m"
  shows "mu_index m k = None \<longleftrightarrow> k \<notin> slot_id ` set (mut_slots m)"
    and "mu_index m k = Some i \<Longrightarrow>
      unat i < length (mut_slots m) \<and> slot_id (mut_slots m ! unat i) = k"
proof -
  have m: "index_matches (mu_index m) (map slot_id (mut_slots m))"
    using assms by (simp add: mut_inv_def)
  have "length (map slot_id (mut_slots m)) \<le> 2048"
    using mut_inv_limit[OF assms] max_spans_bounds(2)[of sz] by simp
  from index_matches_dom[OF m this] show "mu_index m k = None \<longleftrightarrow> k \<notin> slot_id ` set (mut_slots m)"
    by simp
  have "mu_index m k = Some i \<longleftrightarrow>
      unat i < length (map slot_id (mut_slots m)) \<and> map slot_id (mut_slots m) ! unat i = k"
    using m by (rule index_matchesD)
  then have e: "mu_index m k = Some i \<longleftrightarrow>
      unat i < length (mut_slots m) \<and> map slot_id (mut_slots m) ! unat i = k"
    by (simp only: length_map)
  assume "mu_index m k = Some i"
  with e have "unat i < length (mut_slots m)" "map slot_id (mut_slots m) ! unat i = k"
    by blast+
  then show "unat i < length (mut_slots m) \<and> slot_id (mut_slots m ! unat i) = k"
    by simp
qed

lemma nth_key_eq:
  assumes "distinct (map f xs)" "i < length xs" "x \<in> set xs"
  shows "f x = f (xs ! i) \<longleftrightarrow> x = xs ! i"
  using inj_on_eq_iff[of f "set xs" x "xs ! i"] assms by (simp add: distinct_map)

end
