(* ===== verification/Mutable_Refinement.thy ===== *)
theory Mutable_Refinement
  imports Mutable_Span_Data
begin

text \<open>
  The specification of \<^verbatim>\<open>MutableSpanData\<close>, a list of live spans in insertion order bounded
  by the capacity, and the proof that the code refines it: the swap-and-remove array, the
  marks and the index map implement first-in first-out eviction exactly.
\<close>

section \<open>Specification\<close>

type_synonym live_spans = "raw_span list"

definition spec_remove :: "u64 \<Rightarrow> live_spans \<Rightarrow> live_spans" where
  "spec_remove span_id rs = filter (\<lambda>r. raw_span_id r \<noteq> span_id) rs"

definition spec_add :: "mmap_size \<Rightarrow> span \<Rightarrow> live_spans \<Rightarrow> live_spans" where
  "spec_add sz s rs =
     (if sp_span_id s \<in> raw_span_id ` set rs then rs
      else (if length rs = max_spans (mmap_config sz) then tl rs else rs) @ [to_raw_span sz s])"

definition spec_modify :: "u64 \<Rightarrow> (raw_span \<Rightarrow> raw_span) \<Rightarrow> live_spans \<Rightarrow> live_spans" where
  "spec_modify span_id f rs = map (\<lambda>r. if raw_span_id r = span_id then f r else r) rs"

definition live :: "mutable_span_data \<Rightarrow> live_spans" where
  "live m = map ms_span (by_age (mut_slots m))"

abbreviation mut_counter :: "mutable_span_data \<Rightarrow> mark_t" where
  "mut_counter m \<equiv> impl_counter (mu_impl m)"

lemma length_live [simp]: "length (live m) = length (mut_slots m)"
  by (simp add: live_def)

lemma ids_live: "raw_span_id ` set (live m) = slot_id ` set (mut_slots m)"
  by (simp add: live_def image_image)

lemma spec_modify_id: "span_id \<notin> raw_span_id ` set rs \<Longrightarrow> spec_modify span_id f rs = rs"
  by (auto simp: spec_modify_def intro!: map_idI)

lemma spec_remove_id: "span_id \<notin> raw_span_id ` set rs \<Longrightarrow> spec_remove span_id rs = rs"
  by (auto simp: spec_remove_def intro!: filter_True)

section \<open>The oldest span\<close>

lemma oldest_scan_min:
  assumes inv: "impl_inv sz x"
  shows "unat i + n = length (impl_slots x) \<Longrightarrow>
    \<exists>om' oid'. oldest_scan n i om oid x = Inr oid' \<and> om' \<le> om \<and>
      (\<forall>m \<in> set (drop (unat i) (impl_slots x)). om' \<le> ms_mark m) \<and>
      ((om', oid') = (om, oid) \<or>
        (\<exists>m \<in> set (drop (unat i) (impl_slots x)). (om', oid') = (ms_mark m, slot_id m)))"
proof (induction n arbitrary: i om oid)
  case (Suc n)
  let ?xs = "impl_slots x"
  have lt: "unat i < length ?xs" using Suc.prems by simp
  have "length ?xs \<le> 2048"
    using sdi.slots_limit[OF inv] max_spans_bounds(2)[of sz] by simp
  then have i1: "unat (i + 1) = Suc (unat i)"
    using lt by (simp add: unat_plus1_64)
  have d: "drop (unat i) ?xs = ?xs ! unat i # drop (unat (i + 1)) ?xs"
    using lt by (simp add: i1 Cons_nth_drop_Suc)
  let ?m = "?xs ! unat i"
  let ?om = "if ms_mark ?m < om then ms_mark ?m else om"
  let ?oid = "if ms_mark ?m < om then slot_id ?m else oid"
  have step: "oldest_scan (Suc n) i om oid x = oldest_scan n (i + 1) ?om ?oid x"
    using sdi.get_mark_slot[OF inv lt] sdi.get_raw_slot[OF inv lt]
    by (simp add: impl_get_span_id_def)
  from Suc.IH[of "i + 1" ?om ?oid] Suc.prems i1 obtain om' oid' where
    IH: "oldest_scan n (i + 1) ?om ?oid x = Inr oid'" "om' \<le> ?om"
    "\<forall>m \<in> set (drop (unat (i + 1)) ?xs). om' \<le> ms_mark m"
    "(om', oid') = (?om, ?oid) \<or>
      (\<exists>m \<in> set (drop (unat (i + 1)) ?xs). (om', oid') = (ms_mark m, slot_id m))"
    by auto
  have "om' \<le> om" "om' \<le> ms_mark ?m"
    using IH(2) by (auto split: if_splits)
  with IH step show ?case
    unfolding d by (intro exI[of _ om'] exI[of _ oid']) (auto split: if_splits)
qed auto

lemma oldest_span_hd:
  assumes inv: "impl_inv sz x" and ne: "impl_slots x \<noteq> []"
    and ctr: "unat (impl_counter x) + 1 < 2 ^ 64"
  shows "oldest_span x = Inr (slot_id (hd (by_age (impl_slots x))))"
proof -
  let ?xs = "impl_slots x"
  have "unat 0 + unat (impl_count x) = length ?xs"
    using sdi.cnt_slots[OF inv] by simp
  from oldest_scan_min[OF inv this, of "- 1" 0] obtain om' oid' where
    o: "oldest_span x = Inr oid'" "\<forall>m \<in> set ?xs. om' \<le> ms_mark m"
    "(om', oid') = (- 1, 0) \<or> (\<exists>m \<in> set ?xs. (om', oid') = (ms_mark m, slot_id m))"
    by (auto simp: oldest_span_def)
  let ?h = "hd (by_age ?xs)"
  have h: "?h \<in> set ?xs"
    using ne by (metis hd_in_set length_by_age length_0_conv set_by_age)
  have "ms_mark ?h \<le> impl_counter x"
    using sdi.slots_live[OF inv h] by (simp add: live_slot_def)
  moreover have "impl_counter x < - 1"
    using ctr by (simp add: word_less_nat_alt unsigned_minus_1_eq_mask mask_eq_exp_minus_1)
  ultimately have "ms_mark ?h < - 1" by (rule le_less_trans)
  then have "om' \<noteq> - 1" using o(2) h by fastforce
  then obtain m where m: "m \<in> set ?xs" "om' = ms_mark m" "oid' = slot_id m"
    using o(3) by auto
  have "ms_mark m = ms_mark ?h"
    using o(2) h m hd_by_age_least[OF m(1)] by fastforce
  then have "m = ?h"
    using sdi.slots_distinct[OF inv] m(1) h by (simp add: distinct_map inj_on_def)
  with o(1) m show ?thesis by simp
qed

section \<open>Remove\<close>

lemma filter_by_id:
  assumes "distinct (map ms_mark ms)" "distinct (map slot_id ms)" "i < length ms"
  shows "map ms_span (filter (\<lambda>m. ms_mark m \<noteq> ms_mark (ms ! i)) (by_age ms)) =
    spec_remove (slot_id (ms ! i)) (map ms_span (by_age ms))"
proof -
  have "filter (\<lambda>m. ms_mark m \<noteq> ms_mark (ms ! i)) (by_age ms) =
      filter (\<lambda>m. slot_id m \<noteq> slot_id (ms ! i)) (by_age ms)"
  proof (rule filter_cong[OF refl])
    fix m assume "m \<in> set (by_age ms)"
    then have m: "m \<in> set ms" by simp
    show "(ms_mark m \<noteq> ms_mark (ms ! i)) = (slot_id m \<noteq> slot_id (ms ! i))"
      using nth_key_eq[OF assms(1,3) m] nth_key_eq[OF assms(2,3) m] by blast
  qed
  then show ?thesis
    by (simp add: spec_remove_def filter_map comp_def)
qed

lemma mut_remove_refines:
  assumes inv: "mut_inv sz m"
  shows "\<exists>m'. mut_remove span_id m = Inr m' \<and> mut_inv sz m' \<and>
    mut_counter m' = mut_counter m \<and> live m' = spec_remove span_id (live m)"
proof (cases "mu_index m span_id")
  case None
  then have "span_id \<notin> raw_span_id ` set (live m)"
    using mut_inv_index(1)[OF inv] by (simp add: ids_live)
  with None inv show ?thesis
    by (simp add: mut_remove_def spec_remove_id)
next
  case (Some i)
  let ?xs = "impl_slots (mu_impl m)" and ?ids = "map slot_id (impl_slots (mu_impl m))"
  have ii: "impl_inv sz (mu_impl m)" and dist: "distinct ?ids"
    and nz: "list_all (\<lambda>ms. slot_id ms \<noteq> 0) ?xs" and idx: "index_matches (mu_index m) ?ids"
    using inv by (simp_all add: mut_inv_def mut_slots_def)
  have i: "unat i < length ?xs" and id: "slot_id (?xs ! unat i) = span_id"
    using mut_inv_index(2)[OF inv Some] by (simp_all add: mut_slots_def)
  then have ne: "?xs \<noteq> []" by auto
  then have last: "last ?ids = slot_id (last ?xs)" by (simp add: last_map)
  from sdi.remove_age[OF ii i] obtain y where y:
    "impl_remove i (mu_impl m) = Inr (if unat i = length ?xs - 1 then 0 else slot_id (last ?xs), y)"
    "impl_inv sz y" "impl_counter y = impl_counter (mu_impl m)"
    "impl_slots y = swap_remove (unat i) ?xs"
    "by_age (impl_slots y) = filter (\<lambda>ms. ms_mark ms \<noteq> ms_mark (?xs ! unat i)) (by_age ?xs)"
    by blast
  have last_nz: "0 < slot_id (last ?xs)"
    using nz last_in_set[OF ne] by (simp add: list_all_iff word_greater_zero_iff)
  let ?f = "(if unat i = length ?ids - 1 then mu_index m else (mu_index m)(last ?ids \<mapsto> i))
      (?ids ! unat i := None)"
  let ?m' = "m\<lparr>mu_impl := y, mu_index := ?f\<rparr>"
  have "mut_remove span_id m = Inr ?m'"
    using Some y(1) last_nz i id by (simp add: mut_remove_def Let_def last)
  moreover have "mut_inv sz ?m'"
  proof -
    have "index_matches ?f (swap_remove (unat i) ?ids)"
      using idx dist i by (intro index_matches_swap_remove) simp_all
    moreover have "distinct (swap_remove (unat i) ?ids)"
      using dist i by (simp add: distinct_swap_remove(1))
    moreover have "list_all (\<lambda>ms. slot_id ms \<noteq> 0) (swap_remove (unat i) ?xs)"
      using nz set_swap_remove_subset[OF i] by (auto simp: list_all_iff)
    ultimately show ?thesis
      using y(2,4) i by (simp add: mut_inv_def mut_slots_def map_swap_remove)
  qed
  moreover have "live ?m' = spec_remove span_id (live m)"
    using filter_by_id[OF sdi.slots_distinct[OF ii] dist i] y(5) id
    by (simp add: live_def mut_slots_def)
  ultimately show ?thesis using y(3) by auto
qed

section \<open>Add\<close>

lemma spec_remove_hd:
  assumes "distinct (map raw_span_id rs)" "rs \<noteq> []"
  shows "spec_remove (raw_span_id (hd rs)) rs = tl rs"
proof (cases rs)
  case (Cons r rs')
  with assms(1) have "raw_span_id r \<notin> raw_span_id ` set rs'" by simp
  then have "spec_remove (raw_span_id r) rs' = rs'" by (rule spec_remove_id)
  with Cons show ?thesis by (simp add: spec_remove_def)
qed (use assms in simp)

lemma distinct_live: "mut_inv sz m \<Longrightarrow> distinct (map raw_span_id (live m))"
proof -
  assume "mut_inv sz m"
  then have "distinct (map slot_id (mut_slots m))" by (simp add: mut_inv_def)
  moreover have "mset (map slot_id (by_age (mut_slots m))) = mset (map slot_id (mut_slots m))"
    by simp
  ultimately have "distinct (map slot_id (by_age (mut_slots m)))"
    by (metis mset_eq_imp_distinct_iff)
  then show ?thesis by (simp add: live_def comp_def)
qed

lemma hd_live: "mut_slots m \<noteq> [] \<Longrightarrow> hd (live m) = ms_span (hd (by_age (mut_slots m)))"
  by (metis hd_map length_0_conv length_by_age live_def)

text \<open>Appending when there is room keeps the index map exact, whatever the id is.\<close>

lemma impl_add_index:
  assumes ii: "impl_inv sz x" and idx: "index_matches f (map slot_id (impl_slots x))"
    and room: "length (impl_slots x) < max_spans (mmap_config sz)"
    and ctr: "unat (impl_counter x) + 1 < 2 ^ 64"
    and new: "sp_span_id s \<notin> slot_id ` set (impl_slots x)"
  defines "slot \<equiv> \<lparr>ms_mark = impl_counter x + 1, ms_span = to_raw_span sz s\<rparr>"
  shows "\<exists>i y. impl_add s x = Inr (i, y) \<and> impl_inv sz y \<and>
    impl_counter y = impl_counter x + 1 \<and> impl_slots y = impl_slots x @ [slot] \<and>
    by_age (impl_slots y) = by_age (impl_slots x) @ [slot] \<and>
    index_matches (map_insert (sp_span_id s) i f) (map slot_id (impl_slots y))"
proof -
  let ?ids = "map slot_id (impl_slots x)"
  from sdi.add_age[OF ii room ctr, of s] obtain y where y:
    "impl_add s x = Inr (impl_count x, y)" "impl_inv sz y" "impl_counter y = impl_counter x + 1"
    "impl_slots y = impl_slots x @ [slot]" "by_age (impl_slots y) = by_age (impl_slots x) @ [slot]"
    unfolding slot_def by blast
  have lim: "length ?ids \<le> 2048"
    using room max_spans_bounds(2)[of sz] by simp
  have cnt: "impl_count x = of_nat (length ?ids)"
    using sdi.cnt_slots[OF ii] by (metis length_map of_nat_unat_64)
  have new': "sp_span_id s \<notin> set ?ids" using new by simp
  then have "f (sp_span_id s) = None"
    using index_matches_dom[OF idx lim] by simp
  then have "map_insert (sp_span_id s) (impl_count x) f = f(sp_span_id s \<mapsto> of_nat (length ?ids))"
    by (simp add: map_insert_def cnt)
  moreover have "index_matches (f(sp_span_id s \<mapsto> of_nat (length ?ids))) (?ids @ [sp_span_id s])"
    using idx lim new' by (rule index_matches_snoc)
  ultimately show ?thesis
    using y by (simp add: slot_def)
qed

lemma impl_add_refines:
  assumes inv: "mut_inv sz m" and room: "length (live m) < max_spans (mmap_config sz)"
    and ctr: "unat (mut_counter m) + 1 < 2 ^ 64"
    and new: "sp_span_id s \<notin> raw_span_id ` set (live m)" "sp_span_id s \<noteq> 0"
  shows "\<exists>i x. impl_add s (mu_impl m) = Inr (i, x) \<and>
    mut_inv sz (m\<lparr>mu_impl := x, mu_index := map_insert (sp_span_id s) i (mu_index m)\<rparr>) \<and>
    impl_counter x = mut_counter m + 1 \<and>
    map ms_span (by_age (impl_slots x)) = live m @ [to_raw_span sz s]"
proof -
  have inv': "impl_inv sz (mu_impl m)" "index_matches (mu_index m) (map slot_id (impl_slots (mu_impl m)))"
    "distinct (map slot_id (impl_slots (mu_impl m)))"
    "list_all (\<lambda>ms. slot_id ms \<noteq> 0) (impl_slots (mu_impl m))"
    using inv by (simp_all add: mut_inv_def mut_slots_def)
  have "length (impl_slots (mu_impl m)) < max_spans (mmap_config sz)"
    using room by (simp add: mut_slots_def)
  moreover have new': "sp_span_id s \<notin> slot_id ` set (impl_slots (mu_impl m))"
    using new(1) by (simp add: ids_live mut_slots_def)
  ultimately obtain i x where
    "impl_add s (mu_impl m) = Inr (i, x)" "impl_inv sz x" "impl_counter x = mut_counter m + 1"
    "impl_slots x = impl_slots (mu_impl m) @ [\<lparr>ms_mark = mut_counter m + 1, ms_span = to_raw_span sz s\<rparr>]"
    "by_age (impl_slots x) = by_age (impl_slots (mu_impl m)) @
       [\<lparr>ms_mark = mut_counter m + 1, ms_span = to_raw_span sz s\<rparr>]"
    "index_matches (map_insert (sp_span_id s) i (mu_index m)) (map slot_id (impl_slots x))"
    using impl_add_index[OF inv'(1,2) _ ctr] by blast
  then show ?thesis
    using inv'(3,4) new' new(2) by (simp add: mut_inv_def mut_slots_def live_def)
qed

lemma impl_max_count_inv: "impl_inv sz x \<Longrightarrow> impl_max_count x = max_spans (mmap_config sz)"
  by (simp add: impl_max_count_def rsd_max_count_def impl_defs)

lemma mut_evict:
  assumes inv: "mut_inv sz m" and ctr: "unat (mut_counter m) + 1 < 2 ^ 64"
    and full: "length (live m) = max_spans (mmap_config sz)"
  defines "oldest \<equiv> raw_span_id (hd (live m))"
  shows "oldest_span (mu_impl m) = Inr oldest" and "oldest \<noteq> 0"
    and "\<exists>m1. mut_remove oldest m = Inr m1 \<and> mut_inv sz m1 \<and> mut_counter m1 = mut_counter m \<and>
      live m1 = tl (live m)"
proof -
  have "0 < length (mut_slots m)"
    using full max_spans_bounds(1)[of sz] by simp
  then have ne: "mut_slots m \<noteq> []" "live m \<noteq> []"
    by (simp_all add: length_greater_0_conv[symmetric] del: length_greater_0_conv)
  let ?h = "hd (by_age (mut_slots m))"
  have o: "oldest = slot_id ?h" by (simp add: oldest_def hd_live[OF ne(1)])
  have "?h \<in> set (mut_slots m)"
    using ne(1) by (metis hd_in_set length_0_conv length_by_age set_by_age)
  then show "oldest \<noteq> 0"
    using inv by (simp add: o mut_inv_def list_all_iff)
  show "oldest_span (mu_impl m) = Inr oldest"
    using oldest_span_hd[OF conjunct1[OF inv[unfolded mut_inv_def]] _ ctr] ne(1)
    by (simp add: o mut_slots_def)
  show "\<exists>m1. mut_remove oldest m = Inr m1 \<and> mut_inv sz m1 \<and> mut_counter m1 = mut_counter m \<and>
      live m1 = tl (live m)"
    using mut_remove_refines[OF inv, of oldest] spec_remove_hd[OF distinct_live[OF inv] ne(2)]
    by (simp add: oldest_def)
qed

text \<open>An addition first makes room: on a full array it evicts the oldest span.\<close>

lemma mut_make_room:
  assumes inv: "mut_inv sz m" and ctr: "unat (mut_counter m) + 1 < 2 ^ 64"
  shows "\<exists>m1. (if unat (impl_count (mu_impl m)) = impl_max_count (mu_impl m) then
        res_bind (oldest_span (mu_impl m)) (\<lambda>oldest. if oldest \<noteq> 0 then mut_remove oldest m else Inr m)
      else Inr m) = Inr m1 \<and> mut_inv sz m1 \<and> mut_counter m1 = mut_counter m \<and>
    live m1 = (if length (live m) = max_spans (mmap_config sz) then tl (live m) else live m) \<and>
    length (live m1) < max_spans (mmap_config sz)"
proof -
  let ?x = "mu_impl m"
  have ii: "impl_inv sz ?x" using inv by (simp add: mut_inv_def)
  have cnt: "unat (impl_count ?x) = length (live m)"
    using sdi.cnt_slots[OF ii] by (simp add: mut_slots_def)
  have max: "impl_max_count ?x = max_spans (mmap_config sz)"
    using ii by (rule impl_max_count_inv)
  have le: "length (live m) \<le> max_spans (mmap_config sz)" "0 < max_spans (mmap_config sz)"
    using mut_inv_limit[OF inv] max_spans_bounds(1)[of sz] by simp_all
  show ?thesis
  proof (cases "length (live m) = max_spans (mmap_config sz)")
    case True
    from mut_evict[OF inv ctr True] obtain m1 where
      "oldest_span ?x = Inr (raw_span_id (hd (live m)))" "raw_span_id (hd (live m)) \<noteq> 0"
      "mut_remove (raw_span_id (hd (live m))) m = Inr m1" "mut_inv sz m1"
      "mut_counter m1 = mut_counter m" "live m1 = tl (live m)"
      by auto
    moreover from this(6) have "length (live m1) < max_spans (mmap_config sz)" using True le(2) by simp
    ultimately show ?thesis using True cnt max by (simp del: length_live)
  next
    case False
    then have "length (live m) < max_spans (mmap_config sz)" using le(1) by linarith
    then show ?thesis using cnt max inv by simp
  qed
qed

lemma mut_add_refines:
  assumes inv: "mut_inv sz m" and ctr: "unat (mut_counter m) + 1 < 2 ^ 64"
    and nz: "sp_span_id s \<noteq> 0"
  shows "\<exists>m'. mut_add s m = Inr m' \<and> mut_inv sz m' \<and>
    unat (mut_counter m') \<le> unat (mut_counter m) + 1 \<and> live m' = spec_add sz s (live m)"
proof (cases "mu_index m (sp_span_id s)")
  case (Some i)
  then have "sp_span_id s \<in> raw_span_id ` set (live m)"
    using mut_inv_index(1)[OF inv, of "sp_span_id s"] by (simp add: ids_live)
  with Some inv show ?thesis
    by (simp add: mut_add_def spec_add_def)
next
  case None
  let ?x = "mu_impl m"
  have new: "sp_span_id s \<notin> raw_span_id ` set (live m)"
    using None mut_inv_index(1)[OF inv, of "sp_span_id s"] by (simp add: ids_live)
  let ?pruned = "if length (live m) = max_spans (mmap_config sz) then tl (live m) else live m"
  from mut_make_room[OF inv ctr] obtain m1 where m1:
    "(if unat (impl_count ?x) = impl_max_count ?x then
        res_bind (oldest_span ?x) (\<lambda>oldest. if oldest \<noteq> 0 then mut_remove oldest m else Inr m)
      else Inr m) = Inr m1"
    "mut_inv sz m1" "mut_counter m1 = mut_counter m" "live m1 = ?pruned"
    and room: "length (live m1) < max_spans (mmap_config sz)"
    by blast
  have "set (live m1) \<subseteq> set (live m)"
    unfolding m1(4) by (cases "live m") auto
  with new have new1: "sp_span_id s \<notin> raw_span_id ` set (live m1)" by auto
  have ctr1: "unat (mut_counter m1) + 1 < 2 ^ 64" using ctr m1(3) by simp
  from impl_add_refines[OF m1(2) room ctr1 new1 nz] obtain i x where
    "impl_add s (mu_impl m1) = Inr (i, x)"
    "mut_inv sz (m1\<lparr>mu_impl := x, mu_index := map_insert (sp_span_id s) i (mu_index m1)\<rparr>)"
    "impl_counter x = mut_counter m1 + 1"
    "map ms_span (by_age (impl_slots x)) = live m1 @ [to_raw_span sz s]"
    by blast
  with None m1 new ctr show ?thesis
    by (simp add: mut_add_def spec_add_def live_def[of "m1\<lparr>mu_impl := _, mu_index := _\<rparr>"]
        mut_slots_def[of "m1\<lparr>mu_impl := _, mu_index := _\<rparr>"] unat_plus1_64)
qed

section \<open>Setters\<close>

lemma modify_by_id:
  assumes "distinct (map ms_mark ms)" "distinct (map slot_id ms)" "i < length ms"
  shows "map ms_span (by_age (ms[i := (ms ! i)\<lparr>ms_span := f (ms_span (ms ! i))\<rparr>])) =
    spec_modify (slot_id (ms ! i)) f (map ms_span (by_age ms))"
proof -
  let ?m' = "(ms ! i)\<lparr>ms_span := f (ms_span (ms ! i))\<rparr>"
  have "by_age (ms[i := ?m']) = map (\<lambda>m. if ms_mark m = ms_mark (ms ! i) then ?m' else m) (by_age ms)"
    using assms(1,3) by (rule by_age_update) simp
  moreover have "map ms_span (map (\<lambda>m. if ms_mark m = ms_mark (ms ! i) then ?m' else m) (by_age ms)) =
      spec_modify (slot_id (ms ! i)) f (map ms_span (by_age ms))"
    unfolding spec_modify_def map_map
  proof (rule map_cong[OF refl])
    fix m assume "m \<in> set (by_age ms)"
    then have m: "m \<in> set ms" by simp
    show "(ms_span \<circ> (\<lambda>m. if ms_mark m = ms_mark (ms ! i) then ?m' else m)) m =
        ((\<lambda>r. if raw_span_id r = slot_id (ms ! i) then f r else r) \<circ> ms_span) m"
      using nth_key_eq[OF assms(1,3) m] nth_key_eq[OF assms(2,3) m] by auto
  qed
  ultimately show ?thesis by simp
qed

lemma mut_modify_refines:
  assumes inv: "mut_inv sz m" and idx: "mu_index m span_id = Some i"
    and x: "impl_inv sz x" "impl_slots x = (mut_slots m)[unat i :=
      (mut_slots m ! unat i)\<lparr>ms_span := f (ms_span (mut_slots m ! unat i))\<rparr>]"
    and f: "\<And>r. raw_span_id (f r) = raw_span_id r"
  shows "mut_inv sz (m\<lparr>mu_impl := x\<rparr>)" "live (m\<lparr>mu_impl := x\<rparr>) = spec_modify span_id f (live m)"
proof -
  have i: "unat i < length (mut_slots m)" and id: "slot_id (mut_slots m ! unat i) = span_id"
    using mut_inv_index(2)[OF inv idx] by simp_all
  have ii: "impl_inv sz (mu_impl m)" and dist: "distinct (map slot_id (mut_slots m))"
    using inv by (simp_all add: mut_inv_def)
  have ids: "map slot_id (impl_slots x) = map slot_id (mut_slots m)"
    using i by (simp add: x(2) map_update f) (metis list_update_id map_update)
  have "list_all (\<lambda>k. k \<noteq> 0) (map slot_id (impl_slots x))"
    unfolding ids using inv by (simp add: mut_inv_def list.pred_map comp_def)
  then have "list_all (\<lambda>ms. slot_id ms \<noteq> 0) (impl_slots x)"
    by (simp add: list.pred_map comp_def)
  then show "mut_inv sz (m\<lparr>mu_impl := x\<rparr>)"
    using x(1) inv ids by (simp add: mut_inv_def mut_slots_def)
  have "distinct (map ms_mark (mut_slots m))"
    using sdi.slots_distinct[OF ii] by (simp add: mut_slots_def)
  from modify_by_id[OF this dist i, of f] id
  show "live (m\<lparr>mu_impl := x\<rparr>) = spec_modify span_id f (live m)"
    by (simp add: live_def mut_slots_def[of "m\<lparr>mu_impl := x\<rparr>"] x(2))
qed

lemma mut_not_live:
  "mut_inv sz m \<Longrightarrow> mu_index m span_id = None \<Longrightarrow> span_id \<notin> raw_span_id ` set (live m)"
  using mut_inv_index(1) by (simp add: ids_live)

lemma mut_end_refines:
  assumes inv: "mut_inv sz m"
  shows "\<exists>m'. mut_end now span_id t m = Inr m' \<and> mut_inv sz m' \<and>
    mut_counter m' = mut_counter m \<and>
    live m' = spec_modify span_id (\<lambda>r. r\<lparr>raw_end_time := (if t = 0 then now else t)\<rparr>) (live m)"
proof (cases "mu_index m span_id")
  case None
  with inv mut_not_live[OF inv None] show ?thesis
    by (simp add: mut_end_def spec_modify_id)
next
  case (Some i)
  have ii: "impl_inv sz (mu_impl m)" using inv by (simp add: mut_inv_def)
  have i: "unat i < length (impl_slots (mu_impl m))"
    using mut_inv_index(2)[OF inv Some] by (simp add: mut_slots_def)
  let ?t = "if t = 0 then now else t"
  from sdi.end_slots[OF ii i, of ?t] obtain x where x:
    "impl_set_end_time i ?t (mu_impl m) = Inr x" "impl_inv sz x"
    "impl_counter x = mut_counter m"
    "impl_slots x = (mut_slots m)[unat i := (mut_slots m ! unat i)
        \<lparr>ms_span := (ms_span (mut_slots m ! unat i))\<lparr>raw_end_time := ?t\<rparr>\<rparr>]"
    unfolding mut_slots_def by blast
  have "mut_end now span_id t m = Inr (m\<lparr>mu_impl := x\<rparr>)"
    using Some x(1) by (simp add: mut_end_def Let_def)
  then show ?thesis
    using mut_modify_refines[where f = "\<lambda>r. r\<lparr>raw_end_time := ?t\<rparr>", OF inv Some x(2,4)] x(3)
    by simp
qed

lemma mut_set_attribute_refines:
  assumes inv: "mut_inv sz m"
  shows "\<exists>m'. mut_set_attribute_on_span span_id k v m = Inr m' \<and> mut_inv sz m' \<and>
    mut_counter m' = mut_counter m \<and>
    live m' = spec_modify span_id (with_attribute sz k v) (live m)"
proof (cases "mu_index m span_id")
  case None
  with inv mut_not_live[OF inv None] show ?thesis
    by (simp add: mut_set_attribute_on_span_def spec_modify_id)
next
  case (Some i)
  have ii: "impl_inv sz (mu_impl m)" using inv by (simp add: mut_inv_def)
  have i: "unat i < length (impl_slots (mu_impl m))"
    using mut_inv_index(2)[OF inv Some] by (simp add: mut_slots_def)
  from sdi.attribute_slots[OF ii i, of k v] obtain j x where x:
    "impl_set_attribute_on_span i k v (mu_impl m) = Inr (j, x)" "impl_inv sz x"
    "impl_counter x = mut_counter m"
    "impl_slots x = (mut_slots m)[unat i := (mut_slots m ! unat i)
        \<lparr>ms_span := with_attribute sz k v (ms_span (mut_slots m ! unat i))\<rparr>]"
    unfolding mut_slots_def by blast
  have "mut_set_attribute_on_span span_id k v m = Inr (m\<lparr>mu_impl := x\<rparr>)"
    using Some x(1) by (simp add: mut_set_attribute_on_span_def)
  then show ?thesis
    using mut_modify_refines[where f = "with_attribute sz k v", OF inv Some x(2,4)] x(3) by simp
qed

section \<open>Runs\<close>

text \<open>The calls a process makes on its writer, and the runs of both levels.\<close>

datatype mutable_op =
    Op_Add span
  | Op_Remove u64
  | Op_End u64 u64 u64
  | Op_Set_Attribute u64 bytes bytes

fun mut_step :: "mutable_op \<Rightarrow> mutable_span_data \<Rightarrow> mutable_span_data res" where
  "mut_step (Op_Add s) m = mut_add s m"
| "mut_step (Op_Remove span_id) m = mut_remove span_id m"
| "mut_step (Op_End now span_id end_time) m = mut_end now span_id end_time m"
| "mut_step (Op_Set_Attribute span_id key value) m = mut_set_attribute_on_span span_id key value m"

fun mut_run :: "mutable_op list \<Rightarrow> mutable_span_data \<Rightarrow> mutable_span_data res" where
  "mut_run [] m = Inr m"
| "mut_run (op # ops) m = res_bind (mut_step op m) (mut_run ops)"

fun spec_step :: "mmap_size \<Rightarrow> mutable_op \<Rightarrow> live_spans \<Rightarrow> live_spans" where
  "spec_step sz (Op_Add s) rs = spec_add sz s rs"
| "spec_step sz (Op_Remove span_id) rs = spec_remove span_id rs"
| "spec_step sz (Op_End now span_id t) rs =
     spec_modify span_id (\<lambda>r. r\<lparr>raw_end_time := (if t = 0 then now else t)\<rparr>) rs"
| "spec_step sz (Op_Set_Attribute span_id key value) rs =
     spec_modify span_id (with_attribute sz key value) rs"

fun spec_run :: "mmap_size \<Rightarrow> mutable_op list \<Rightarrow> live_spans \<Rightarrow> live_spans" where
  "spec_run sz [] rs = rs"
| "spec_run sz (op # ops) rs = spec_run sz ops (spec_step sz op rs)"

text \<open>The public constructor of \<^verbatim>\<open>Span\<close> rejects the span id zero.\<close>

fun valid_op :: "mutable_op \<Rightarrow> bool" where
  "valid_op (Op_Add s) = (sp_span_id s \<noteq> 0)"
| "valid_op _ = True"

lemma mut_step_refines:
  assumes "mut_inv sz m" "valid_op op" "unat (mut_counter m) + 1 < 2 ^ 64"
  shows "\<exists>m'. mut_step op m = Inr m' \<and> mut_inv sz m' \<and>
    unat (mut_counter m') \<le> unat (mut_counter m) + 1 \<and> live m' = spec_step sz op (live m)"
proof (cases op)
  case (Op_Add s)
  then show ?thesis using mut_add_refines[OF assms(1,3), of s] assms(2) by simp
next
  case (Op_Remove span_id)
  then show ?thesis using mut_remove_refines[OF assms(1), of span_id] by auto
next
  case (Op_End now span_id t)
  then show ?thesis using mut_end_refines[OF assms(1), of now span_id t] by auto
next
  case (Op_Set_Attribute span_id k v)
  then show ?thesis using mut_set_attribute_refines[OF assms(1), of span_id k v] by auto
qed

lemma mut_run_refines:
  assumes "mut_inv sz m" "list_all valid_op ops" "unat (mut_counter m) + length ops < 2 ^ 64"
  shows "\<exists>m'. mut_run ops m = Inr m' \<and> mut_inv sz m' \<and>
    unat (mut_counter m') \<le> unat (mut_counter m) + length ops \<and>
    live m' = spec_run sz ops (live m)"
  using assms
proof (induction ops arbitrary: m)
  case (Cons op ops)
  then obtain m1 where m1: "mut_step op m = Inr m1" "mut_inv sz m1"
    "unat (mut_counter m1) \<le> unat (mut_counter m) + 1" "live m1 = spec_step sz op (live m)"
    using mut_step_refines[OF Cons.prems(1), of op] by auto
  from Cons.IH[OF m1(2)] Cons.prems m1(3) obtain m2 where
    "mut_run ops m1 = Inr m2" "mut_inv sz m2"
    "unat (mut_counter m2) \<le> unat (mut_counter m1) + length ops"
    "live m2 = spec_run sz ops (live m1)"
    by auto
  with m1 show ?case by auto
qed simp

text \<open>A fresh writer over a cleared layout.\<close>

lemma live_new [simp]: "impl_slots x = [] \<Longrightarrow> live (mut_new x) = []"
  by (simp add: live_def mut_slots_def mut_new_def by_age_def)

lemma mut_inv_new: "impl_inv sz x \<Longrightarrow> impl_slots x = [] \<Longrightarrow> mut_inv sz (mut_new x)"
  by (simp add: mut_inv_def mut_new_def mut_slots_def index_matches_empty)

text \<open>New spans on a writer with room for all of them are simply appended.\<close>

lemma spec_run_adds:
  "distinct (map raw_span_id rs @ map sp_span_id ss) \<Longrightarrow>
     length rs + length ss \<le> max_spans (mmap_config sz) \<Longrightarrow>
     spec_run sz (map Op_Add ss) rs = rs @ map (to_raw_span sz) ss"
proof (induction ss arbitrary: rs)
  case (Cons s ss)
  then have "spec_add sz s rs = rs @ [to_raw_span sz s]"
    by (auto simp: spec_add_def)
  with Cons show ?case by simp
qed simp

lemma mut_count_live: "mut_inv sz m \<Longrightarrow> unat (mut_count m) = length (live m)"
  by (auto simp: mut_inv_def mut_count_def mut_slots_def intro: sdi.cnt_slots)

end
