(* ===== verification/Recovery.thy ===== *)
theory Recovery
  imports Mutable_Refinement
begin

text \<open>
  The recovery loop of \<^verbatim>\<open>initialize.cpp\<close> (lines 126 to 131): every slot below the active count
  whose mark is set is read back as a span. What it returns is a function of the layout:
  the marked spans below the count, in slot order.
\<close>

section \<open>The loop\<close>

text \<open>\<open>n\<close> iterations remain, from index \<open>i\<close> on; \<open>acc\<close> is \<^verbatim>\<open>recovered_spans\<close> so far.\<close>

fun recover_loop :: "nat \<Rightarrow> index_t \<Rightarrow> recovered_span_data \<Rightarrow> span list \<Rightarrow> span list res" where
  "recover_loop 0 i r acc = Inr acc"
| "recover_loop (Suc n) i r acc =
     res_bind (recovered_get_mark i r) (\<lambda>mark.
       if mark \<noteq> 0 then
         res_bind (recovered_get i r) (\<lambda>s. recover_loop n (i + 1) r (acc @ [s]))
       else recover_loop n (i + 1) r acc)"

definition recover_spans :: "span_data_impl \<Rightarrow> span list res" where
  "recover_spans x =
     (let r = Recovered_Span_Data x in recover_loop (unat (recovered_count r)) 0 r [])"

section \<open>What it returns\<close>

definition recoverable :: "memory_layout \<Rightarrow> raw_span list" where
  "recoverable l = map ms_span (filter (\<lambda>m. ms_mark m \<noteq> 0) (active l))"

lemma recoverable_live:
  "layout_inv sz c l \<Longrightarrow> recoverable l = map ms_span (active l)"
proof -
  assume "layout_inv sz c l"
  then have "\<forall>m \<in> set (active l). ms_mark m \<noteq> 0"
    by (simp add: layout_inv_def list_all_iff live_slot_def word_greater_zero_iff)
  then have "filter (\<lambda>m. ms_mark m \<noteq> 0) (active l) = active l"
    by (rule filter_True)
  then show ?thesis by (simp add: recoverable_def)
qed

lemma recover_loop_eq:
  assumes len: "length (ml_marked_spans l) = max_spans (mmap_config sz)"
  shows "unat i + n \<le> max_spans (mmap_config sz) \<Longrightarrow>
    recover_loop n i (Recovered_Span_Data (impl_of sz \<lparr>rd_layout = l, rd_mark_counter = c\<rparr>)) acc =
      res_map (\<lambda>ss. acc @ ss) (res_list span_of_raw
        (map ms_span (filter (\<lambda>m. ms_mark m \<noteq> 0) (take n (drop (unat i) (ml_marked_spans l))))))"
proof (induction n arbitrary: i acc)
  case (Suc n)
  let ?m = "ml_marked_spans l ! unat i"
  have lt: "unat i < max_spans (mmap_config sz)" using Suc.prems by simp
  then have i1: "unat (i + 1) = Suc (unat i)"
    using max_spans_bounds(2)[of sz] by (simp add: unat_plus1_64)
  have d: "take (Suc n) (drop (unat i) (ml_marked_spans l)) =
      ?m # take n (drop (unat (i + 1)) (ml_marked_spans l))"
    using lt len by (simp add: i1 Cons_nth_drop_Suc[symmetric])
  have IH: "recover_loop n (i + 1) (Recovered_Span_Data (impl_of sz \<lparr>rd_layout = l, rd_mark_counter = c\<rparr>)) acc' =
      res_map (\<lambda>ss. acc' @ ss) (res_list span_of_raw
        (map ms_span (filter (\<lambda>m. ms_mark m \<noteq> 0) (take n (drop (unat (i + 1)) (ml_marked_spans l))))))"
    for acc'
    using Suc.prems i1 by (intro Suc.IH) simp
  show ?case
  proof (cases "ms_mark ?m = 0")
    case True
    then show ?thesis
      unfolding d using lt
      by (simp add: IH recovered_get_mark_def impl_get_mark_def visit_eq rsd_get_mark_def
          rsd_max_count_def)
  next
    case False
    show ?thesis
    proof (cases "span_of_raw (ms_span ?m)")
      case (Inl e)
      with False lt show ?thesis
        unfolding d
        by (simp add: recovered_get_mark_def impl_get_mark_def recovered_get_def impl_get_def
            visit_eq rsd_get_mark_def rsd_get_def rsd_max_count_def word_greater_zero_iff)
    next
      case (Inr s)
      have "res_map (\<lambda>ss. (acc @ [s]) @ ss) q = res_map (\<lambda>ss. acc @ ss) (res_map (\<lambda>ys. s # ys) q)" for q
        by (cases q) simp_all
      with False lt Inr show ?thesis
        unfolding d
        by (simp add: IH recovered_get_mark_def impl_get_mark_def recovered_get_def impl_get_def
            visit_eq rsd_get_mark_def rsd_get_def rsd_max_count_def word_greater_zero_iff)
    qed
  qed
qed simp

lemma recover_spans_eq:
  assumes "length (ml_marked_spans l) = max_spans (mmap_config sz)"
    and "unat (active_count l) \<le> max_spans (mmap_config sz)"
  shows "recover_spans (impl_of sz \<lparr>rd_layout = l, rd_mark_counter = c\<rparr>) =
    res_list span_of_raw (recoverable l)"
proof -
  have c: "recovered_count (Recovered_Span_Data (impl_of sz \<lparr>rd_layout = l, rd_mark_counter = c\<rparr>))
      = active_count l"
    by (simp add: recovered_count_def impl_count_def visit_eq rsd_count_def)
  have "res_map (\<lambda>ss. [] @ ss) q = q" for q :: "span list res"
    by (cases q) simp_all
  then show ?thesis
    using recover_loop_eq[OF assms(1), of 0 "unat (active_count l)" c "[]"] assms(2)
    by (simp add: recover_spans_def c recoverable_def active_def)
qed

text \<open>
  Clean spans are all read back, in order, with their ids.
\<close>

lemma recover_clean:
  assumes "wf_layout sz l" "unat (active_count l) \<le> max_spans (mmap_config sz)"
    and "list_all (clean_raw_span sz) (recoverable l)"
  shows "\<exists>ss. recover_spans (impl_of sz \<lparr>rd_layout = l, rd_mark_counter = c\<rparr>) = Inr ss \<and>
    list_all2 (\<lambda>r s. span_of_raw r = Inr s) (recoverable l) ss \<and>
    map sp_span_id ss = map raw_span_id (recoverable l)"
proof -
  have "\<exists>ss. res_list span_of_raw rs = Inr ss \<and> list_all2 (\<lambda>r s. span_of_raw r = Inr s) rs ss \<and>
      map sp_span_id ss = map raw_span_id rs" if "list_all (clean_raw_span sz) rs" for rs
    using that
  proof (induction rs)
    case (Cons r rs)
    then obtain s ss where "span_of_raw r = Inr s" "sp_span_id s = raw_span_id r"
      "res_list span_of_raw rs = Inr ss" "list_all2 (\<lambda>r s. span_of_raw r = Inr s) rs ss"
      "map sp_span_id ss = map raw_span_id rs"
      using span_of_raw_total by fastforce
    then show ?case by simp
  qed simp
  moreover have "length (ml_marked_spans l) = max_spans (mmap_config sz)"
    using assms(1) by (simp add: wf_layout_def)
  ultimately show ?thesis
    using recover_spans_eq[OF _ assms(2)] assms(3) by metis
qed

text \<open>A count beyond the array sends the loop outside it, unless an earlier read faults.\<close>

lemma recover_loop_overrun:
  assumes len: "length (ml_marked_spans l) = max_spans (mmap_config sz)"
    and over: "max_spans (mmap_config sz) < unat i + n" "unat i \<le> max_spans (mmap_config sz)"
  shows "\<exists>e. recover_loop n i
    (Recovered_Span_Data (impl_of sz \<lparr>rd_layout = l, rd_mark_counter = c\<rparr>)) acc = Inl e"
  using over
proof (induction n arbitrary: i acc)
  case (Suc n)
  show ?case
  proof (cases "unat i < max_spans (mmap_config sz)")
    case True
    then have i1: "unat (i + 1) = Suc (unat i)"
      using max_spans_bounds(2)[of sz] by (simp add: unat_plus1_64)
    have IH: "\<exists>e. recover_loop n (i + 1)
      (Recovered_Span_Data (impl_of sz \<lparr>rd_layout = l, rd_mark_counter = c\<rparr>)) acc' = Inl e" for acc'
      using Suc.prems True i1 by (intro Suc.IH) simp_all
    show ?thesis
    proof (cases "recovered_get i (Recovered_Span_Data (impl_of sz \<lparr>rd_layout = l, rd_mark_counter = c\<rparr>))")
      case (Inr s)
      with IH[of acc] IH[of "acc @ [s]"] True show ?thesis
        by (simp add: recovered_get_mark_def impl_get_mark_def visit_eq rsd_get_mark_def
            rsd_max_count_def)
    next
      case (Inl e)
      with IH[of acc] True show ?thesis
        by (simp add: recovered_get_mark_def impl_get_mark_def visit_eq rsd_get_mark_def
            rsd_max_count_def)
    qed
  next
    case False
    then show ?thesis
      by (simp add: recovered_get_mark_def impl_get_mark_def visit_eq rsd_get_mark_def
          rsd_max_count_def)
  qed
qed simp

lemma recover_spans_overrun:
  assumes "length (ml_marked_spans l) = max_spans (mmap_config sz)"
    and "max_spans (mmap_config sz) < unat (active_count l)"
  shows "\<exists>e. recover_spans (impl_of sz \<lparr>rd_layout = l, rd_mark_counter = c\<rparr>) = Inl e"
  using recover_loop_overrun[OF assms(1), of 0 "unat (active_count l)" c "[]"] assms(2)
  by (simp add: recover_spans_def Let_def recovered_count_def impl_count_def visit_eq rsd_count_def)

end
