(* ===== verification/Crash_Steps.thy ===== *)
theory Crash_Steps
  imports Recovery
begin

text \<open>
  Crashes. An operation is a list of stores; a process that dies leaves the layout between
  two of them, or in the middle of one. Scalar 8-byte stores are atomic here (\<open>Crash_Words\<close>
  splits them); a \<^verbatim>\<open>memset\<close> or
  \<^verbatim>\<open>memcpy\<close> of a text buffer can have written any subset of its bytes; an interrupted copy
  of a whole raw span, or of the whole array, can have left anything of the right shape.
  The mapping is shared with the file, so the stores the process made survive it, in
  program order.
\<close>

section \<open>Interrupted stores\<close>

definition torn_bytes :: "bytes \<Rightarrow> bytes \<Rightarrow> bytes \<Rightarrow> bool" where
  "torn_bytes old new mid \<longleftrightarrow> length mid = length old \<and> length new = length old \<and>
     list_all (\<lambda>j. mid ! j = old ! j \<or> mid ! j = new ! j) [0..<length old]"

inductive torn :: "mmap_size \<Rightarrow> store \<Rightarrow> memory_layout \<Rightarrow> memory_layout \<Rightarrow> bool" where
  torn_span: "wf_raw_span sz r' \<Longrightarrow> torn sz (Store_Span i r) l (upd_span i (\<lambda>_. r') l)"
| torn_key: "torn_bytes (attr_key (raw_attributes (slot_span l i) ! j)) b mid \<Longrightarrow>
    torn sz (Store_Attr_Key i j b) l (exec_store sz (Store_Attr_Key i j mid) l)"
| torn_value: "torn_bytes (attr_value (raw_attributes (slot_span l i) ! j)) b mid \<Longrightarrow>
    torn sz (Store_Attr_Value i j b) l (exec_store sz (Store_Attr_Value i j mid) l)"
| torn_clear: "length ms = length (ml_marked_spans l) \<Longrightarrow>
    list_all (\<lambda>m. wf_raw_span sz (ms_span m)) ms \<Longrightarrow>
    torn sz Store_Clear_Spans l (l\<lparr>ml_marked_spans := ms\<rparr>)"

inductive crash_image :: "mmap_size \<Rightarrow> store list \<Rightarrow> memory_layout \<Rightarrow> memory_layout \<Rightarrow> bool" where
  crash_between: "crash_image sz ss l l"
| crash_within: "torn sz s l l' \<Longrightarrow> crash_image sz (s # ss) l l'"
| crash_after: "crash_image sz ss (exec_store sz s l) l' \<Longrightarrow> crash_image sz (s # ss) l l'"

inductive_cases crash_image_NilE: "crash_image sz [] l l'"
inductive_cases crash_image_ConsE: "crash_image sz (s # ss) l l'"

inductive_simps torn_scalar_simps:
  "torn sz (Store_Mark i w) l l'"
  "torn sz (Store_Count w) l l'"
  "torn sz (Store_End_Time i w) l l'"
  "torn sz (Store_Attr_Count i w) l l'"
  "torn sz (Store_Signature w) l l'"
  "torn sz (Store_Version w) l l'"
  "torn sz (Store_Mmap_Size w) l l'"

inductive_simps torn_block_simps:
  "torn sz (Store_Span i r) l l'"
  "torn sz (Store_Attr_Key i j b) l l'"
  "torn sz (Store_Attr_Value i j b) l l'"
  "torn sz Store_Clear_Spans l l'"

lemma crash_image_Nil: "crash_image sz [] l l' \<longleftrightarrow> l' = l"
  by (auto elim: crash_image_NilE intro: crash_between)

lemma crash_image_Cons:
  "crash_image sz (s # ss) l l' \<longleftrightarrow>
     l' = l \<or> torn sz s l l' \<or> crash_image sz ss (exec_store sz s l) l'"
  by (auto elim: crash_image_ConsE intro: crash_image.intros)

lemmas crash_cases = crash_image_Cons crash_image_Nil torn_scalar_simps

lemma crash_image_append:
  "crash_image sz (ss @ ts) l l' \<longleftrightarrow>
     crash_image sz ss l l' \<or> crash_image sz ts (exec_stores sz ss l) l'"
proof (induction ss arbitrary: l)
  case Nil
  then show ?case by (auto simp: crash_image_Nil intro: crash_between)
next
  case (Cons s ss)
  then show ?case by (auto simp: crash_image_Cons)
qed

lemma crash_image_done: "crash_image sz ss l (exec_stores sz ss l)"
  by (induction ss arbitrary: l) (auto intro: crash_image.intros)

text \<open>Whatever a crash leaves has the shape of a layout.\<close>

lemma torn_wf: "torn sz s l l' \<Longrightarrow> wf_layout sz l \<Longrightarrow> wf_store sz s \<Longrightarrow> wf_layout sz l'"
proof (induction rule: torn.induct)
  case (torn_span sz r' i r l)
  then show ?case by (intro wf_intros)
next
  case (torn_key l i j b mid sz)
  then show ?case by (intro wf_exec_store) (simp_all add: torn_bytes_def)
next
  case (torn_value l i j b mid sz)
  then show ?case by (intro wf_exec_store) (simp_all add: torn_bytes_def)
next
  case (torn_clear ms l sz)
  then show ?case by (simp add: wf_layout_def)
qed

lemma crash_image_wf:
  "crash_image sz ss l l' \<Longrightarrow> wf_layout sz l \<Longrightarrow> list_all (wf_store sz) ss \<Longrightarrow> wf_layout sz l'"
proof (induction rule: crash_image.induct)
  case (crash_within sz s l l' ss)
  then show ?case by (auto intro: torn_wf)
next
  case (crash_after sz ss s l l')
  then show ?case by (auto intro: wf_exec_store)
qed simp

section \<open>Interrupted text\<close>

text \<open>
  A buffer some of whose bytes have been zeroed, or a zeroed buffer some of whose bytes
  have been filled: it is terminated, and it reads as a prefix of the whole text.
\<close>

lemma torn_text:
  assumes "length mid = length buf" "0 \<in> set buf"
    and "\<And>j. j < length buf \<Longrightarrow> mid ! j = buf ! j \<or> mid ! j = 0"
  shows "0 \<in> set mid" "prefix (text_of mid) (text_of buf)"
proof -
  from assms have "0 \<in> set mid \<and> prefix (text_of mid) (text_of buf)"
  proof (induction mid arbitrary: buf)
    case (Cons m mid)
    then obtain b bs where buf: "buf = b # bs" by (cases buf) auto
    have step: "\<And>j. j < length bs \<Longrightarrow> mid ! j = bs ! j \<or> mid ! j = 0"
      using Cons.prems(3) buf by (metis Suc_less_eq length_Cons nth_Cons_Suc)
    have hd: "m = b \<or> m = 0" using Cons.prems(3)[of 0] buf by simp
    show ?case
    proof (cases "m = 0")
      case False
      with hd have "m = b" by simp
      with False Cons.prems(1,2) buf Cons.IH[of bs] step show ?thesis
        by (auto simp: text_of_def)
    qed (simp add: text_of_def)
  qed simp
  then show "0 \<in> set mid" "prefix (text_of mid) (text_of buf)" by simp_all
qed

lemma torn_zeroing:
  assumes "torn_bytes buf (copy_zeroed N buf) mid" "length buf = N" "0 \<in> set buf"
  shows "length mid = N" "0 \<in> set mid" "prefix (text_of mid) (text_of buf)"
proof -
  have "\<And>j. j < length buf \<Longrightarrow> mid ! j = buf ! j \<or> mid ! j = 0"
    using assms(1,2) by (auto simp: torn_bytes_def list_all_iff copy_zeroed_def mem_set_def)
  then show "length mid = N" "0 \<in> set mid" "prefix (text_of mid) (text_of buf)"
    using torn_text[of mid buf] assms by (simp_all add: torn_bytes_def)
qed

lemma torn_filling:
  assumes "torn_bytes (copy_zeroed N buf) (copy_filled N src (copy_zeroed N buf)) mid"
    and "length buf = N" "0 < N"
  shows "length mid = N" "0 \<in> set mid" "prefix (text_of mid) (kept_text N src)"
proof -
  let ?new = "copy_string N src buf"
  have c: "c_str ?new = Inr (kept_text N src)"
    using assms(2,3) by (simp add: c_str_copy_string kept_text_def)
  then have z: "0 \<in> set ?new" by (auto simp: c_str_def split: if_splits)
  have len: "length mid = length ?new" using assms by (simp add: torn_bytes_def)
  have "torn_bytes (copy_zeroed N buf) ?new mid"
    using assms(1) by (simp add: copy_string_stages)
  then have "torn_bytes (replicate N 0) ?new mid"
    using assms(2) by (simp add: copy_zeroed_def mem_set_all)
  then have "\<And>j. j < length ?new \<Longrightarrow> mid ! j = ?new ! j \<or> mid ! j = 0"
    by (auto simp: torn_bytes_def list_all_iff)
  from torn_text[OF len z this] text_of_c_str[OF c] len assms(2,3)
  show "length mid = N" "0 \<in> set mid" "prefix (text_of mid) (kept_text N src)"
    by simp_all
qed

end
