(* ===== verification/Crash_Safety.thy ===== *)
theory Crash_Safety
  imports Crash_Steps
begin

text \<open>
  What the next start recovers after a crash inside an operation. Adding loses the new span
  or keeps it whole; removing keeps every other span, at worst the last one twice; setting
  an attribute leaves every other attribute and span alone. Everything recovered is clean,
  so recovery itself cannot fault.
\<close>

section \<open>Recoverable spans of an updated layout\<close>

lemma filter_update_drop:
  "list_all P xs \<Longrightarrow> i < length xs \<Longrightarrow> \<not> P y \<Longrightarrow> filter P (xs[i := y]) = take i xs @ drop (Suc i) xs"
proof (induction xs arbitrary: i)
  case (Cons x xs)
  then show ?case by (cases i) (auto simp: list_all_iff intro!: filter_True)
qed simp

lemma filter_update_keep:
  "list_all P xs \<Longrightarrow> P y \<Longrightarrow> filter P (xs[i := y]) = xs[i := y]"
  by (rule filter_True) (auto simp: list_all_iff dest!: set_update_subset_insert[THEN subsetD])

definition all_marked :: "memory_layout \<Rightarrow> bool" where
  "all_marked l \<longleftrightarrow> list_all (\<lambda>m. ms_mark m \<noteq> 0) (active l) \<and>
     unat (active_count l) \<le> length (ml_marked_spans l)"

lemma all_marked_inv: "layout_inv sz c l \<Longrightarrow> all_marked l"
  by (auto simp: all_marked_def layout_inv_def wf_layout_def list_all_iff live_slot_def
      word_greater_zero_iff)

lemma recoverable_all: "all_marked l \<Longrightarrow> recoverable l = map ms_span (active l)"
  unfolding recoverable_def all_marked_def
  by (subst filter_True) (auto simp: list_all_iff)

lemma active_upd_slot:
  "active (upd_slot i f l) = (active l)[i := f (ml_marked_spans l ! i)]"
  by (simp add: active_def upd_slot_def take_update_swap)

lemma recoverable_upd_beyond:
  "unat (active_count l) \<le> i \<Longrightarrow> recoverable (upd_slot i f l) = recoverable l"
  by (simp add: recoverable_def active_def upd_slot_def)

lemma recoverable_upd_unmark:
  assumes "all_marked l" "i < unat (active_count l)" "ms_mark (f (ml_marked_spans l ! i)) = 0"
  shows "recoverable (upd_slot i f l) = take i (recoverable l) @ drop (Suc i) (recoverable l)"
proof -
  have i: "i < length (active l)"
    using assms(1,2) by (simp add: all_marked_def active_def)
  have m: "list_all (\<lambda>m. ms_mark m \<noteq> 0) (active l)"
    using assms(1) by (simp add: all_marked_def)
  show ?thesis
    using filter_update_drop[OF m i, of "f (ml_marked_spans l ! i)"] assms(3)
    by (simp add: recoverable_all[OF assms(1)] take_map drop_map)
      (simp add: recoverable_def active_upd_slot)
qed

lemma recoverable_upd_marked:
  assumes "all_marked l" "ms_mark (f (ml_marked_spans l ! i)) \<noteq> 0"
  shows "all_marked (upd_slot i f l)"
    and "recoverable (upd_slot i f l) = (recoverable l)[i := ms_span (f (ml_marked_spans l ! i))]"
proof -
  have m: "list_all (\<lambda>m. ms_mark m \<noteq> 0) (active l)"
    using assms(1) by (simp add: all_marked_def)
  show "recoverable (upd_slot i f l) = (recoverable l)[i := ms_span (f (ml_marked_spans l ! i))]"
    using filter_update_keep[OF m, of "f (ml_marked_spans l ! i)" i] assms(2)
    by (simp add: recoverable_all[OF assms(1)] map_update[symmetric])
      (simp add: recoverable_def active_upd_slot)
  show "all_marked (upd_slot i f l)"
    using assms m by (auto simp: all_marked_def active_upd_slot intro!: list_all_update)
      (simp_all add: upd_slot_def)
qed

lemma recoverable_shrink:
  assumes "active_count l \<noteq> 0" "unat (active_count l) \<le> length (ml_marked_spans l)"
    and "slot_mark l (unat (active_count l - 1)) = 0"
  shows "recoverable (upd_header (\<lambda>h. h\<lparr>h_active_span_count := active_count l - 1\<rparr>) l) = recoverable l"
proof -
  let ?n = "unat (active_count l - 1)"
  have n: "unat (active_count l) = Suc ?n"
    using assms(1) by (simp add: unat_minus1_64) (metis Suc_pred unat_gt_0)
  then have "active l = take ?n (ml_marked_spans l) @ [ml_marked_spans l ! ?n]"
    using assms(2) by (simp add: active_def take_Suc_conv_app_nth)
  then show ?thesis
    using assms(3) by (simp add: recoverable_def) (simp add: active_def layout_simps)
qed

lemma upd_slot_twice:
  "i < length (ml_marked_spans l) \<Longrightarrow> upd_slot i g (upd_slot i f l) = upd_slot i (\<lambda>m. g (f m)) l"
  by (simp add: upd_slot_def)

text \<open>A crash image from which recovery cannot fault.\<close>

definition recovers :: "mmap_size \<Rightarrow> memory_layout \<Rightarrow> bool" where
  "recovers sz l \<longleftrightarrow> wf_layout sz l \<and> unat (active_count l) \<le> max_spans (mmap_config sz) \<and>
     list_all (clean_raw_span sz) (recoverable l)"

lemma recovers_spans:
  assumes "recovers sz l"
  shows "\<exists>ss. recover_spans (impl_of sz \<lparr>rd_layout = l, rd_mark_counter = c\<rparr>) = Inr ss \<and>
    list_all2 (\<lambda>r s. span_of_raw r = Inr s) (recoverable l) ss \<and>
    map sp_span_id ss = map raw_span_id (recoverable l)"
  using assms by (intro recover_clean) (simp_all add: recovers_def)

lemma recovers_inv: "layout_inv sz c l \<Longrightarrow> recovers sz l"
  using recoverable_live[of sz c l]
  by (auto simp: recovers_def layout_inv_def list_all_iff live_slot_def)


section \<open>Adding a span\<close>

lemma crash_add_recoverable:
  assumes inv: "layout_inv sz c l"
    and room: "unat (active_count l) < max_spans (mmap_config sz)" and mark: "c < mark"
    and crash: "crash_image sz (add_stores sz s mark l) l l'"
  shows "recoverable l' = recoverable l \<or> recoverable l' = recoverable l @ [to_raw_span sz s]"
    and "unat (active_count l') \<le> max_spans (mmap_config sz)"
proof -
  let ?n = "unat (active_count l)"
  let ?done = "exec_stores sz (add_stores sz s mark l) l"
  have room': "unat (active_count l) \<le> max_spans (mmap_config sz)" using room by simp
  have full: "recoverable ?done = recoverable l @ [to_raw_span sz s]"
    "unat (active_count ?done) \<le> max_spans (mmap_config sz)"
    using add_law[OF inv room mark, of s] recoverable_live[OF inv]
    by (simp_all add: recoverable_live) (simp add: layout_inv_def)
  have "l' = ?done \<or> (\<exists>f g h. l' = upd_slot ?n f (upd_slot ?n g (upd_slot ?n h l)))
      \<or> (\<exists>f g. l' = upd_slot ?n f (upd_slot ?n g l)) \<or> (\<exists>f. l' = upd_slot ?n f l) \<or> l' = l"
    using crash
    by (auto simp: add_stores_def Let_def crash_cases torn_block_simps upd_span_def)
  then show "recoverable l' = recoverable l \<or> recoverable l' = recoverable l @ [to_raw_span sz s]"
    "unat (active_count l') \<le> max_spans (mmap_config sz)"
    using full room' by (auto simp: recoverable_upd_beyond layout_simps)
qed

section \<open>Removing a span\<close>

text \<open>
  The layouts a crash inside a removal can leave: the slot unmarked, with anything in it; the
  last span copied, marked in both slots or in the new one only; or one of the two ends.
\<close>

abbreviation last_slot :: "memory_layout \<Rightarrow> nat" where
  "last_slot l \<equiv> unat (active_count l - 1)"

abbreviation copy_last :: "nat \<Rightarrow> memory_layout \<Rightarrow> memory_layout" where
  "copy_last i l \<equiv> upd_slot i (\<lambda>_. ml_marked_spans l ! last_slot l) l"

abbreviation unmark :: "nat \<Rightarrow> memory_layout \<Rightarrow> memory_layout" where
  "unmark i \<equiv> upd_slot i (\<lambda>m. m\<lparr>ms_mark := 0\<rparr>)"

lemma crash_remove_images:
  assumes crash: "crash_image sz (remove_stores i l) l l'" and i: "i < length (ml_marked_spans l)"
  shows "l' = l \<or> (\<exists>f. l' = upd_slot i f l \<and> ms_mark (f (ml_marked_spans l ! i)) = 0) \<or>
    i \<noteq> last_slot l \<and> (l' = copy_last i l \<or> l' = unmark (last_slot l) (copy_last i l)) \<or>
    l' = exec_stores sz (remove_stores i l) l"
proof (cases "i = last_slot l")
  case True
  then have "l' = l \<or> l' = unmark i l \<or> l' = exec_stores sz (remove_stores i l) l"
    using crash by (auto simp: remove_stores_def Let_def crash_cases)
  then show ?thesis by auto
next
  case False
  then show ?thesis
    using crash i
    by (simp add: remove_stores_def Let_def crash_cases torn_block_simps upd_span_def upd_slot_twice) auto
qed

lemma recoverable_copy_last:
  assumes inv: "layout_inv sz c l" and i: "i < unat (active_count l)" "i \<noteq> last_slot l"
  shows "recoverable (copy_last i l) = (recoverable l)[i := last (recoverable l)]"
    and "recoverable (unmark (last_slot l) (copy_last i l)) = swap_remove i (recoverable l)"
proof -
  let ?n = "unat (active_count l)" and ?z = "ml_marked_spans l ! last_slot l"
  have am: "all_marked l" using inv by (rule all_marked_inv)
  have "active_count l \<noteq> 0" using i by auto
  then have last: "last_slot l = ?n - 1" by (simp add: unat_minus1_64)
  have rlen: "length (recoverable l) = ?n" by (simp add: recoverable_all[OF am] length_active[OF inv])
  have "0 < slot_mark l (last_slot l)"
    using layout_inv_slot[OF inv, of "last_slot l"] i last by (simp add: live_slot_def)
  moreover have "slot_span l (last_slot l) = last (recoverable l)"
    using i last rlen
    by (simp add: recoverable_all[OF am] last_map last_conv_nth nth_active
        length_active[OF inv] flip: length_greater_0_conv)
  ultimately have s: "recoverable (copy_last i l) = (recoverable l)[i := last (recoverable l)]"
    "all_marked (copy_last i l)"
    using recoverable_upd_marked[OF am, of "\<lambda>_. ?z" i] by (simp_all add: word_greater_zero_iff)
  then show "recoverable (copy_last i l) = (recoverable l)[i := last (recoverable l)]" by blast
  show "recoverable (unmark (last_slot l) (copy_last i l)) = swap_remove i (recoverable l)"
    using recoverable_upd_unmark[OF s(2), of "last_slot l" "\<lambda>m. m\<lparr>ms_mark := 0\<rparr>"] s(1) i last rlen
    by (simp add: layout_simps swap_remove_def butlast_conv_take)
qed

lemma crash_remove_recoverable:
  assumes inv: "layout_inv sz c l" and i: "i < unat (active_count l)"
    and crash: "crash_image sz (remove_stores i l) l l'"
  defines "rs \<equiv> recoverable l"
  shows "recoverable l' = rs \<or> recoverable l' = take i rs @ drop (Suc i) rs \<or>
      recoverable l' = rs[i := last rs] \<or> recoverable l' = swap_remove i rs"
    and "unat (active_count l') \<le> max_spans (mmap_config sz)"
proof -
  let ?done = "exec_stores sz (remove_stores i l) l"
  have am: "all_marked l" using inv by (rule all_marked_inv)
  have nz: "active_count l \<noteq> 0" using i by auto
  have n: "unat (active_count l) \<le> max_spans (mmap_config sz)" "i < length (ml_marked_spans l)"
    using inv i by (simp_all add: layout_inv_def wf_layout_def)
  have full: "recoverable ?done = swap_remove i rs" "unat (active_count ?done) \<le> unat (active_count l)"
    using remove_law[OF inv i] i
    by (simp_all add: recoverable_live[OF inv] recoverable_live rs_def map_swap_remove
        length_active[OF inv] unat_minus1_64[OF nz])
  have mark0: "recoverable (upd_slot i f l) = take i rs @ drop (Suc i) rs"
    if "ms_mark (f (ml_marked_spans l ! i)) = 0" for f
    unfolding rs_def using am i that by (rule recoverable_upd_unmark)
  note copied = recoverable_copy_last[OF inv i]
  from crash_remove_images[OF crash n(2)] show "recoverable l' = rs \<or> recoverable l' = take i rs @ drop (Suc i) rs \<or>
      recoverable l' = rs[i := last rs] \<or> recoverable l' = swap_remove i rs"
    using full(1) mark0 copied unfolding rs_def by (elim disjE exE conjE) simp_all
  from crash_remove_images[OF crash n(2)] show "unat (active_count l') \<le> max_spans (mmap_config sz)"
    using full(2) n(1) by (elim disjE exE conjE) (simp_all add: layout_simps)
qed


section \<open>Setting an attribute\<close>

text \<open>
  What an interrupted write of an attribute makes of a span: nothing else changes, and the
  stored attributes are the old ones, the new ones, or the old ones with the value of the
  key cut to a prefix of the old value or of the new one.
\<close>

definition attribute_crash :: "mmap_size \<Rightarrow> bytes \<Rightarrow> bytes \<Rightarrow> raw_span \<Rightarrow> raw_span \<Rightarrow> bool" where
  "attribute_crash sz key val r r' \<longleftrightarrow> clean_raw_span sz r' \<and>
     r' = r\<lparr>raw_attr_count := raw_attr_count r', raw_attributes := raw_attributes r'\<rparr> \<and>
     (stored_attributes r' = stored_attributes r \<or>
      stored_attributes r' = stored_attributes (with_attribute sz key val r) \<or>
      (\<exists>j v. first_index (\<lambda>a. key_equals attr_key_size key (attr_key a))
            (take (unat (raw_attr_count r)) (raw_attributes r)) = Some j \<and>
          stored_attributes r' =
            (stored_attributes r)[j := (fst (stored_attributes r ! j), v)] \<and>
          (prefix v (snd (stored_attributes r ! j)) \<or> prefix v (kept_text attr_value_size val))))"

lemma attribute_crash_span:
  assumes "attribute_crash sz key val r r'"
  shows "clean_raw_span sz r'" and "raw_span_id r' = raw_span_id r"
proof -
  show "clean_raw_span sz r'" using assms by (simp add: attribute_crash_def)
  have "r' = r\<lparr>raw_attr_count := raw_attr_count r', raw_attributes := raw_attributes r'\<rparr>"
    using assms unfolding attribute_crash_def by blast
  then have "raw_span_id r' =
      raw_span_id (r\<lparr>raw_attr_count := raw_attr_count r', raw_attributes := raw_attributes r'\<rparr>)"
    by (rule arg_cong)
  then show "raw_span_id r' = raw_span_id r" by simp
qed

lemma attribute_crash_refl: "clean_raw_span sz r \<Longrightarrow> attribute_crash sz key val r r"
  by (simp add: attribute_crash_def)

lemma attribute_crash_done: "clean_raw_span sz r \<Longrightarrow> attribute_crash sz key val r (with_attribute sz key val r)"
  by (simp add: attribute_crash_def clean_with_attribute)
    (simp add: with_attribute_def Let_def upd_attr_def split: option.split)

lemma clean_upd_attr:
  assumes "clean_raw_span sz r"
    and "j < max_attributes (mmap_config sz) \<Longrightarrow> clean_attribute (f (raw_attributes r ! j))"
  shows "clean_raw_span sz (upd_attr j f r)"
proof -
  have w: "list_all wf_attribute raws" if "list_all clean_attribute raws" for raws
    using that by (simp add: list_all_iff clean_attribute_def)
  show ?thesis
    using assms by (auto simp: clean_raw_span_def wf_raw_span_def upd_attr_def
        intro!: list_all_update w)
qed

lemma stored_upd_value:
  assumes "clean_raw_span sz r" and "j < unat (raw_attr_count r)"
  shows "stored_attributes (upd_attr j (\<lambda>a. a\<lparr>attr_value := b\<rparr>) r) =
    (stored_attributes r)[j := (fst (stored_attributes r ! j), text_of b)]"
proof -
  have j: "j < length (raw_attributes r)" using assms by (simp add: clean_raw_span_def wf_raw_span_def)
  then have "stored_attributes r ! j = attribute_text (raw_attributes r ! j)"
    using assms(2) by (simp add: stored_attributes_def)
  then show ?thesis
    using j assms(2)
    by (simp add: stored_attributes_def upd_attr_def take_update_swap map_update attribute_text_def)
qed

lemma clean_upd_value:
  assumes "clean_raw_span sz r" and "j < unat (raw_attr_count r)" and "length b = attr_value_size" "0 \<in> set b"
  shows "clean_raw_span sz (upd_attr j (\<lambda>a. a\<lparr>attr_value := b\<rparr>) r)"
  using assms
  by (intro clean_upd_attr) (auto simp: clean_attribute_def wf_attribute_def list_all_length
      clean_raw_span_def wf_raw_span_def)

lemma attribute_crash_value:
  assumes clean: "clean_raw_span sz r"
    and j: "first_index (\<lambda>a. key_equals attr_key_size key (attr_key a))
      (take (unat (raw_attr_count r)) (raw_attributes r)) = Some j"
    and b: "length b = attr_value_size" "0 \<in> set b"
    and t: "prefix (text_of b) (text_of (attr_value (raw_attributes r ! j))) \<or>
      prefix (text_of b) (kept_text attr_value_size val)"
  shows "attribute_crash sz key val r (upd_attr j (\<lambda>a. a\<lparr>attr_value := b\<rparr>) r)"
proof -
  have c: "j < unat (raw_attr_count r)" "j < length (raw_attributes r)"
    using clean first_index_Some[OF j] by (simp_all add: clean_raw_span_def)
  have "prefix (text_of b) (snd (stored_attributes r ! j)) \<or> prefix (text_of b) (kept_text attr_value_size val)"
    using t c by (simp add: stored_attributes_def attribute_text_def)
  then show ?thesis
    using j clean_upd_value[OF clean c(1) b] stored_upd_value[OF clean c(1), of b]
    by (auto simp: attribute_crash_def upd_attr_def)
qed

lemma attribute_crash_spare:
  assumes clean: "clean_raw_span sz r" and a: "clean_attribute a"
  shows "attribute_crash sz key val r (upd_attr (unat (raw_attr_count r)) (\<lambda>_. a) r)"
proof -
  have "stored_attributes (upd_attr (unat (raw_attr_count r)) (\<lambda>_. a) r) = stored_attributes r"
    by (simp add: stored_attributes_def upd_attr_def)
  moreover have "clean_raw_span sz (upd_attr (unat (raw_attr_count r)) (\<lambda>_. a) r)"
    using clean a by (intro clean_upd_attr)
  ultimately show ?thesis
    by (simp add: attribute_crash_def) (simp add: upd_attr_def)
qed

text \<open>Any number of writes inside one raw span is one write.\<close>

lemma upd_span_twice:
  "i < length (ml_marked_spans l) \<Longrightarrow> upd_span i g (upd_span i f l) = upd_span i (\<lambda>r. g (f r)) l"
  by (simp add: upd_span_def upd_slot_twice)

lemma upd_attr_twice:
  "j < length (raw_attributes r) \<Longrightarrow> upd_attr j g (upd_attr j f r) = upd_attr j (\<lambda>a. g (f a)) r"
  by (simp add: upd_attr_def)

lemma upd_span_cong: "f (slot_span l i) = g (slot_span l i) \<Longrightarrow> upd_span i f l = upd_span i g l"
  by (simp add: upd_span_def upd_slot_def)

lemma slot_upd_span:
  "i < length (ml_marked_spans l) \<Longrightarrow> slot_span (upd_span i f l) i = f (slot_span l i)"
  by (simp add: layout_simps)

lemma upd_span_self: "upd_span i (\<lambda>r. r) l = l"
  by (simp add: upd_span_def upd_slot_def)


text \<open>The buffers an interrupted copy of a text can leave.\<close>

definition copy_stage :: "nat \<Rightarrow> bytes \<Rightarrow> bytes \<Rightarrow> bytes \<Rightarrow> bool" where
  "copy_stage N src buf b \<longleftrightarrow> length b = N \<and> 0 \<in> set b \<and>
     (prefix (text_of b) (text_of buf) \<or> prefix (text_of b) (kept_text N src))"

lemma copy_stages:
  assumes "length buf = N" "0 < N" "0 \<in> set buf"
  shows "copy_stage N src buf buf"
    and "torn_bytes buf (copy_zeroed N buf) mid \<Longrightarrow> copy_stage N src buf mid"
    and "copy_stage N src buf (copy_zeroed N buf)"
    and "torn_bytes (copy_zeroed N buf) (copy_filled N src (copy_zeroed N buf)) mid \<Longrightarrow>
      copy_stage N src buf mid"
    and "copy_stage N src buf (copy_filled N src (copy_zeroed N buf))"
proof -
  show "copy_stage N src buf buf" using assms by (simp add: copy_stage_def)
  show "torn_bytes buf (copy_zeroed N buf) mid \<Longrightarrow> copy_stage N src buf mid"
    using torn_zeroing[of buf N mid] assms by (simp add: copy_stage_def)
  have "copy_zeroed N buf = replicate N 0"
    using assms by (simp add: copy_zeroed_def mem_set_all)
  then show "copy_stage N src buf (copy_zeroed N buf)"
    using assms by (simp add: copy_stage_def text_of_def)
  show "torn_bytes (copy_zeroed N buf) (copy_filled N src (copy_zeroed N buf)) mid \<Longrightarrow>
      copy_stage N src buf mid"
    using torn_filling[of N buf src mid] assms by (simp add: copy_stage_def)
  have "c_str (copy_string N src buf) = Inr (kept_text N src)"
    using assms by (simp add: c_str_copy_string kept_text_def)
  moreover from this have "0 \<in> set (copy_string N src buf)"
    by (auto simp: c_str_def split: if_splits)
  ultimately show "copy_stage N src buf (copy_filled N src (copy_zeroed N buf))"
    using assms by (simp add: copy_stage_def copy_string_stages text_of_c_str)
qed

lemma crash_update_stages:
  assumes i: "i < length (ml_marked_spans l)" and j: "j < length (raw_attributes (slot_span l i))"
    and a: "clean_attribute (raw_attributes (slot_span l i) ! j)"
    and crash: "crash_image sz
      (update_attribute_stores i j val (raw_attributes (slot_span l i) ! j)) l l'"
  shows "\<exists>b. l' = upd_span i (upd_attr j (\<lambda>a. a\<lparr>attr_value := b\<rparr>)) l \<and>
    copy_stage attr_value_size val (attr_value (raw_attributes (slot_span l i) ! j)) b"
proof -
  let ?buf = "attr_value (raw_attributes (slot_span l i) ! j)"
  let ?N = attr_value_size
  let ?stage = "copy_stage ?N val ?buf"
  let ?up = "\<lambda>b. upd_span i (upd_attr j (\<lambda>a. a\<lparr>attr_value := b\<rparr>)) l"
  have buf: "length ?buf = ?N" "0 < ?N" "0 \<in> set ?buf"
    using a by (simp_all add: clean_attribute_def wf_attribute_def)
  note st = copy_stages[where src = val, OF buf]
  have twice: "upd_span i (upd_attr j (\<lambda>a. a\<lparr>attr_value := b'\<rparr>)) (?up b) = ?up b'" for b b'
    using i j by (simp add: upd_span_twice) (rule upd_span_cong, simp add: upd_attr_twice)
  have now: "attr_value (raw_attributes (slot_span (?up b) i) ! j) = b" for b
    using i j by (simp add: slot_upd_span) (simp add: upd_attr_def)
  have self: "?up ?buf = l"
    using j by (subst upd_span_cong[where g = "\<lambda>r. r"]) (simp_all add: upd_attr_def upd_span_self)
  from crash have "l' = ?up ?buf \<or> (\<exists>mid. torn_bytes ?buf (copy_zeroed ?N ?buf) mid \<and> l' = ?up mid) \<or>
      l' = ?up (copy_zeroed ?N ?buf) \<or>
      (\<exists>mid. torn_bytes (copy_zeroed ?N ?buf) (copy_filled ?N val (copy_zeroed ?N ?buf)) mid \<and>
        l' = ?up mid) \<or>
      l' = ?up (copy_filled ?N val (copy_zeroed ?N ?buf))"
    unfolding update_attribute_stores_def Let_def
    by (simp add: crash_cases torn_block_simps twice now self) blast
  then show ?thesis
    using st by blast
qed


lemma crash_append_stages:
  fixes key val :: bytes and w :: u64
  assumes i: "i < length (ml_marked_spans l)" and j: "j < length (raw_attributes (slot_span l i))"
    and a: "clean_attribute (raw_attributes (slot_span l i) ! j)"
  defines "ss \<equiv> append_attribute_stores i j key val (raw_attributes (slot_span l i) ! j) w"
  assumes crash: "crash_image sz ss l l'"
  shows "l' = exec_stores sz ss l \<or>
    (\<exists>a. l' = upd_span i (upd_attr j (\<lambda>_. a)) l \<and> clean_attribute a)"
proof -
  let ?a = "raw_attributes (slot_span l i) ! j"
  let ?K = "copy_stage attr_key_size key (attr_key ?a)"
  let ?V = "copy_stage attr_value_size val (attr_value ?a)"
  let ?up = "\<lambda>kb vb. upd_span i (upd_attr j (\<lambda>_. \<lparr>attr_key = kb, attr_value = vb\<rparr>)) l"
  let ?k0 = "copy_zeroed attr_key_size (attr_key ?a)" and ?k1 = "copy_filled attr_key_size key
    (copy_zeroed attr_key_size (attr_key ?a))"
  let ?v0 = "copy_zeroed attr_value_size (attr_value ?a)" and ?v1 = "copy_filled attr_value_size val
    (copy_zeroed attr_value_size (attr_value ?a))"
  have bufs: "length (attr_key ?a) = attr_key_size" "0 < attr_key_size" "0 \<in> set (attr_key ?a)"
    "length (attr_value ?a) = attr_value_size" "0 < attr_value_size" "0 \<in> set (attr_value ?a)"
    using a by (simp_all add: clean_attribute_def wf_attribute_def)
  note ks = copy_stages[where src = key, OF bufs(1-3)] and vs = copy_stages[where src = val, OF bufs(4-6)]
  have key': "upd_span i (upd_attr j (\<lambda>a. a\<lparr>attr_key := b\<rparr>)) (?up kb vb) = ?up b vb"
    and val': "upd_span i (upd_attr j (\<lambda>a. a\<lparr>attr_value := b\<rparr>)) (?up kb vb) = ?up kb b" for b kb vb
    using i j by (simp_all add: upd_span_twice) (rule upd_span_cong, simp add: upd_attr_twice)+
  have now: "raw_attributes (slot_span (?up kb vb) i) ! j = \<lparr>attr_key = kb, attr_value = vb\<rparr>" for kb vb
    using i j by (simp add: slot_upd_span) (simp add: upd_attr_def)
  have eta: "\<lparr>attr_key = attr_key x, attr_value = attr_value x\<rparr> = x" for x :: raw_attribute
    by (cases x) simp
  have self: "l = ?up (attr_key ?a) (attr_value ?a)"
    using j by (subst upd_span_cong[where g = "\<lambda>r. r"]) (simp_all add: upd_attr_def upd_span_self eta)
  define l0 where "l0 = ?up (attr_key ?a) (attr_value ?a)"
  have "crash_image sz ss l0 l'" using crash self by (simp add: l0_def)
  then have "l' = exec_stores sz ss l0 \<or> (\<exists>kb vb. l' = ?up kb vb \<and> ?K kb \<and> ?V vb)"
    unfolding ss_def append_attribute_stores_def Let_def l0_def
    by (simp add: crash_cases torn_block_simps key' val' now) (use ks vs in blast)
  moreover have "clean_attribute \<lparr>attr_key = kb, attr_value = vb\<rparr>" if "?K kb" "?V vb" for kb vb
    using that by (simp add: clean_attribute_def wf_attribute_def copy_stage_def)
  ultimately show ?thesis
    using self by (auto simp: l0_def)
qed

text \<open>Both kinds of write, in the span and in the layout.\<close>

lemma crash_update_span:
  assumes clean: "clean_raw_span sz (slot_span l i)" and i: "i < length (ml_marked_spans l)"
    and j: "first_index (\<lambda>a. key_equals attr_key_size key (attr_key a))
      (take (unat (raw_attr_count (slot_span l i))) (raw_attributes (slot_span l i))) = Some j"
    and crash: "crash_image sz (update_attribute_stores i j val (raw_attributes (slot_span l i) ! j)) l l'"
  shows "\<exists>r'. l' = upd_span i (\<lambda>_. r') l \<and> attribute_crash sz key val (slot_span l i) r'"
proof -
  let ?r = "slot_span l i"
  have jl: "j < length (raw_attributes ?r)" using first_index_Some[OF j] by simp
  then have "clean_attribute (raw_attributes ?r ! j)"
    using clean by (simp add: clean_raw_span_def list_all_length)
  from crash_update_stages[OF i jl this crash] obtain b where
    "l' = upd_span i (upd_attr j (\<lambda>a. a\<lparr>attr_value := b\<rparr>)) l"
    "copy_stage attr_value_size val (attr_value (raw_attributes ?r ! j)) b"
    by auto
  then show ?thesis
    using attribute_crash_value[OF clean j]
    by (intro exI[of _ "upd_attr j (\<lambda>a. a\<lparr>attr_value := b\<rparr>) ?r"])
      (auto simp: copy_stage_def intro: upd_span_cong)
qed

lemma crash_append_span:
  assumes clean: "clean_raw_span sz (slot_span l i)" and i: "i < length (ml_marked_spans l)"
    and n: "unat (raw_attr_count (slot_span l i)) < max_attributes (mmap_config sz)"
    and ss: "ss = append_attribute_stores i (unat (raw_attr_count (slot_span l i))) key val
      (raw_attributes (slot_span l i) ! unat (raw_attr_count (slot_span l i)))
      (raw_attr_count (slot_span l i) + 1)"
    and fin: "exec_stores sz ss l = upd_span i (\<lambda>_. with_attribute sz key val (slot_span l i)) l"
    and crash: "crash_image sz ss l l'"
  shows "\<exists>r'. l' = upd_span i (\<lambda>_. r') l \<and> attribute_crash sz key val (slot_span l i) r'"
proof -
  let ?r = "slot_span l i"
  let ?n = "unat (raw_attr_count ?r)"
  have nl: "?n < length (raw_attributes ?r)" using n clean by (simp add: clean_raw_span_def wf_raw_span_def)
  then have "clean_attribute (raw_attributes ?r ! ?n)"
    using clean by (simp add: clean_raw_span_def list_all_length)
  from crash_append_stages[OF i nl this crash[unfolded ss]] ss
  consider "l' = exec_stores sz ss l" | a where "l' = upd_span i (upd_attr ?n (\<lambda>_. a)) l" "clean_attribute a"
    by auto
  then show ?thesis
  proof cases
    case 1
    then show ?thesis using fin attribute_crash_done[OF clean] by blast
  next
    case 2
    then show ?thesis
      using attribute_crash_spare[OF clean 2(2), of key val]
        upd_span_cong[of "upd_attr ?n (\<lambda>_. a)" l i "\<lambda>_. upd_attr ?n (\<lambda>_. a) ?r"] 2(1)
      by blast
  qed
qed

lemma crash_set_attribute_span:
  assumes clean: "clean_raw_span sz (slot_span l i)" and i: "i < length (ml_marked_spans l)"
    and ss: "set_attribute_stores sz i key val (slot_span l i) = Inr (idx, ss)"
    and crash: "crash_image sz ss l l'"
  shows "\<exists>r'. l' = upd_span i (\<lambda>_. r') l \<and> attribute_crash sz key val (slot_span l i) r'"
proof -
  let ?r = "slot_span l i"
  let ?n = "unat (raw_attr_count ?r)"
  have fin: "exec_stores sz ss l = upd_span i (\<lambda>_. with_attribute sz key val ?r) l"
    using exec_set_attribute[OF clean i, of key val] ss by (auto intro: upd_span_cong)
  have c: "?n \<le> length (raw_attributes ?r)" using clean by (simp add: clean_raw_span_def wf_raw_span_def)
  show ?thesis
  proof (cases "first_index (\<lambda>a. key_equals attr_key_size key (attr_key a)) (take ?n (raw_attributes ?r))")
    case (Some j)
    then have "ss = update_attribute_stores i j val (raw_attributes ?r ! j)"
      using ss c by (simp add: set_attribute_stores_def find_attribute_eq)
    then show ?thesis using crash_update_span[OF clean i Some] crash by simp
  next
    case None
    note ss' = ss[unfolded set_attribute_stores_def find_attribute_eq[OF c] None]
    show ?thesis
    proof (cases "?n < max_attributes (mmap_config sz)")
      case True
      then show ?thesis
        using ss' by (intro crash_append_span[OF clean i True _ fin crash]) (auto simp: Let_def)
    next
      case False
      then have "l' = l" using ss' crash by (auto simp: crash_image_Nil)
      moreover have "upd_span i (\<lambda>_. ?r) l = l"
        by (simp add: upd_span_def upd_slot_def)
      ultimately show ?thesis
        using attribute_crash_refl[OF clean] by metis
    qed
  qed
qed


lemma recoverable_upd_span:
  assumes inv: "layout_inv sz c l" and i: "i < unat (active_count l)"
  shows "recoverable (upd_span i f l) = (recoverable l)[i := f (recoverable l ! i)]"
proof -
  have am: "all_marked l" using inv by (rule all_marked_inv)
  have "slot_mark l i \<noteq> 0"
    using layout_inv_slot[OF inv i] by (simp add: live_slot_def word_greater_zero_iff)
  moreover have "recoverable l ! i = slot_span l i"
    using i by (simp add: recoverable_all[OF am] length_active[OF inv] nth_active)
  ultimately show ?thesis
    using recoverable_upd_marked(2)[OF am, of "\<lambda>m. m\<lparr>ms_span := f (ms_span m)\<rparr>" i]
    by (simp add: upd_span_def)
qed

lemma crash_set_attribute_recoverable:
  assumes inv: "layout_inv sz c l" and i: "i < unat (active_count l)"
    and ss: "set_attribute_stores sz i key val (slot_span l i) = Inr (idx, ss)"
    and crash: "crash_image sz ss l l'"
  shows "\<exists>r'. recoverable l' = (recoverable l)[i := r'] \<and>
      attribute_crash sz key val (recoverable l ! i) r'"
    and "active_count l' = active_count l" and "wf_layout sz l'"
proof -
  have r: "recoverable l ! i = slot_span l i"
    using i by (simp add: recoverable_live[OF inv] length_active[OF inv] nth_active)
  have il: "i < length (ml_marked_spans l)"
    using inv i by (simp add: layout_inv_def wf_layout_def)
  have clean: "clean_raw_span sz (slot_span l i)"
    using layout_inv_slot[OF inv i] by (simp add: live_slot_def)
  from crash_set_attribute_span[OF clean il ss crash] obtain r' where
    r': "l' = upd_span i (\<lambda>_. r') l" "attribute_crash sz key val (slot_span l i) r'"
    by auto
  show "\<exists>r'. recoverable l' = (recoverable l)[i := r'] \<and>
      attribute_crash sz key val (recoverable l ! i) r'"
    using r' recoverable_upd_span[OF inv i, of "\<lambda>_. r'"] r by auto
  show "active_count l' = active_count l"
    using r'(1) by (simp add: layout_simps)
  show "wf_layout sz l'"
    using r' inv unfolding layout_inv_def
    by (auto intro!: wf_upd_span clean_raw_span_wf simp: attribute_crash_def)
qed

section \<open>Setting the end time, removing everything\<close>

lemma crash_end_recoverable:
  assumes inv: "layout_inv sz c l" and i: "i < unat (active_count l)"
    and crash: "crash_image sz [Store_End_Time i t] l l'"
  shows "recoverable l' = recoverable l \<or>
      recoverable l' = (recoverable l)[i := (recoverable l ! i)\<lparr>raw_end_time := t\<rparr>]"
    and "active_count l' = active_count l"
proof -
  have "l' = l \<or> l' = upd_span i (\<lambda>r. r\<lparr>raw_end_time := t\<rparr>) l"
    using crash by (auto simp: crash_cases)
  then show "recoverable l' = recoverable l \<or>
      recoverable l' = (recoverable l)[i := (recoverable l ! i)\<lparr>raw_end_time := t\<rparr>]"
    "active_count l' = active_count l"
    using recoverable_upd_span[OF inv i] by (auto simp: layout_simps)
qed

text \<open>
  The order of \<^verbatim>\<open>remove_all\<close>, the count before the array, makes it atomic: no interrupted
  clearing of the array is ever read.
\<close>

lemma crash_remove_all_recoverable:
  assumes "crash_image sz remove_all_stores l l'"
  shows "l' = l \<or> (recoverable l' = [] \<and> active_count l' = 0)"
  using assms
  by (auto simp: remove_all_stores_def crash_cases torn_block_simps recoverable_def active_def
      upd_header_def)


section \<open>The half-written value is readable\<close>

text \<open>
  The bound above is attained: the copy into the zeroed buffer can be cut anywhere, and the
  next start then reads exactly the bytes copied so far as the value.
\<close>

lemma text_of_cut: "0 \<notin> set t \<Longrightarrow> text_of (take k t @ replicate n 0) = take k t"
  by (induction t arbitrary: k) (auto simp: text_of_def takeWhile_eq_Nil_iff take_Cons' hd_append)

definition cut_value :: "nat \<Rightarrow> bytes \<Rightarrow> bytes" where
  "cut_value k val =
     take k (utf8_trunc attr_value_size val) @
     replicate (attr_value_size - min k (length (utf8_trunc attr_value_size val))) 0"

lemma cut_value_simps:
  "length (cut_value k val) = attr_value_size" "0 \<in> set (cut_value k val)"
  "0 \<notin> set val \<Longrightarrow> text_of (cut_value k val) = take k (utf8_trunc attr_value_size val)"
proof -
  have "get_utf8_length attr_value_size val < attr_value_size"
    by (rule get_utf8_length_less) (simp add: attr_value_size_def)
  then show "length (cut_value k val) = attr_value_size" "0 \<in> set (cut_value k val)"
    by (auto simp: cut_value_def min_def)
  assume "0 \<notin> set val"
  then have "0 \<notin> set (utf8_trunc attr_value_size val)"
    using prefix_utf8_trunc by (metis set_mono_prefix subsetD)
  then show "text_of (cut_value k val) = take k (utf8_trunc attr_value_size val)"
    by (simp add: cut_value_def text_of_cut)
qed

lemma crash_update_cut:
  assumes i: "i < length (ml_marked_spans l)" and j: "j < length (raw_attributes (slot_span l i))"
    and a: "clean_attribute (raw_attributes (slot_span l i) ! j)" and val: "0 \<notin> set val"
  shows "\<exists>l'. crash_image sz (update_attribute_stores i j val (raw_attributes (slot_span l i) ! j)) l l' \<and>
    slot_mark l' i = slot_mark l i \<and>
    slot_span l' i = upd_attr j (\<lambda>a. a\<lparr>attr_value := cut_value k val\<rparr>) (slot_span l i)"
proof -
  let ?N = attr_value_size and ?t = "utf8_trunc attr_value_size val"
  let ?buf = "attr_value (raw_attributes (slot_span l i) ! j)"
  let ?z = "copy_zeroed ?N ?buf"
  let ?mid = "cut_value k val"
  let ?l0 = "exec_store sz (Store_Attr_Value i j ?z) l"
  let ?l' = "exec_store sz (Store_Attr_Value i j ?mid) ?l0"
  have buf: "length ?buf = ?N" using a by (simp add: clean_attribute_def wf_attribute_def)
  have lt: "length ?t < ?N" by (simp add: get_utf8_length_less)
  have z: "?z = replicate ?N 0" using buf by (simp add: copy_zeroed_def mem_set_all)
  have f: "copy_filled ?N val ?z = ?t @ replicate (?N - length ?t) 0"
    using buf by (simp add: copy_string_stages copy_string_eq)
  have l0: "attr_value (raw_attributes (slot_span ?l0 i) ! j) = ?z"
    using i j by (simp add: slot_upd_span) (simp add: upd_attr_def)
  have "torn_bytes ?z (copy_filled ?N val ?z) ?mid"
    unfolding torn_bytes_def f unfolding z cut_value_def using lt
    by (auto simp: list_all_iff nth_append min_def)
  then have "torn sz (Store_Attr_Value i j (copy_filled ?N val ?z)) ?l0 ?l'"
    using l0 by (intro torn_value) simp
  then have "crash_image sz (update_attribute_stores i j val (raw_attributes (slot_span l i) ! j)) l ?l'"
    unfolding update_attribute_stores_def Let_def by (intro crash_after crash_within)
  moreover have "slot_mark ?l' i = slot_mark l i"
    "slot_span ?l' i = upd_attr j (\<lambda>a. a\<lparr>attr_value := ?mid\<rparr>) (slot_span l i)"
    using i j by (simp_all add: slot_upd_span upd_span_simps) (simp_all add: upd_attr_def)
  ultimately show ?thesis by blast
qed

end
