(* ===== verification/Crash_Runs.thy ===== *)
theory Crash_Runs
  imports Crash_Safety
begin

text \<open>
  Crashes inside the calls of a process on its writer. \<open>op_stores\<close> is the list of stores one
  call makes into the mapping (an eviction and an insertion for \<^verbatim>\<open>add\<close> on a full array);
  the theorem bounds what the next start recovers after a crash at any point of any call of
  a run: no span the call does not concern is lost or changed, and nothing else appears.
\<close>

section \<open>The stores of a call\<close>

abbreviation mut_layout :: "mutable_span_data \<Rightarrow> memory_layout" where
  "mut_layout m \<equiv> rd_layout (impl_data (mu_impl m))"

definition removal_stores :: "u64 \<Rightarrow> mutable_span_data \<Rightarrow> store list" where
  "removal_stores span_id m =
     (case mu_index m span_id of
        None \<Rightarrow> []
      | Some i \<Rightarrow> remove_stores (unat i) (mut_layout m))"

definition eviction_stores :: "mutable_span_data \<Rightarrow> store list" where
  "eviction_stores m =
     (if unat (impl_count (mu_impl m)) = impl_max_count (mu_impl m) then
        (case oldest_span (mu_impl m) of
           Inl _ \<Rightarrow> []
         | Inr span_id \<Rightarrow> if span_id \<noteq> 0 then removal_stores span_id m else [])
      else [])"

fun op_stores :: "mmap_size \<Rightarrow> mutable_op \<Rightarrow> mutable_span_data \<Rightarrow> store list" where
  "op_stores sz (Op_Add s) m =
     (if mu_index m (sp_span_id s) \<noteq> None then []
      else eviction_stores m @
        add_stores sz s (mut_counter m + 1) (exec_stores sz (eviction_stores m) (mut_layout m)))"
| "op_stores sz (Op_Remove span_id) m = removal_stores span_id m"
| "op_stores sz (Op_End now span_id end_time) m =
     (case mu_index m span_id of
        None \<Rightarrow> []
      | Some i \<Rightarrow> [Store_End_Time (unat i) (if end_time = 0 then now else end_time)])"
| "op_stores sz (Op_Set_Attribute span_id key val) m =
     (case mu_index m span_id of
        None \<Rightarrow> []
      | Some i \<Rightarrow>
          (case set_attribute_stores sz (unat i) key val (slot_span (mut_layout m) (unat i)) of
             Inl _ \<Rightarrow> []
           | Inr (_, ss) \<Rightarrow> ss))"

lemma impl_remove_layout:
  "impl_remove i x = Inr (moved, y) \<Longrightarrow>
     rd_layout (impl_data y) = exec_stores (impl_alt x) (remove_stores (unat i) (rd_layout (impl_data x)))
       (rd_layout (impl_data x))"
  by (auto simp: impl_remove_def visit_eq rsd_remove_def Let_def res_map_Inr_iff split: if_splits)

lemma impl_add_layout:
  "impl_add s x = Inr (i, y) \<Longrightarrow>
     rd_layout (impl_data y) = exec_stores (impl_alt x)
       (add_stores (impl_alt x) s (impl_counter x + 1) (rd_layout (impl_data x)))
       (rd_layout (impl_data x))"
  by (auto simp: impl_add_def visit_eq rsd_add_def Let_def res_map_Inr_iff impl_counter_def
      split: if_splits)

lemma mut_inv_impl: "mut_inv sz m \<Longrightarrow> impl_inv sz (mu_impl m) \<and> impl_alt (mu_impl m) = sz"
  by (simp add: mut_inv_def impl_inv_def)

lemma mut_remove_layout:
  assumes "mut_inv sz m" "mut_remove span_id m = Inr m'"
  shows "mut_layout m' = exec_stores sz (removal_stores span_id m) (mut_layout m)"
  using assms mut_inv_impl[OF assms(1)]
  by (auto simp: mut_remove_def removal_stores_def res_map_Inr_iff Let_def
      dest!: impl_remove_layout split: option.splits)


text \<open>The state of the writer between the eviction and the insertion of \<^verbatim>\<open>add\<close>.\<close>

lemma mut_room:
  assumes inv: "mut_inv sz m" and ctr: "unat (mut_counter m) + 1 < 2 ^ 64"
  shows "\<exists>m1. (if unat (impl_count (mu_impl m)) = impl_max_count (mu_impl m) then
        res_bind (oldest_span (mu_impl m)) (\<lambda>oldest. if oldest \<noteq> 0 then mut_remove oldest m else Inr m)
      else Inr m) = Inr m1 \<and> mut_inv sz m1 \<and> mut_counter m1 = mut_counter m \<and>
    live m1 = (if length (live m) = max_spans (mmap_config sz) then tl (live m) else live m) \<and>
    mut_layout m1 = exec_stores sz (eviction_stores m) (mut_layout m)"
proof -
  have ii: "impl_inv sz (mu_impl m)" using inv by (simp add: mut_inv_def)
  have cnt: "unat (impl_count (mu_impl m)) = length (live m)"
    using sdi.cnt_slots[OF ii] by (simp add: mut_slots_def)
  have max: "impl_max_count (mu_impl m) = max_spans (mmap_config sz)"
    using ii by (rule impl_max_count_inv)
  show ?thesis
  proof (cases "length (live m) = max_spans (mmap_config sz)")
    case True
    note ev = mut_evict[OF inv ctr True]
    from ev(3) obtain m1 where m1: "mut_remove (raw_span_id (hd (live m))) m = Inr m1"
      "mut_inv sz m1" "mut_counter m1 = mut_counter m" "live m1 = tl (live m)"
      by auto
    with mut_remove_layout[OF inv m1(1)] ev(1,2) True cnt max show ?thesis
      by (simp add: eviction_stores_def)
  qed (use cnt max inv in \<open>simp add: eviction_stores_def\<close>)
qed

lemma mut_step_layout:
  assumes inv: "mut_inv sz m" and ctr: "unat (mut_counter m) + 1 < 2 ^ 64"
    and step: "mut_step op m = Inr m'"
  shows "mut_layout m' = exec_stores sz (op_stores sz op m) (mut_layout m)"
proof (cases op)
  case (Op_Add s)
  show ?thesis
  proof (cases "mu_index m (sp_span_id s)")
    case None
    from mut_room[OF inv ctr] obtain m1 where
      "(if unat (impl_count (mu_impl m)) = impl_max_count (mu_impl m) then
          res_bind (oldest_span (mu_impl m)) (\<lambda>oldest. if oldest \<noteq> 0 then mut_remove oldest m else Inr m)
        else Inr m) = Inr m1" "mut_inv sz m1" "mut_counter m1 = mut_counter m"
      "mut_layout m1 = exec_stores sz (eviction_stores m) (mut_layout m)"
      by blast
    with None Op_Add step mut_inv_impl[of sz m1] show ?thesis
      by (auto simp: mut_add_def res_map_Inr_iff exec_stores_append dest!: impl_add_layout)
  qed (use Op_Add step in \<open>simp add: mut_add_def\<close>)
next
  case (Op_Remove span_id)
  then show ?thesis using mut_remove_layout[OF inv] step by simp
next
  case (Op_End now span_id t)
  then show ?thesis
    using step mut_inv_impl[OF inv]
    by (auto simp: mut_end_def Let_def res_map_Inr_iff impl_set_end_time_def visit_eq
        rsd_set_end_time_def split: option.splits if_splits)
next
  case (Op_Set_Attribute span_id k v)
  then show ?thesis
    using step mut_inv_impl[OF inv]
    by (auto simp: mut_set_attribute_on_span_def res_map_Inr_iff impl_set_attribute_on_span_def
        visit_eq rsd_set_attribute_on_span_def split: option.splits if_splits)
qed

section \<open>What survives\<close>

text \<open>
  The spans recovered after a crash inside \<open>op\<close>, against the live spans before it and those
  the specification has after it.
\<close>

fun half_written :: "mmap_size \<Rightarrow> mutable_op \<Rightarrow> live_spans \<Rightarrow> raw_span \<Rightarrow> bool" where
  "half_written sz (Op_Set_Attribute span_id key val) before r \<longleftrightarrow>
     list_ex (\<lambda>r0. raw_span_id r0 = span_id \<and> attribute_crash sz key val r0 r) before"
| "half_written sz _ before r \<longleftrightarrow> False"

definition survives :: "mmap_size \<Rightarrow> mutable_op \<Rightarrow> live_spans \<Rightarrow> raw_span list \<Rightarrow> bool" where
  "survives sz op before found \<longleftrightarrow>
     list_all (\<lambda>r. r \<in> set before \<or> r \<in> set (spec_step sz op before) \<or> half_written sz op before r) found \<and>
     (\<forall>r \<in> set before \<inter> set (spec_step sz op before). r \<in> set found \<or>
        list_ex (\<lambda>r'. raw_span_id r' = raw_span_id r \<and> half_written sz op before r') found) \<and>
     raw_span_id ` set before \<inter> raw_span_id ` set (spec_step sz op before) \<subseteq> raw_span_id ` set found"

lemma survives_between:
  assumes "set found \<subseteq> set before \<union> set (spec_step sz op before)"
    and "set before \<inter> set (spec_step sz op before) \<subseteq> set found"
    and "\<And>r r'. r \<in> set before \<Longrightarrow> r' \<in> set (spec_step sz op before) \<Longrightarrow>
      raw_span_id r = raw_span_id r' \<Longrightarrow> r = r' \<or> r \<in> set found \<or> r' \<in> set found"
  shows "survives sz op before found"
  using assms unfolding survives_def list_all_iff by (auto simp: image_iff) (metis IntI subsetD)


section \<open>The state before the call\<close>

lemma mut_layout_inv: "mut_inv sz m \<Longrightarrow> layout_inv sz (mut_counter m) (mut_layout m)"
  by (simp add: mut_inv_def impl_inv_def rsd_inv_def impl_counter_def)

lemma recoverable_mut:
  assumes "mut_inv sz m"
  shows "recoverable (mut_layout m) = map ms_span (mut_slots m)"
    and "set (recoverable (mut_layout m)) = set (live m)"
    and "distinct (map raw_span_id (recoverable (mut_layout m)))"
    and "unat (active_count (mut_layout m)) = length (mut_slots m)"
proof -
  show r: "recoverable (mut_layout m) = map ms_span (mut_slots m)"
    using recoverable_live[OF mut_layout_inv[OF assms]]
    by (simp add: mut_slots_def impl_slots_def rsd_slots_def)
  then show "set (recoverable (mut_layout m)) = set (live m)"
    by (simp add: live_def)
  show "distinct (map raw_span_id (recoverable (mut_layout m)))"
    using assms by (simp add: r mut_inv_def comp_def)
  show "unat (active_count (mut_layout m)) = length (mut_slots m)"
    using length_active[OF mut_layout_inv[OF assms]]
    by (simp add: mut_slots_def impl_slots_def rsd_slots_def)
qed

lemma clean_recoverable: "layout_inv sz c l \<Longrightarrow> r \<in> set (recoverable l) \<Longrightarrow> clean_raw_span sz r"
  using recovers_inv by (fastforce simp: recovers_def list_all_iff)

lemma remove_between:
  assumes i: "i < length xs" and ys: "ys = xs \<or> ys = take i xs @ drop (Suc i) xs \<or>
    ys = xs[i := last xs] \<or> ys = swap_remove i xs"
  shows "set ys \<subseteq> set xs" and "x \<in> set xs \<Longrightarrow> x \<noteq> xs ! i \<Longrightarrow> x \<in> set ys"
proof -
  have split: "xs = take i xs @ xs ! i # drop (Suc i) xs" using i by (rule id_take_nth_drop)
  then have "last xs \<in> set xs" by (cases "xs = []") auto
  then show "set ys \<subseteq> set xs"
    using ys set_swap_remove_subset[OF i] set_update_subset_insert[of xs i "last xs"]
    by (auto dest: in_set_takeD in_set_dropD)
  assume x: "x \<in> set xs" "x \<noteq> xs ! i"
  then obtain j where j: "j < length xs" "xs ! j = x" "j \<noteq> i" by (auto simp: in_set_conv_nth)
  have "x \<in> set (xs[i := last xs])"
    using j by (metis length_list_update nth_list_update_neq nth_mem)
  moreover have "x \<in> set (take i xs @ drop (Suc i) xs)"
    using x split by (metis Un_iff insert_iff list.simps(15) set_append)
  moreover have "x \<in> set (swap_remove i xs)"
  proof -
    have "x \<in># mset xs - {#xs ! i#}" using x by (simp add: in_diff_count count_eq_zero_iff)
    then show ?thesis using mset_swap_remove[OF i] by (metis set_mset_mset)
  qed
  ultimately show "x \<in> set ys" using ys x by auto
qed

lemma wf_remove_stores:
  assumes inv: "layout_inv sz c l" and i: "i < unat (active_count l)"
  shows "list_all (wf_store sz) (remove_stores i l)"
proof -
  have nz: "active_count l \<noteq> 0" using i by auto
  have "unat (active_count l - 1) < max_spans (mmap_config sz)"
    using inv i by (auto simp: unat_minus1_64[OF nz] layout_inv_def)
  moreover have "wf_layout sz l" using inv by (simp add: layout_inv_def)
  ultimately show ?thesis
    using wf_layout_slot by (simp add: remove_stores_def Let_def)
qed

lemma crash_removal:
  assumes inv: "mut_inv sz m" and crash: "crash_image sz (removal_stores span_id m) (mut_layout m) l'"
  shows "recovers sz l'" and "set (recoverable l') \<subseteq> set (live m)"
    and "set (spec_remove span_id (live m)) \<subseteq> set (recoverable l')"
proof -
  note li = mut_layout_inv[OF inv] and rec = recoverable_mut[OF inv]
  have "recovers sz l' \<and> set (recoverable l') \<subseteq> set (live m) \<and>
    set (spec_remove span_id (live m)) \<subseteq> set (recoverable l')"
  proof (cases "mu_index m span_id")
    case None
    then have "l' = mut_layout m"
      using crash by (simp add: removal_stores_def crash_image_Nil)
    then show ?thesis using recovers_inv[OF li] rec(2) by (auto simp: spec_remove_def)
  next
    case (Some i)
    note i = mut_inv_index(2)[OF inv Some]
    have n: "unat i < unat (active_count (mut_layout m))" using i rec(4) by simp
    have c: "crash_image sz (remove_stores (unat i) (mut_layout m)) (mut_layout m) l'"
      using crash Some by (simp add: removal_stores_def)
    have il: "unat i < length (recoverable (mut_layout m))" using i rec(1) by simp
    note btw = remove_between[OF il crash_remove_recoverable(1)[OF li n c]]
    have "wf_layout sz l'"
      using crash_image_wf[OF c _ wf_remove_stores[OF li n]] li by (simp add: layout_inv_def)
    then have "recovers sz l'"
      using crash_remove_recoverable(2)[OF li n c] btw(1) clean_recoverable[OF li]
      by (auto simp: recovers_def list_all_iff)
    moreover have "recoverable (mut_layout m) ! unat i \<noteq> r" if "raw_span_id r \<noteq> span_id" for r
      using that i rec(1) by auto
    ultimately show ?thesis
      using btw rec(2) by (auto simp: spec_remove_def)
  qed
  then show "recovers sz l'" "set (recoverable l') \<subseteq> set (live m)"
    "set (spec_remove span_id (live m)) \<subseteq> set (recoverable l')" by blast+
qed


section \<open>A crash in a call\<close>

text \<open>The spans an addition keeps: all of them, or all but the oldest when the array is full.\<close>

definition kept_by_add :: "mmap_size \<Rightarrow> live_spans \<Rightarrow> live_spans" where
  "kept_by_add sz rs = (if length rs = max_spans (mmap_config sz) then tl rs else rs)"

lemma kept_by_add_subset: "set (kept_by_add sz rs) \<subseteq> set rs"
  by (cases rs) (auto simp: kept_by_add_def)

text \<open>After the eviction there is room for the new span.\<close>

lemma room_after_eviction:
  assumes inv: "mut_inv sz m" and ctr: "unat (mut_counter m) + 1 < 2 ^ 64"
  shows "unat (active_count (exec_stores sz (eviction_stores m) (mut_layout m))) < max_spans (mmap_config sz)"
    and "layout_inv sz (mut_counter m) (exec_stores sz (eviction_stores m) (mut_layout m))"
proof -
  from mut_room[OF inv ctr] obtain m1 where m1: "mut_inv sz m1" "mut_counter m1 = mut_counter m"
    "live m1 = kept_by_add sz (live m)"
    "mut_layout m1 = exec_stores sz (eviction_stores m) (mut_layout m)"
    unfolding kept_by_add_def by blast
  have "length (kept_by_add sz (live m)) < max_spans (mmap_config sz)"
    using mut_inv_limit[OF inv] max_spans_bounds(1)[of sz] by (auto simp: kept_by_add_def)
  then show "unat (active_count (exec_stores sz (eviction_stores m) (mut_layout m))) < max_spans (mmap_config sz)"
    using recoverable_mut(4)[OF m1(1)] length_live[of m1] m1(3,4) by simp
  show "layout_inv sz (mut_counter m) (exec_stores sz (eviction_stores m) (mut_layout m))"
    using mut_layout_inv[OF m1(1)] m1(2,4) by simp
qed

lemma spec_add_kept:
  "sp_span_id s \<notin> raw_span_id ` set rs \<Longrightarrow>
     spec_step sz (Op_Add s) rs = kept_by_add sz rs @ [to_raw_span sz s]"
  by (simp add: spec_add_def kept_by_add_def)

lemma survives_add:
  assumes fresh: "sp_span_id s \<notin> raw_span_id ` set rs"
    and found: "set found \<subseteq> set rs \<union> {to_raw_span sz s}" "set (kept_by_add sz rs) \<subseteq> set found"
  shows "survives sz (Op_Add s) rs found"
proof (rule survives_between)
  note spec = spec_add_kept[OF fresh, of sz]
  show "set found \<subseteq> set rs \<union> set (spec_step sz (Op_Add s) rs)"
    using found(1) kept_by_add_subset[of sz rs] unfolding spec by auto
  have "to_raw_span sz s \<notin> set rs" using fresh by force
  then show "set rs \<inter> set (spec_step sz (Op_Add s) rs) \<subseteq> set found"
    using found(2) unfolding spec by auto
  show "r = r' \<or> r \<in> set found \<or> r' \<in> set found"
    if "r \<in> set rs" "r' \<in> set (spec_step sz (Op_Add s) rs)" "raw_span_id r = raw_span_id r'" for r r'
  proof (cases "r' \<in> set (kept_by_add sz rs)")
    case True
    then show ?thesis using found(2) by auto
  next
    case False
    then have "r' = to_raw_span sz s" using that(2) spec by auto
    then have "sp_span_id s \<in> raw_span_id ` set rs" using that(1,3) by force
    with fresh show ?thesis by blast
  qed
qed

text \<open>A crash while the oldest span is evicted.\<close>

lemma crash_evict_call:
  assumes inv: "mut_inv sz m" and ctr: "unat (mut_counter m) + 1 < 2 ^ 64"
    and fresh: "sp_span_id s \<notin> raw_span_id ` set (live m)"
    and c: "crash_image sz (eviction_stores m) (mut_layout m) l'"
  shows "recovers sz l' \<and> survives sz (Op_Add s) (live m) (recoverable l')"
proof (cases "unat (impl_count (mu_impl m)) = impl_max_count (mu_impl m)")
  case True
  then have full: "length (live m) = max_spans (mmap_config sz)"
    using sdi.cnt_slots[of sz "mu_impl m"] impl_max_count_inv[of sz "mu_impl m"] inv
    by (simp add: mut_inv_def mut_slots_def)
  note ev = mut_evict[OF inv ctr full]
  have "crash_image sz (removal_stores (raw_span_id (hd (live m))) m) (mut_layout m) l'"
    using c True ev(1,2) by (simp add: eviction_stores_def)
  note cr = crash_removal[OF inv this]
  have "live m \<noteq> []" using full max_spans_bounds(1)[of sz] by (auto simp del: length_live)
  then have "spec_remove (raw_span_id (hd (live m))) (live m) = kept_by_add sz (live m)"
    using spec_remove_hd[OF distinct_live[OF inv]] full by (simp add: kept_by_add_def)
  with cr show ?thesis by (auto intro!: survives_add[OF fresh])
next
  case False
  then have "l' = mut_layout m" using c by (simp add: eviction_stores_def crash_image_Nil)
  then show ?thesis
    using recovers_inv[OF mut_layout_inv[OF inv]] recoverable_mut(2)[OF inv] kept_by_add_subset[of sz "live m"]
    by (auto intro!: survives_add[OF fresh])
qed

lemma crash_add_call:
  assumes inv: "mut_inv sz m" and ctr: "unat (mut_counter m) + 1 < 2 ^ 64"
    and new: "mu_index m (sp_span_id s) = None"
    and crash: "crash_image sz (op_stores sz (Op_Add s) m) (mut_layout m) l'"
  shows "recovers sz l' \<and> survives sz (Op_Add s) (live m) (recoverable l')"
proof -
  let ?kept = "kept_by_add sz (live m)"
  have fresh: "sp_span_id s \<notin> raw_span_id ` set (live m)"
    using new mut_inv_index(1)[OF inv, of "sp_span_id s"] by (simp add: ids_live)
  from mut_room[OF inv ctr] obtain m1 where m1: "mut_inv sz m1" "mut_counter m1 = mut_counter m"
    "live m1 = ?kept" "mut_layout m1 = exec_stores sz (eviction_stores m) (mut_layout m)"
    unfolding kept_by_add_def by blast
  have "crash_image sz (eviction_stores m) (mut_layout m) l' \<or>
      crash_image sz (add_stores sz s (mut_counter m1 + 1) (mut_layout m1)) (mut_layout m1) l'"
    using crash new by (simp add: crash_image_append m1(2,4))
  then show ?thesis
  proof
    assume c: "crash_image sz (add_stores sz s (mut_counter m1 + 1) (mut_layout m1)) (mut_layout m1) l'"
    have li: "layout_inv sz (mut_counter m1) (mut_layout m1)"
      using m1(1) by (rule mut_layout_inv)
    have room: "unat (active_count (mut_layout m1)) < max_spans (mmap_config sz)"
      using room_after_eviction(1)[OF inv ctr] m1(4) by simp
    have mark: "mut_counter m1 < mut_counter m1 + 1"
      using ctr m1(2) by (simp add: word_less_nat_alt unat_plus1_64)
    note cr = crash_add_recoverable[OF li room mark c]
    have "wf_layout sz l'"
      using li by (intro crash_image_wf[OF c]) (simp_all add: layout_inv_def add_stores_def Let_def)
    then have "recovers sz l'"
      using cr clean_recoverable[OF li] by (auto simp: recovers_def list_all_iff)
    moreover have "survives sz (Op_Add s) (live m) (recoverable l')"
      using cr(1) recoverable_mut(2)[OF m1(1)] m1(3) kept_by_add_subset[of sz "live m"]
      by (intro survives_add[OF fresh]) auto
    ultimately show ?thesis by blast
  qed (rule crash_evict_call[OF inv ctr fresh])
qed

lemma crash_modify_call:
  assumes inv: "mut_inv sz m" and idx: "mu_index m span_id = Some i"
    and spec: "spec_step sz op (live m) = spec_modify span_id f (live m)"
    and keep: "\<And>r. raw_span_id (f r) = raw_span_id r"
    and l': "recoverable l' = (recoverable (mut_layout m))[unat i := r']"
      "active_count l' = active_count (mut_layout m)" "wf_layout sz l'"
    and r': "clean_raw_span sz r'" "raw_span_id r' = span_id"
      "\<And>r. r \<in> set (live m) \<Longrightarrow> raw_span_id r = span_id \<Longrightarrow>
        r' = r \<or> r' = f r \<or> half_written sz op (live m) r'"
  shows "recovers sz l' \<and> survives sz op (live m) (recoverable l')"
proof -
  note li = mut_layout_inv[OF inv] and rec = recoverable_mut[OF inv]
  note i = mut_inv_index(2)[OF inv idx]
  let ?R = "recoverable (mut_layout m)"
  have iR: "unat i < length ?R" "raw_span_id (?R ! unat i) = span_id" using i rec(1) by simp_all
  have old: "?R ! unat i \<in> set (live m)" using iR(1) rec(2) by (metis nth_mem)
  have set_l': "set (recoverable l') \<subseteq> insert r' (set (live m))"
    using set_update_subset_insert[of ?R "unat i" r'] rec(2) l'(1) by simp
  have "r' \<in> set (recoverable l')" using iR(1) l'(1) by (simp add: set_update_memI)
  moreover have other: "r \<in> set (recoverable l')" if r: "r \<in> set (live m)" "raw_span_id r \<noteq> span_id" for r
  proof -
    obtain j where j: "j < length ?R" "?R ! j = r" using r(1) rec(2) by (metis in_set_conv_nth)
    then have "j \<noteq> unat i" using iR(2) r(2) by auto
    with j l'(1) show ?thesis by (metis length_list_update nth_list_update_neq nth_mem)
  qed
  moreover have uniq: "r = ?R ! unat i" if "r \<in> set (live m)" "raw_span_id r = span_id" for r
    using that old distinct_live[OF inv] iR(2) by (auto simp: distinct_map dest: inj_onD)
  moreover have "recovers sz l'"
    using l'(2,3) r'(1) set_l' li clean_recoverable[OF li] rec(2)
    by (auto simp: recovers_def list_all_iff layout_inv_def)
  moreover have "list_all (\<lambda>r. r \<in> set (live m) \<or> r \<in> set (spec_step sz op (live m)) \<or>
      half_written sz op (live m) r) (recoverable l')"
  proof -
    have "r' \<in> set (live m) \<or> r' \<in> set (spec_step sz op (live m)) \<or> half_written sz op (live m) r'"
      using r'(3)[OF old iR(2)] old iR(2) unfolding spec spec_modify_def by auto
    then show ?thesis using set_l' by (auto simp: list_all_iff)
  qed
  moreover have "r \<in> set (recoverable l') \<or>
      list_ex (\<lambda>q. raw_span_id q = raw_span_id r \<and> half_written sz op (live m) q) (recoverable l')"
    if r: "r \<in> set (live m)" "r \<in> set (spec_step sz op (live m))" for r
  proof (cases "raw_span_id r = span_id")
    case True
    obtain r0 where r0: "r0 \<in> set (live m)" "r = (if raw_span_id r0 = span_id then f r0 else r0)"
      using r(2) unfolding spec spec_modify_def by auto
    then have id0: "raw_span_id r0 = span_id" using True keep[of r0] by (auto split: if_splits)
    then have "r0 = r" using uniq[OF r0(1)] uniq[OF r(1) True] by simp
    then have "f r = r" using r0(2) id0 by simp
    then have "r' = r \<or> half_written sz op (live m) r'" using r'(3)[OF r(1) True] by auto
    then show ?thesis
      using \<open>r' \<in> set (recoverable l')\<close> r'(2) True by (auto simp: list_ex_iff)
  qed (use r other in auto)
  ultimately show ?thesis
    using r'(2) unfolding survives_def by (auto simp: image_iff)
qed


lemma survives_unchanged: "survives sz op before before"
  by (auto simp: survives_def list_all_iff)

lemma survives_cong: "set found = set found' \<Longrightarrow> survives sz op before found = survives sz op before found'"
  by (simp add: survives_def list_all_iff list_ex_iff)

lemma indexed_span:
  assumes inv: "mut_inv sz m" and idx: "mu_index m span_id = Some i"
  defines "r \<equiv> recoverable (mut_layout m) ! unat i"
  shows "unat i < unat (active_count (mut_layout m))" and "clean_raw_span sz r"
    and "raw_span_id r = span_id" and "r = slot_span (mut_layout m) (unat i)"
    and "q \<in> set (live m) \<Longrightarrow> raw_span_id q = span_id \<Longrightarrow> q = r"
proof -
  note li = mut_layout_inv[OF inv] and rec = recoverable_mut[OF inv]
  note i = mut_inv_index(2)[OF inv idx]
  show n: "unat i < unat (active_count (mut_layout m))" using i rec(4) by simp
  have r: "r \<in> set (recoverable (mut_layout m))"
    using i by (simp add: r_def rec(1))
  then show "clean_raw_span sz r" using clean_recoverable[OF li] by blast
  show id: "raw_span_id r = span_id" using i rec(1) by (simp add: r_def)
  show "r = slot_span (mut_layout m) (unat i)"
    using n length_active[OF li] nth_active[OF n] by (simp add: r_def recoverable_live[OF li])
  show "q \<in> set (live m) \<Longrightarrow> raw_span_id q = span_id \<Longrightarrow> q = r"
    using r id rec(2,3) by (auto simp: distinct_map dest: inj_onD)
qed

lemma crash_end_call:
  assumes inv: "mut_inv sz m" and idx: "mu_index m span_id = Some i"
    and crash: "crash_image sz (op_stores sz (Op_End now span_id t) m) (mut_layout m) l'"
  shows "recovers sz l' \<and> survives sz (Op_End now span_id t) (live m) (recoverable l')"
proof -
  let ?f = "\<lambda>r. r\<lparr>raw_end_time := (if t = 0 then now else t)\<rparr>" and ?R = "recoverable (mut_layout m)"
  note li = mut_layout_inv[OF inv] and ix = indexed_span[OF inv idx]
  have c: "crash_image sz [Store_End_Time (unat i) (if t = 0 then now else t)] (mut_layout m) l'"
    using crash idx by simp
  have wf: "wf_layout sz l'"
    using crash_image_wf[OF c] li by (simp add: layout_inv_def)
  have cl: "clean_raw_span sz (?f (?R ! unat i))"
    using ix(2) by (simp add: clean_raw_span_def wf_raw_span_def)
  from crash_end_recoverable[OF li ix(1) c] obtain r' where
    r': "recoverable l' = ?R[unat i := r']" "r' = ?R ! unat i \<or> r' = ?f (?R ! unat i)"
    by (metis list_update_id)
  then have "clean_raw_span sz r'" "raw_span_id r' = span_id"
    using ix(2,3) cl by auto
  then show ?thesis
    using r'(2) ix(5)
    by (intro crash_modify_call[where f = ?f, OF inv idx _ _ r'(1)
        crash_end_recoverable(2)[OF li ix(1) c] wf]) auto
qed

lemma crash_set_attribute_call:
  assumes inv: "mut_inv sz m" and idx: "mu_index m span_id = Some i"
    and crash: "crash_image sz (op_stores sz (Op_Set_Attribute span_id key val) m) (mut_layout m) l'"
  shows "recovers sz l' \<and> survives sz (Op_Set_Attribute span_id key val) (live m) (recoverable l')"
proof -
  let ?R = "recoverable (mut_layout m)"
  note li = mut_layout_inv[OF inv] and ix = indexed_span[OF inv idx]
  have il: "unat i < length (ml_marked_spans (mut_layout m))"
    using ix(1) li by (simp add: layout_inv_def wf_layout_def)
  have clean: "clean_raw_span sz (slot_span (mut_layout m) (unat i))" using ix(2,4) by simp
  from exec_set_attribute[OF clean il] obtain j ss where
    ss: "set_attribute_stores sz (unat i) key val (slot_span (mut_layout m) (unat i)) = Inr (j, ss)"
    by blast
  have c: "crash_image sz ss (mut_layout m) l'" using crash idx ss by simp
  note cr = crash_set_attribute_recoverable[OF li ix(1) ss c]
  from cr(1) obtain r' where
    r': "recoverable l' = ?R[unat i := r']" "attribute_crash sz key val (?R ! unat i) r'"
    by blast
  have id: "raw_span_id r' = span_id" "clean_raw_span sz r'"
    using attribute_crash_span[OF r'(2)] ix(3) by simp_all
  show ?thesis
    using r' id ix(3,5)
    by (intro crash_modify_call[where f = "with_attribute sz key val", OF inv idx _ _ r'(1) cr(2,3) id(2,1)])
      (auto simp: list_ex_iff)
qed

lemma crash_remove_call:
  assumes inv: "mut_inv sz m"
    and crash: "crash_image sz (op_stores sz (Op_Remove span_id) m) (mut_layout m) l'"
  shows "recovers sz l' \<and> survives sz (Op_Remove span_id) (live m) (recoverable l')"
proof -
  note cr = crash_removal[OF inv, of span_id l']
  have "spec_remove span_id (live m) = spec_step sz (Op_Remove span_id) (live m)" by simp
  moreover have "set (spec_remove span_id (live m)) \<subseteq> set (live m)" by (auto simp: spec_remove_def)
  ultimately have "survives sz (Op_Remove span_id) (live m) (recoverable l')"
    using cr(2,3) crash distinct_live[OF inv]
    by (intro survives_between) (auto simp: distinct_map dest: inj_onD)
  with cr(1) crash show ?thesis by simp
qed

lemma crash_idle_call:
  assumes inv: "mut_inv sz m" and idle: "op_stores sz op m = []"
    and crash: "crash_image sz (op_stores sz op m) (mut_layout m) l'"
  shows "recovers sz l' \<and> survives sz op (live m) (recoverable l')"
proof -
  have "l' = mut_layout m" using crash idle by (simp add: crash_image_Nil)
  then show ?thesis
    using recovers_inv[OF mut_layout_inv[OF inv]] survives_cong[OF recoverable_mut(2)[OF inv]] survives_unchanged
    by auto
qed

lemma crash_call:
  assumes inv: "mut_inv sz m" and ctr: "unat (mut_counter m) + 1 < 2 ^ 64"
    and crash: "crash_image sz (op_stores sz op m) (mut_layout m) l'"
  shows "recovers sz l' \<and> survives sz op (live m) (recoverable l')"
proof -
  note idle = crash_idle_call[OF inv _ crash]
  show ?thesis
  proof (cases op)
    case (Op_Add s)
    with crash_add_call[OF inv ctr, of s l'] crash idle show ?thesis
      by (cases "mu_index m (sp_span_id s)") auto
  next
    case (Op_Remove span_id)
    with crash_remove_call[OF inv] crash show ?thesis by blast
  next
    case (Op_End now span_id t)
    with crash_end_call[OF inv, of span_id _ now t l'] crash idle show ?thesis
      by (cases "mu_index m span_id") auto
  next
    case (Op_Set_Attribute span_id key val)
    with crash_set_attribute_call[OF inv, of span_id _ key val l'] crash idle show ?thesis
      by (cases "mu_index m span_id") auto
  qed
qed

text \<open>A crash in the last of a list of calls, from a writer in any reachable state.\<close>

lemma crash_run:
  assumes inv: "mut_inv sz m" and ops: "list_all valid_op (ops @ [op])"
    and ctr: "unat (mut_counter m) + length ops + 1 < 2 ^ 64"
  shows "\<exists>m'. mut_run ops m = Inr m' \<and> live m' = spec_run sz ops (live m) \<and>
    (crash_image sz (op_stores sz op m') (mut_layout m') l' \<longrightarrow>
       recovers sz l' \<and> survives sz op (live m') (recoverable l'))"
proof -
  from mut_run_refines[OF inv, of ops] ops ctr obtain m' where m': "mut_run ops m = Inr m'"
    "mut_inv sz m'" "unat (mut_counter m') \<le> unat (mut_counter m) + length ops"
    "live m' = spec_run sz ops (live m)"
    by auto
  have "unat (mut_counter m') + 1 < 2 ^ 64" using m'(3) ctr by simp
  with m' crash_call[OF m'(2)] show ?thesis by blast
qed

end
