(* ===== verification/Header_Ops.thy ===== *)
theory Header_Ops
  imports Crash_Runs
begin

text \<open>
  \<^verbatim>\<open>header.cpp\<close>: validity of the header of a mapping and its reset. A mapping that is not
  initialized is \<open>None\<close>. The size word of the header is any 64-bit value, the three members
  of \<^verbatim>\<open>MmapSize\<close> are the supported ones.
\<close>

section \<open>Operations\<close>

definition header_version :: u64 where "header_version = 2"
definition header_signature :: u64 where "header_signature = 0x48535243"

definition is_supported_size :: "u64 \<Rightarrow> bool" where
  "is_supported_size mmap_size \<longleftrightarrow>
     mmap_size = mmap_size_code Small \<or> mmap_size = mmap_size_code Medium \<or>
     mmap_size = mmap_size_code Large"

definition is_header_valid :: "header option \<Rightarrow> bool" where
  "is_header_valid mapping =
     (case mapping of
        None \<Rightarrow> False
      | Some h \<Rightarrow> h_signature h = header_signature \<and> is_supported_size (h_mmap_size h))"

definition is_header_version_current :: "header option \<Rightarrow> bool" where
  "is_header_version_current mapping =
     (case mapping of None \<Rightarrow> False | Some h \<Rightarrow> h_version h = header_version)"

text \<open>The four stores of \<^verbatim>\<open>reset_header\<close>, in order: the count first, the signature last.\<close>

definition reset_header_stores :: "u64 \<Rightarrow> store list" where
  "reset_header_stores mmap_size =
     [Store_Count 0, Store_Mmap_Size mmap_size, Store_Version header_version,
      Store_Signature header_signature]"

definition reset_header :: "u64 \<Rightarrow> memory_layout option \<Rightarrow> memory_layout option" where
  "reset_header mmap_size mapping =
     (case mapping of
        None \<Rightarrow> None
      | Some l \<Rightarrow> Some (exec_stores Small (reset_header_stores mmap_size) l))"

section \<open>Laws\<close>

lemma is_supported_size_iff: "is_supported_size w \<longleftrightarrow> (\<exists>sz. w = mmap_size_code sz)"
  unfolding is_supported_size_def by (metis mmap_size.exhaust)

text \<open>The stores of the header do not depend on the layout the mapping is read as.\<close>

lemma reset_header_any: "exec_stores sz (reset_header_stores w) l = exec_stores sz' (reset_header_stores w) l"
  by (simp add: reset_header_stores_def)

lemma reset_header_eq:
  "exec_stores sz (reset_header_stores w) l =
     l\<lparr>ml_header := \<lparr>h_signature = header_signature, h_version = header_version, h_mmap_size = w,
       h_active_span_count = 0\<rparr>\<rparr>"
  by (simp add: reset_header_stores_def upd_header_def)

lemma reset_header_valid:
  assumes "reset_header w (Some l) = Some l'"
  shows "is_header_valid (Some (ml_header l')) \<longleftrightarrow> is_supported_size w"
    and "is_header_version_current (Some (ml_header l'))"
    and "active_count l' = 0" and "ml_marked_spans l' = ml_marked_spans l"
  using assms
  by (auto simp: reset_header_def reset_header_eq is_header_valid_def is_header_version_current_def)

text \<open>
  An interrupted reset: either nothing has been written yet, or the count is already zero,
  so that no span of the previous contents is recovered under the new header.
\<close>

lemma crash_reset_header:
  assumes "crash_image sz (reset_header_stores w) l l'"
  shows "l' = l \<or> active_count l' = 0"
  using assms by (auto simp: reset_header_stores_def crash_cases upd_header_def)

section \<open>A fresh writer\<close>

text \<open>
  The state the constructor of \<^verbatim>\<open>Context\<close> establishes: a header for the size, no span, and
  a writer over it.
\<close>

definition fresh_layout :: "mmap_size \<Rightarrow> memory_layout" where
  "fresh_layout sz =
     \<lparr>ml_header = \<lparr>h_signature = header_signature, h_version = header_version,
        h_mmap_size = mmap_size_code sz, h_active_span_count = 0\<rparr>,
      ml_marked_spans = replicate (max_spans (mmap_config sz)) (zero_marked_span sz)\<rparr>"

definition fresh_writer :: "mmap_size \<Rightarrow> mutable_span_data" where
  "fresh_writer sz = mut_new (impl_of sz \<lparr>rd_layout = fresh_layout sz, rd_mark_counter = 0\<rparr>)"

lemma fresh_layout_inv: "layout_inv sz 0 (fresh_layout sz)" "active (fresh_layout sz) = []"
proof -
  have "wf_layout sz (fresh_layout sz)"
    using wf_zero_layout[of sz] by (simp add: wf_layout_def fresh_layout_def zero_layout_def)
  then show "layout_inv sz 0 (fresh_layout sz)" "active (fresh_layout sz) = []"
    by (simp_all add: layout_inv_def fresh_layout_def active_def list_all_iff zero_marked_span_def)
qed

lemma fresh_writer_simps [simp]:
  "mut_inv sz (fresh_writer sz)" "live (fresh_writer sz) = []"
  "mut_counter (fresh_writer sz) = 0" "mut_slots (fresh_writer sz) = []"
  "mut_layout (fresh_writer sz) = fresh_layout sz" "mu_index (fresh_writer sz) = Map.empty"
proof -
  let ?x = "impl_of sz \<lparr>rd_layout = fresh_layout sz, rd_mark_counter = 0\<rparr>"
  have x: "impl_inv sz ?x" "impl_slots ?x = []"
    using fresh_layout_inv[of sz] by (simp_all add: impl_defs rsd_inv_def rsd_slots_def)
  then show "mut_inv sz (fresh_writer sz)" "live (fresh_writer sz) = []"
    by (simp_all add: fresh_writer_def mut_inv_new)
  show "mut_counter (fresh_writer sz) = 0" "mut_slots (fresh_writer sz) = []"
    "mut_layout (fresh_writer sz) = fresh_layout sz" "mu_index (fresh_writer sz) = Map.empty"
    using x(2) by (simp_all add: fresh_writer_def mut_new_def impl_counter_def mut_slots_def)
qed

text \<open>Clearing a well-shaped layout with a header gives the fresh one.\<close>

lemma remove_all_fresh:
  assumes "wf_layout sz l" "h_mmap_size (ml_header l) = mmap_size_code sz"
    and "h_signature (ml_header l) = header_signature" "h_version (ml_header l) = header_version"
  shows "exec_stores sz remove_all_stores l = fresh_layout sz"
  using assms
  by (simp add: remove_all_stores_def upd_header_def fresh_layout_def wf_layout_def)

end
