(* ===== verification/Byte_Codec.thy ===== *)
theory Byte_Codec
  imports Raw_Layout
begin

text \<open>
  The bytes of the mapped structures. The structs are packed and the machines are
  little-endian, so a structure is the concatenation of its members in declaration order and
  a 64-bit member is its eight bytes from the least significant on. The contract of an
  encoding is a locale: a bijection between the values of a shape and the byte strings of
  one length. It holds of every structure of the file, so reading a file as a layout loses
  nothing and any bytes of the right length are a layout.
\<close>

section \<open>The contract\<close>

locale codec =
  fixes enc :: "'a \<Rightarrow> bytes" and dec :: "bytes \<Rightarrow> 'a" and n :: nat and ok :: "'a \<Rightarrow> bool"
  assumes enc_length: "ok x \<Longrightarrow> length (enc x) = n"
    and dec_enc: "ok x \<Longrightarrow> dec (enc x) = x"
    and ok_dec: "length bs = n \<Longrightarrow> ok (dec bs)"
    and enc_dec: "length bs = n \<Longrightarrow> enc (dec bs) = bs"
begin

text \<open>Reading a member in front of others.\<close>

lemma dec_front: "ok x \<Longrightarrow> dec (take n (enc x @ rest)) = x"
  by (simp add: enc_length dec_enc)

lemma enc_inject: "ok x \<Longrightarrow> ok y \<Longrightarrow> enc x = enc y \<longleftrightarrow> x = y"
  by (metis dec_enc)

lemma enc_bij: "bij_betw enc {x. ok x} {bs. length bs = n}"
proof (rule bij_betw_byWitness[where f' = dec])
  show "enc ` {x. ok x} \<subseteq> {bs. length bs = n}" "dec ` {bs. length bs = n} \<subseteq> {x. ok x}"
    using enc_length ok_dec by auto
qed (simp_all add: dec_enc enc_dec)

lemma overwrite_front: "ok x \<Longrightarrow> length (enc x @ drop n bs) = max n (length bs)"
  by (simp add: enc_length max_def)

end

section \<open>Combinations\<close>

definition enc_pair :: "('a \<Rightarrow> bytes) \<Rightarrow> ('b \<Rightarrow> bytes) \<Rightarrow> 'a \<times> 'b \<Rightarrow> bytes" where
  "enc_pair e1 e2 p = e1 (fst p) @ e2 (snd p)"

definition dec_pair :: "nat \<Rightarrow> (bytes \<Rightarrow> 'a) \<Rightarrow> (bytes \<Rightarrow> 'b) \<Rightarrow> bytes \<Rightarrow> 'a \<times> 'b" where
  "dec_pair n d1 d2 bs = (d1 (take n bs), d2 (drop n bs))"

fun enc_array :: "('a \<Rightarrow> bytes) \<Rightarrow> 'a list \<Rightarrow> bytes" where
  "enc_array e [] = []"
| "enc_array e (x # xs) = e x @ enc_array e xs"

fun dec_array :: "nat \<Rightarrow> (bytes \<Rightarrow> 'a) \<Rightarrow> nat \<Rightarrow> bytes \<Rightarrow> 'a list" where
  "dec_array n d 0 bs = []"
| "dec_array n d (Suc k) bs = d (take n bs) # dec_array n d k (drop n bs)"

lemma codec_pair:
  assumes "codec e1 d1 n1 ok1" "codec e2 d2 n2 ok2"
  shows "codec (enc_pair e1 e2) (dec_pair n1 d1 d2) (n1 + n2) (\<lambda>p. ok1 (fst p) \<and> ok2 (snd p))"
proof -
  show ?thesis
    using assms by (intro codec.intro) (simp_all add: enc_pair_def dec_pair_def codec.enc_length
        codec.dec_enc codec.ok_dec codec.enc_dec)
qed

lemma codec_array:
  assumes c: "codec e d n ok"
  shows "codec (enc_array e) (dec_array n d k) (k * n) (\<lambda>xs. length xs = k \<and> list_all ok xs)"
proof
  fix xs :: "'a list"
  assume "length xs = k \<and> list_all ok xs"
  then show "length (enc_array e xs) = k * n" "dec_array n d k (enc_array e xs) = xs"
    by (induction xs arbitrary: k) (auto simp: codec.enc_length[OF c] codec.dec_enc[OF c])
next
  fix bs :: bytes
  assume "length bs = k * n"
  then show "length (dec_array n d k bs) = k \<and> list_all ok (dec_array n d k bs)"
    "enc_array e (dec_array n d k bs) = bs"
    by (induction k arbitrary: bs) (auto simp: codec.ok_dec[OF c] codec.enc_dec[OF c])
qed

text \<open>A record, read through its tuple of members.\<close>

lemma codec_iso:
  assumes c: "codec e d n ok" and fg: "\<And>x. g (f x) = x" "\<And>y. f (g y) = y"
  shows "codec (\<lambda>x. e (f x)) (\<lambda>bs. g (d bs)) n (\<lambda>x. ok (f x))"
  by unfold_locales (simp_all add: fg codec.enc_length[OF c] codec.dec_enc[OF c] codec.ok_dec[OF c]
      codec.enc_dec[OF c])

lemma codec_weaken: "codec e d n ok \<Longrightarrow> (\<And>x. ok x \<longleftrightarrow> ok' x) \<Longrightarrow> codec e d n ok'"
  by (simp add: codec_def)

section \<open>Scalars and text\<close>

fun le_digits :: "nat \<Rightarrow> nat \<Rightarrow> nat list" where
  "le_digits 0 x = []"
| "le_digits (Suc n) x = x mod 256 # le_digits n (x div 256)"

fun le_value :: "nat list \<Rightarrow> nat" where
  "le_value [] = 0"
| "le_value (d # ds) = d + 256 * le_value ds"

definition enc_u64 :: "u64 \<Rightarrow> bytes" where
  "enc_u64 w = map of_nat (le_digits 8 (unat w))"

definition dec_u64 :: "bytes \<Rightarrow> u64" where
  "dec_u64 bs = of_nat (le_value (map unat bs))"

lemma length_le_digits [simp]: "length (le_digits n x) = n"
  by (induction n arbitrary: x) auto

lemma le_digits_less: "d \<in> set (le_digits n x) \<Longrightarrow> d < 256"
  by (induction n arbitrary: x) auto

lemma le_value_digits: "le_value (le_digits n x) = x mod 256 ^ n"
proof (induction n arbitrary: x)
  case (Suc n)
  then show ?case by (simp add: mod_mult2_eq)
qed simp

lemma le_value_less: "list_all (\<lambda>d. d < 256) ds \<Longrightarrow> le_value ds < 256 ^ length ds"
  by (induction ds) auto

lemma le_digits_value: "list_all (\<lambda>d. d < 256) ds \<Longrightarrow> le_digits (length ds) (le_value ds) = ds"
  by (induction ds) auto

lemma codec_u64: "codec enc_u64 dec_u64 8 (\<lambda>_. True)"
proof
  fix w :: u64
  show "length (enc_u64 w) = 8" by (simp add: enc_u64_def)
  have "map (\<lambda>d. unat (of_nat d :: byte)) (le_digits 8 (unat w)) = le_digits 8 (unat w)"
    by (rule map_idI) (auto dest: le_digits_less simp: unat_of_nat)
  then show "dec_u64 (enc_u64 w) = w"
    using unat_less_64[of w] by (simp add: enc_u64_def dec_u64_def comp_def le_value_digits)
next
  fix bs :: bytes
  assume len: "length bs = 8"
  have "unat b < 256" for b :: byte using unsigned_less[of b] by simp
  then have d: "list_all (\<lambda>d. d < 256) (map unat bs)" by (simp add: list_all_iff)
  have "unat (dec_u64 bs) = le_value (map unat bs)"
    using le_value_less[OF d] len by (simp add: dec_u64_def)
  then show "enc_u64 (dec_u64 bs) = bs"
    using le_digits_value[OF d] len by (simp add: enc_u64_def comp_def)
qed simp

lemma codec_text: "codec (\<lambda>b. b) (\<lambda>b. b) n (\<lambda>b. length b = n)"
  by unfold_locales simp_all

section \<open>The structures of the file\<close>

text \<open>Members in the order of the declarations.\<close>

definition attribute_members :: "raw_attribute \<Rightarrow> bytes \<times> bytes" where
  "attribute_members a = (attr_key a, attr_value a)"

definition attribute_of_members :: "bytes \<times> bytes \<Rightarrow> raw_attribute" where
  "attribute_of_members = (\<lambda>(k, v). \<lparr>attr_key = k, attr_value = v\<rparr>)"

definition span_members ::
    "raw_span \<Rightarrow> (u64 \<times> u64) \<times> u64 \<times> u64 \<times> u64 \<times> u64 \<times> bytes \<times> u64 \<times> raw_attribute list" where
  "span_members r =
     (raw_trace_id r, raw_span_id r, raw_parent_span_id r, raw_start_time r, raw_end_time r,
      raw_name r, raw_attr_count r, raw_attributes r)"

definition span_of_members ::
    "(u64 \<times> u64) \<times> u64 \<times> u64 \<times> u64 \<times> u64 \<times> bytes \<times> u64 \<times> raw_attribute list \<Rightarrow> raw_span" where
  "span_of_members = (\<lambda>(t, i, p, s, e, n, c, as).
     \<lparr>raw_trace_id = t, raw_span_id = i, raw_parent_span_id = p, raw_start_time = s,
      raw_end_time = e, raw_name = n, raw_attr_count = c, raw_attributes = as\<rparr>)"

definition marked_members :: "marked_span \<Rightarrow> u64 \<times> raw_span" where
  "marked_members m = (ms_mark m, ms_span m)"

definition marked_of_members :: "u64 \<times> raw_span \<Rightarrow> marked_span" where
  "marked_of_members = (\<lambda>(w, r). \<lparr>ms_mark = w, ms_span = r\<rparr>)"

definition header_members :: "header \<Rightarrow> u64 \<times> u64 \<times> u64 \<times> u64" where
  "header_members h = (h_signature h, h_version h, h_mmap_size h, h_active_span_count h)"

definition header_of_members :: "u64 \<times> u64 \<times> u64 \<times> u64 \<Rightarrow> header" where
  "header_of_members = (\<lambda>(s, v, m, c).
     \<lparr>h_signature = s, h_version = v, h_mmap_size = m, h_active_span_count = c\<rparr>)"

definition layout_members :: "memory_layout \<Rightarrow> header \<times> marked_span list" where
  "layout_members l = (ml_header l, ml_marked_spans l)"

definition layout_of_members :: "header \<times> marked_span list \<Rightarrow> memory_layout" where
  "layout_of_members = (\<lambda>(h, ms). \<lparr>ml_header = h, ml_marked_spans = ms\<rparr>)"

lemmas member_defs =
  attribute_members_def attribute_of_members_def span_members_def span_of_members_def
  marked_members_def marked_of_members_def header_members_def header_of_members_def
  layout_members_def layout_of_members_def

definition enc_attribute :: "raw_attribute \<Rightarrow> bytes" where
  "enc_attribute a = enc_pair (\<lambda>b. b) (\<lambda>b. b) (attribute_members a)"

definition dec_attribute :: "bytes \<Rightarrow> raw_attribute" where
  "dec_attribute bs = attribute_of_members (dec_pair attr_key_size (\<lambda>b. b) (\<lambda>b. b) bs)"

definition enc_raw_span :: "raw_span \<Rightarrow> bytes" where
  "enc_raw_span r =
     enc_pair (enc_pair enc_u64 enc_u64) (enc_pair enc_u64 (enc_pair enc_u64 (enc_pair enc_u64
       (enc_pair enc_u64 (enc_pair (\<lambda>b. b) (enc_pair enc_u64 (enc_array enc_attribute)))))))
     (span_members r)"

definition dec_raw_span :: "mmap_size \<Rightarrow> bytes \<Rightarrow> raw_span" where
  "dec_raw_span sz bs = span_of_members
     (dec_pair (8 + 8) (dec_pair 8 dec_u64 dec_u64) (dec_pair 8 dec_u64 (dec_pair 8 dec_u64
       (dec_pair 8 dec_u64 (dec_pair 8 dec_u64 (dec_pair span_name_size (\<lambda>b. b)
         (dec_pair 8 dec_u64
           (dec_array sizeof_raw_attribute dec_attribute (max_attributes (mmap_config sz))))))))) bs)"

definition enc_marked_span :: "marked_span \<Rightarrow> bytes" where
  "enc_marked_span m = enc_pair enc_u64 enc_raw_span (marked_members m)"

definition dec_marked_span :: "mmap_size \<Rightarrow> bytes \<Rightarrow> marked_span" where
  "dec_marked_span sz bs = marked_of_members (dec_pair 8 dec_u64 (dec_raw_span sz) bs)"

definition enc_header :: "header \<Rightarrow> bytes" where
  "enc_header h =
     enc_pair enc_u64 (enc_pair enc_u64 (enc_pair enc_u64 enc_u64)) (header_members h)"

definition dec_header :: "bytes \<Rightarrow> header" where
  "dec_header bs = header_of_members
     (dec_pair 8 dec_u64 (dec_pair 8 dec_u64 (dec_pair 8 dec_u64 dec_u64)) bs)"

definition enc_layout :: "memory_layout \<Rightarrow> bytes" where
  "enc_layout l = enc_pair enc_header (enc_array enc_marked_span) (layout_members l)"

definition dec_layout :: "mmap_size \<Rightarrow> bytes \<Rightarrow> memory_layout" where
  "dec_layout sz bs = layout_of_members
     (dec_pair sizeof_header dec_header
       (dec_array (sizeof_marked_span sz) (dec_marked_span sz) (max_spans (mmap_config sz))) bs)"

lemma codec_attribute: "codec enc_attribute dec_attribute sizeof_raw_attribute wf_attribute"
  unfolding enc_attribute_def dec_attribute_def sizeof_raw_attribute_def
  by (rule codec_weaken[OF codec_iso[OF codec_pair[OF codec_text codec_text]]])
    (auto simp: member_defs wf_attribute_def)

lemma codec_raw_span: "codec enc_raw_span (dec_raw_span sz) (sizeof_raw_span sz) (wf_raw_span sz)"
proof -
  note attrs = codec_array[OF codec_attribute, of "max_attributes (mmap_config sz)"]
  note u = codec_u64
  have "codec enc_raw_span (dec_raw_span sz)
      ((8 + 8) + (8 + (8 + (8 + (8 + (span_name_size + (8 +
        max_attributes (mmap_config sz) * sizeof_raw_attribute))))))) (wf_raw_span sz)"
    unfolding enc_raw_span_def dec_raw_span_def
    by (rule codec_weaken[OF codec_iso[OF codec_pair[OF codec_pair[OF u u] codec_pair[OF u
        codec_pair[OF u codec_pair[OF u codec_pair[OF u codec_pair[OF codec_text
        codec_pair[OF u attrs]]]]]]]]])
      (auto simp: member_defs wf_raw_span_def)
  then show ?thesis by (simp add: sizeof_raw_span_def offset_attr_count_def add.assoc)
qed

lemma codec_marked_span:
  "codec enc_marked_span (dec_marked_span sz) (sizeof_marked_span sz) (\<lambda>m. wf_raw_span sz (ms_span m))"
  unfolding enc_marked_span_def dec_marked_span_def sizeof_marked_span_def
  by (rule codec_weaken[OF codec_iso[OF codec_pair[OF codec_u64 codec_raw_span]]])
    (auto simp: member_defs)

lemma codec_header: "codec enc_header dec_header sizeof_header (\<lambda>_. True)"
proof -
  have "codec enc_header dec_header (8 + (8 + (8 + 8))) (\<lambda>_. True)"
    unfolding enc_header_def dec_header_def
    by (rule codec_weaken[OF codec_iso[OF codec_pair[OF codec_u64 codec_pair[OF codec_u64
        codec_pair[OF codec_u64 codec_u64]]]]])
      (auto simp: member_defs)
  then show ?thesis by (simp add: sizeof_header_def)
qed

lemma codec_layout: "codec enc_layout (dec_layout sz) (sizeof_memory_layout sz) (wf_layout sz)"
  unfolding enc_layout_def dec_layout_def sizeof_memory_layout_def
  by (rule codec_weaken[OF codec_iso[OF codec_pair[OF codec_header
        codec_array[OF codec_marked_span, where k = "max_spans (mmap_config sz)"]]]])
    (auto simp: member_defs wf_layout_def)

interpretation header_bytes: codec enc_header dec_header sizeof_header "\<lambda>_. True"
  by (rule codec_header)

interpretation layout_bytes: codec enc_layout "dec_layout sz" "sizeof_memory_layout sz" "wf_layout sz"
  for sz
  by (rule codec_layout)

text \<open>The header is the first part of the layout, whatever the size class.\<close>

lemma header_of_layout_bytes:
  assumes "sizeof_memory_layout sz \<le> length bs"
  shows "ml_header (dec_layout sz (take (sizeof_memory_layout sz) bs)) = dec_header (take sizeof_header bs)"
  by (simp add: dec_layout_def dec_pair_def layout_of_members_def min_def sizeof_memory_layout_def)

end
