(* ===== verification/Handle_Table.thy ===== *)
theory Handle_Table
  imports Tel_Prelude
begin

text \<open>
  Move-only owners. \<^verbatim>\<open>ManagedMmap\<close>, \<^verbatim>\<open>ManagedLocalRef\<close> and \<^verbatim>\<open>SpanJClassCache\<close> share one
  discipline: an object owns resources of its environment (mappings, references), its
  destructor gives them back, moves and move assignments hand them over. The locale states
  the contract; its consequence is that in any program over such objects every resource has
  exactly one owner at any time, nothing is released twice and nothing is left behind.
\<close>

section \<open>Objects\<close>

text \<open>The objects of a program by number, and what a program does with them.\<close>

type_synonym 'h objects = "nat \<rightharpoonup> 'h"

datatype object_op =
    Obj_Move nat nat
  | Obj_Assign nat nat
  | Obj_Destroy nat

fun object_step ::
    "('h \<Rightarrow> 'k \<Rightarrow> 'k res) \<Rightarrow> ('h \<Rightarrow> 'h \<times> 'h) \<Rightarrow> (bool \<Rightarrow> 'h \<Rightarrow> 'h \<Rightarrow> 'k \<Rightarrow> ('h \<times> 'h \<times> 'k) res) \<Rightarrow>
      object_op \<Rightarrow> 'h objects \<Rightarrow> 'k \<Rightarrow> ('h objects \<times> 'k) res" where
  "object_step destroy move assign (Obj_Destroy i) t k =
     (case t i of
        None \<Rightarrow> Inr (t, k)
      | Some h \<Rightarrow> res_map (\<lambda>k'. (t(i := None), k')) (destroy h k))"
| "object_step destroy move assign (Obj_Move d s) t k =
     (case (t d, t s) of
        (None, Some h) \<Rightarrow> (let (new, old) = move h in Inr (t(d \<mapsto> new, s \<mapsto> old), k))
      | _ \<Rightarrow> Inr (t, k))"
| "object_step destroy move assign (Obj_Assign d s) t k =
     (case (t d, t s) of
        (Some this, Some other) \<Rightarrow>
          res_map (\<lambda>(this', other', k'). (t(s \<mapsto> other', d \<mapsto> this'), k'))
            (assign (d = s) this other k)
      | _ \<Rightarrow> Inr (t, k))"

fun object_run ::
    "('h \<Rightarrow> 'k \<Rightarrow> 'k res) \<Rightarrow> ('h \<Rightarrow> 'h \<times> 'h) \<Rightarrow> (bool \<Rightarrow> 'h \<Rightarrow> 'h \<Rightarrow> 'k \<Rightarrow> ('h \<times> 'h \<times> 'k) res) \<Rightarrow>
      object_op list \<Rightarrow> 'h objects \<Rightarrow> 'k \<Rightarrow> ('h objects \<times> 'k) res" where
  "object_run destroy move assign [] t k = Inr (t, k)"
| "object_run destroy move assign (op # ops) t k =
     res_bind (object_step destroy move assign op t k) (\<lambda>(t, k). object_run destroy move assign ops t k)"

text \<open>Every live resource has exactly one owner.\<close>

definition sole_owners :: "('h \<Rightarrow> 'r set) \<Rightarrow> 'h objects \<Rightarrow> 'r set \<Rightarrow> bool" where
  "sole_owners owned t held \<longleftrightarrow>
     held = (\<Union>h \<in> ran t. owned h) \<and>
     (\<forall>i j a b. t i = Some a \<longrightarrow> t j = Some b \<longrightarrow> i \<noteq> j \<longrightarrow> owned a \<inter> owned b = {})"

lemma sole_ownersD:
  assumes "sole_owners owned t held"
  shows "t i = Some h \<Longrightarrow> owned h \<subseteq> held"
    and "t i = Some a \<Longrightarrow> t j = Some b \<Longrightarrow> i \<noteq> j \<Longrightarrow> owned a \<inter> owned b = {}"
    and "held = (\<Union>h \<in> ran t. owned h)"
  using assms unfolding sole_owners_def ran_def by blast+

lemma ran_upd_new: "(\<Union>h \<in> ran (t(i \<mapsto> a)). f h) = f a \<union> (\<Union>h \<in> ran (t(i := None)). f h)"
  by (auto simp: ran_def split: if_splits)

lemma ran_upd_split:
  assumes "t i = Some h"
  shows "(\<Union>a \<in> ran t. f a) = f h \<union> (\<Union>a \<in> ran (t(i := None)). f a)"
proof -
  have "t(i \<mapsto> h) = t" using assms by auto
  then show ?thesis using ran_upd_new[of f t i h] by simp
qed

lemma sole_owners_drop:
  assumes so: "sole_owners owned t held" and h: "t i = Some h"
  shows "sole_owners owned (t(i := None)) (held - owned h)"
proof -
  have "owned h \<inter> (\<Union>h \<in> ran (t(i := None)). owned h) = {}"
    using sole_ownersD(2)[OF so h] by (auto simp: ran_def split: if_splits)
  moreover have "held = owned h \<union> (\<Union>h \<in> ran (t(i := None)). owned h)"
    using sole_ownersD(3)[OF so] ran_upd_split[where f = owned and t = t and i = i, OF h] by simp
  ultimately show ?thesis
    using so by (auto simp: sole_owners_def split: if_splits)
qed

lemma sole_owners_put:
  assumes so: "sole_owners owned t held" and i: "t i = None" and h: "owned h \<inter> held = {}"
  shows "sole_owners owned (t(i \<mapsto> h)) (held \<union> owned h)"
proof -
  have "t(i := None) = t" using i by auto
  then have "(\<Union>a \<in> ran (t(i \<mapsto> h)). owned a) = held \<union> owned h"
    using ran_upd_new[of owned t i h] sole_ownersD(3)[OF so] by auto
  moreover have "owned h \<inter> owned a = {}" if "t j = Some a" for j a
    using sole_ownersD(1)[OF so that] h by auto
  ultimately show ?thesis
    using so unfolding sole_owners_def by (auto split: if_splits)
qed


section \<open>The contract\<close>

locale move_only =
  fixes owned :: "'h \<Rightarrow> 'r set"
    and held :: "'k \<Rightarrow> 'r set"
    and ready :: "'k \<Rightarrow> bool"
    and valid :: "'h \<Rightarrow> bool"
    and destroy :: "'h \<Rightarrow> 'k \<Rightarrow> 'k res"
    and move :: "'h \<Rightarrow> 'h \<times> 'h"
    and assign :: "bool \<Rightarrow> 'h \<Rightarrow> 'h \<Rightarrow> 'k \<Rightarrow> ('h \<times> 'h \<times> 'k) res"
  assumes destroy_ok: "ready k \<Longrightarrow> valid h \<Longrightarrow> owned h \<subseteq> held k \<Longrightarrow>
      \<exists>k'. destroy h k = Inr k' \<and> ready k' \<and> held k' = held k - owned h"
    and move_ok: "move h = (new, old) \<Longrightarrow> valid h \<Longrightarrow>
      owned new = owned h \<and> owned old = {} \<and> valid new \<and> valid old"
    and assign_self: "assign True h h k = Inr (h, h, k)"
    and assign_ok: "ready k \<Longrightarrow> valid a \<Longrightarrow> valid b \<Longrightarrow> owned a \<subseteq> held k \<Longrightarrow>
      \<exists>a' b' k'. assign False a b k = Inr (a', b', k') \<and> owned a' = owned b \<and> owned b' = {} \<and>
        valid a' \<and> valid b' \<and> ready k' \<and> held k' = held k - owned a"
begin

abbreviation all_valid :: "'h objects \<Rightarrow> bool" where
  "all_valid t \<equiv> (\<forall>i h. t i = Some h \<longrightarrow> valid h)"

lemma step_destroy:
  assumes ready: "ready k" and so: "sole_owners owned t (held k)" and va: "all_valid t"
  shows "\<exists>t' k'. object_step destroy move assign (Obj_Destroy i) t k = Inr (t', k') \<and> ready k' \<and> all_valid t' \<and>
    sole_owners owned t' (held k') \<and> held k' \<subseteq> held k"
proof (cases "t i")
  case (Some h)
  from va Some have "valid h" by simp
  from destroy_ok[OF ready this sole_ownersD(1)[OF so Some]] sole_owners_drop[OF so Some] Some va
  show ?thesis by auto
qed (use ready so va in simp)

lemma sole_owners_move:
  assumes so: "sole_owners owned t (held k)" and h: "t s = Some h" and d: "t d = None"
    and own: "owned new = owned h" "owned old = {}"
  shows "sole_owners owned (t(d \<mapsto> new, s \<mapsto> old)) (held k)"
proof -
  have ds: "d \<noteq> s" using h d by auto
  have "sole_owners owned (t(s := None)) (held k - owned h)"
    using so h by (rule sole_owners_drop)
  then have "sole_owners owned (t(s \<mapsto> old)) (held k - owned h)"
    using sole_owners_put[of owned "t(s := None)" "held k - owned h" s old] own by simp
  moreover have "(t(s \<mapsto> old)) d = None" using d ds by simp
  ultimately have "sole_owners owned (t(s \<mapsto> old, d \<mapsto> new)) ((held k - owned h) \<union> owned h)"
    using sole_owners_put[of owned "t(s \<mapsto> old)" "held k - owned h" d new] own by auto
  moreover have "(held k - owned h) \<union> owned h = held k"
    using sole_ownersD(1)[OF so h] by auto
  moreover have "t(d \<mapsto> new, s \<mapsto> old) = t(s \<mapsto> old, d \<mapsto> new)" using ds by (rule fun_upd_twist)
  ultimately show ?thesis by simp
qed

lemma sole_owners_assign:
  assumes so: "sole_owners owned t (held k)" and a: "t d = Some a" and b: "t s = Some b" and ds: "d \<noteq> s"
    and own: "owned a' = owned b" "owned b' = {}" and k': "held k' = held k - owned a"
  shows "sole_owners owned (t(s \<mapsto> b', d \<mapsto> a')) (held k')"
proof -
  have "sole_owners owned (t(d := None)) (held k')"
    using sole_owners_drop[OF so a] k' by simp
  moreover have "(t(d := None)) s = Some b" using b ds by simp
  ultimately have "sole_owners owned (t(d := None, s := None)) (held k' - owned b)"
    by (rule sole_owners_drop)
  then have "sole_owners owned (t(d := None, s \<mapsto> b')) (held k' - owned b)"
    using sole_owners_put[of owned "t(d := None, s := None)" "held k' - owned b" s b'] own(2)
    by simp
  then have "sole_owners owned (t(d := None, s \<mapsto> b', d \<mapsto> a')) ((held k' - owned b) \<union> owned b)"
    using sole_owners_put[of owned "t(d := None, s \<mapsto> b')" "held k' - owned b" d a'] own(1) ds
    by auto
  moreover have "owned b \<subseteq> held k'"
    using sole_ownersD(1)[OF so b] sole_ownersD(2)[OF so a b ds] k' by auto
  then have "(held k' - owned b) \<union> owned b = held k'" by auto
  moreover have "t(d := None, s \<mapsto> b', d \<mapsto> a') = t(s \<mapsto> b', d \<mapsto> a')"
    using ds by (auto simp: fun_eq_iff)
  ultimately show ?thesis by simp
qed

lemma step_move:
  assumes ready: "ready k" and so: "sole_owners owned t (held k)" and va: "all_valid t"
  shows "\<exists>t' k'. object_step destroy move assign (Obj_Move d s) t k = Inr (t', k') \<and> ready k' \<and> all_valid t' \<and>
    sole_owners owned t' (held k') \<and> held k' \<subseteq> held k"
proof (cases "t d = None \<and> t s \<noteq> None")
  case True
  then obtain h where h: "t s = Some h" and d: "t d = None" by auto
  obtain new old where mv: "move h = (new, old)" by fastforce
  have "valid h" using va h by simp
  note own = move_ok[OF mv this]
  with sole_owners_move[OF so h d, of new old] show ?thesis using h d mv ready va by simp
next
  case False
  then show ?thesis using ready so va by (auto split: option.split)
qed

lemma step_assign:
  assumes ready: "ready k" and so: "sole_owners owned t (held k)" and va: "all_valid t"
  shows "\<exists>t' k'. object_step destroy move assign (Obj_Assign d s) t k = Inr (t', k') \<and> ready k' \<and> all_valid t' \<and>
    sole_owners owned t' (held k') \<and> held k' \<subseteq> held k"
proof (cases "t d = None \<or> t s = None")
  case True
  then show ?thesis using ready so va by (auto split: option.split)
next
  case False
  then obtain a b where a: "t d = Some a" and b: "t s = Some b" by auto
  show ?thesis
  proof (cases "d = s")
    case True
    then have "t(s \<mapsto> b, d \<mapsto> b) = t" using b by auto
    with True a b show ?thesis using assign_self ready so va by simp
  next
    case False
    have vab: "valid a" "valid b" using va a b by auto
    from assign_ok[OF ready vab sole_ownersD(1)[OF so a]] obtain a' b' k' where
      asg: "assign False a b k = Inr (a', b', k')" "owned a' = owned b" "owned b' = {}"
        "ready k'" "held k' = held k - owned a" and vab': "valid a'" "valid b'"
      by blast
    from sole_owners_assign[OF so a b False asg(2,3,5)] show ?thesis
      using a b False asg va vab' by auto
  qed
qed

lemma step_owned:
  assumes "ready k" and "sole_owners owned t (held k)" and "all_valid t"
  shows "\<exists>t' k'. object_step destroy move assign op t k = Inr (t', k') \<and> ready k' \<and> all_valid t' \<and>
    sole_owners owned t' (held k') \<and> held k' \<subseteq> held k"
  using step_destroy[OF assms] step_move[OF assms] step_assign[OF assms] by (cases op) blast+

lemma run_owned:
  assumes "ready k" "sole_owners owned t (held k)" "all_valid t"
  shows "\<exists>t' k'. object_run destroy move assign ops t k = Inr (t', k') \<and> ready k' \<and> all_valid t' \<and>
    sole_owners owned t' (held k') \<and> held k' \<subseteq> held k"
  using assms
proof (induction ops arbitrary: t k)
  case (Cons op ops)
  from step_owned[OF Cons.prems, of op] obtain t1 k1 where
    s: "object_step destroy move assign op t k = Inr (t1, k1)" "ready k1"
      "sole_owners owned t1 (held k1)" "all_valid t1" "held k1 \<subseteq> held k"
    by blast
  from Cons.IH[OF s(2-4)] s show ?case by fastforce
qed simp

text \<open>The end of the scope of all objects: nothing is left.\<close>

lemma scope_exit_releases:
  assumes "ready k" "sole_owners owned t (held k)" "all_valid t" "dom t \<subseteq> set is"
  shows "\<exists>k'. object_run destroy move assign (map Obj_Destroy is) t k = Inr (Map.empty, k') \<and>
    ready k' \<and> held k' = {}"
  using assms
proof (induction "is" arbitrary: t k)
  case Nil
  then have "t = Map.empty" by auto
  with Nil show ?case by (simp add: sole_owners_def)
next
  case (Cons i "is")
  from step_owned[OF Cons.prems(1-3), of "Obj_Destroy i"] obtain t1 k1 where
    s: "object_step destroy move assign (Obj_Destroy i) t k = Inr (t1, k1)" "ready k1"
      "sole_owners owned t1 (held k1)" "all_valid t1"
    by blast
  have "t1 = t(i := None)"
    using s(1) by (cases "t i"; cases "destroy (the (t i)) k") auto
  then have "dom t1 \<subseteq> set is" using Cons.prems(4) by auto
  from Cons.IH[OF s(2-4) this] s(1) show ?case by simp
qed

end

end
