(* ===== verification/Managed_Mmap.thy ===== *)
theory Managed_Mmap
  imports Handle_Table
begin

text \<open>
  \<^verbatim>\<open>detail/managed_mmap.h\<close>: the owner of a mapping. The kernel keeps the mappings of the
  process (start address to length) and its open descriptors; the null pointer is address
  zero. Unmapping memory that is not mapped is a fault, so that a double release would show.
  The class provides the contract of a move-only owner.
\<close>

section \<open>The kernel's view of the process\<close>

record kernel =
  k_file :: bytes
  k_fds :: "nat set"
  k_maps :: "nat \<rightharpoonup> nat"

text \<open>\<^verbatim>\<open>mmap\<close> with the outcome \<open>result\<close>: the chosen address, or \<open>None\<close> for \<^verbatim>\<open>MAP_FAILED\<close>.\<close>

definition sys_mmap :: "nat option \<Rightarrow> nat \<Rightarrow> kernel \<Rightarrow> kernel" where
  "sys_mmap result len k =
     (case result of None \<Rightarrow> k | Some addr \<Rightarrow> k\<lparr>k_maps := (k_maps k)(addr \<mapsto> len)\<rparr>)"

definition sys_munmap :: "nat \<Rightarrow> nat \<Rightarrow> kernel \<Rightarrow> kernel res" where
  "sys_munmap addr len k =
     (if k_maps k addr = Some len then Inr (k\<lparr>k_maps := (k_maps k)(addr := None)\<rparr>)
      else Inl Use_After_Free)"

section \<open>ManagedMmap\<close>

record managed_mmap =
  mm_mmap_ptr :: nat
  mm_required_size :: nat

definition mm_is_initialized :: "managed_mmap \<Rightarrow> bool" where
  "mm_is_initialized h \<longleftrightarrow> mm_mmap_ptr h \<noteq> 0 \<and> 0 < mm_required_size h"

definition mm_empty :: managed_mmap where
  "mm_empty = \<lparr>mm_mmap_ptr = 0, mm_required_size = 0\<rparr>"

text \<open>\<open>sizeof_T\<close> is the size of the template argument.\<close>

definition mm_new :: "nat \<Rightarrow> nat \<Rightarrow> nat option \<Rightarrow> kernel \<Rightarrow> (managed_mmap \<times> kernel) res" where
  "mm_new sizeof_T len result k =
     (if \<not> (len = 0 \<or> sizeof_T \<le> len) then
        Inl (Assert_Failed ''required_size == 0 || sizeof (T) <= required_size'')
      else Inr (case result of
                  None \<Rightarrow> mm_empty
                | Some addr \<Rightarrow> \<lparr>mm_mmap_ptr = addr, mm_required_size = len\<rparr>,
                sys_mmap result len k))"

definition mm_destroy :: "managed_mmap \<Rightarrow> kernel \<Rightarrow> kernel res" where
  "mm_destroy h k =
     (if mm_is_initialized h then sys_munmap (mm_mmap_ptr h) (mm_required_size h) k else Inr k)"

text \<open>The move constructor: the new object and what is left of the other one.\<close>

definition mm_move :: "managed_mmap \<Rightarrow> managed_mmap \<times> managed_mmap" where
  "mm_move other = (other, other\<lparr>mm_mmap_ptr := 0, mm_required_size := 0\<rparr>)"

text \<open>The move assignment; \<open>same\<close> is \<^verbatim>\<open>this == &other\<close>.\<close>

definition mm_assign ::
    "bool \<Rightarrow> managed_mmap \<Rightarrow> managed_mmap \<Rightarrow> kernel \<Rightarrow> (managed_mmap \<times> managed_mmap \<times> kernel) res" where
  "mm_assign same this other k =
     (if same then Inr (this, other, k)
      else res_map (\<lambda>k. (other, other\<lparr>mm_mmap_ptr := 0, mm_required_size := 0\<rparr>, k)) (mm_destroy this k))"

text \<open>The converting constructor and assignment, to an owner of another element type.\<close>

definition mm_convert :: "nat \<Rightarrow> managed_mmap \<Rightarrow> (managed_mmap \<times> managed_mmap) res" where
  "mm_convert sizeof_T other =
     (if \<not> (mm_required_size other = 0 \<or> sizeof_T \<le> mm_required_size other) then
        Inl (Assert_Failed ''required_size_ == 0 || sizeof (T) <= required_size_'')
      else Inr (other, other\<lparr>mm_mmap_ptr := 0, mm_required_size := 0\<rparr>))"

definition mm_convert_assign ::
    "nat \<Rightarrow> managed_mmap \<Rightarrow> managed_mmap \<Rightarrow> kernel \<Rightarrow> (managed_mmap \<times> managed_mmap \<times> kernel) res" where
  "mm_convert_assign sizeof_T this other k =
     res_bind (mm_destroy this k) (\<lambda>k.
       res_map (\<lambda>(new, old). (new, old, k)) (mm_convert sizeof_T other))"

text \<open>Dereferencing: the contents of the mapping, when there is one.\<close>

definition mm_deref :: "managed_mmap \<Rightarrow> 'a \<Rightarrow> 'a res" where
  "mm_deref h contents = (if mm_mmap_ptr h = 0 then Inl Null_Deref else Inr contents)"

section \<open>Ownership\<close>

definition mm_owned :: "managed_mmap \<Rightarrow> (nat \<times> nat) set" where
  "mm_owned h = (if mm_is_initialized h then {(mm_mmap_ptr h, mm_required_size h)} else {})"

definition mm_held :: "kernel \<Rightarrow> (nat \<times> nat) set" where
  "mm_held k = {(a, n). k_maps k a = Some n}"

lemma mm_owned_empty [simp]:
  "mm_owned mm_empty = {}" "mm_owned (h\<lparr>mm_mmap_ptr := 0, mm_required_size := 0\<rparr>) = {}"
  by (simp_all add: mm_owned_def mm_is_initialized_def mm_empty_def)

lemma mm_destroy_owned:
  assumes "mm_owned h \<subseteq> mm_held k"
  shows "\<exists>k'. mm_destroy h k = Inr k' \<and> mm_held k' = mm_held k - mm_owned h \<and>
    k_file k' = k_file k \<and> k_fds k' = k_fds k"
proof (cases "mm_is_initialized h")
  case True
  with assms have "k_maps k (mm_mmap_ptr h) = Some (mm_required_size h)"
    by (simp add: mm_owned_def mm_held_def)
  with True show ?thesis
    by (auto simp: mm_destroy_def sys_munmap_def mm_owned_def mm_held_def split: if_splits)
qed (simp add: mm_destroy_def mm_owned_def)

interpretation mmap_owner: move_only mm_owned mm_held "\<lambda>_. True" "\<lambda>_. True" mm_destroy mm_move mm_assign
proof (unfold_locales, goal_cases)
  case (1 k h)
  then show ?case using mm_destroy_owned[of h k] by auto
next
  case (4 k a b)
  then show ?case using mm_destroy_owned[of a k] by (auto simp: mm_assign_def)
qed (auto simp: mm_move_def mm_assign_def)

text \<open>A new mapping, at an address the kernel had free, belongs to the new object alone.\<close>

lemma mm_new_owned:
  assumes "len = 0 \<or> sizeof_T \<le> len" "0 < len"
    and "\<And>a. result = Some a \<Longrightarrow> a \<noteq> 0 \<and> k_maps k a = None"
  shows "\<exists>h k'. mm_new sizeof_T len result k = Inr (h, k') \<and>
    mm_owned h \<inter> mm_held k = {} \<and> mm_held k' = mm_held k \<union> mm_owned h \<and>
    (mm_is_initialized h \<longleftrightarrow> result \<noteq> None)"
  using assms
  by (cases result) (auto simp: mm_new_def sys_mmap_def mm_owned_def mm_held_def
      mm_is_initialized_def mm_empty_def split: if_splits)

lemma mm_convert_owned:
  assumes "mm_convert sizeof_T other = Inr (new, old)"
  shows "mm_owned new = mm_owned other" "mm_owned old = {}" "new = other"
    "mm_required_size new = 0 \<or> sizeof_T \<le> mm_required_size new"
  using assms by (auto simp: mm_convert_def split: if_splits)

lemma mm_held_empty: "mm_held k = {} \<longleftrightarrow> k_maps k = Map.empty"
proof
  assume "mm_held k = {}"
  then have "k_maps k a = None" for a
    by (cases "k_maps k a") (auto simp: mm_held_def)
  then show "k_maps k = Map.empty" by (rule ext)
qed (simp add: mm_held_def)

end
