(* ===== verification/Writer_Reference.thy ===== *)
theory Writer_Reference
  imports Mutable_Refinement
begin

text \<open>
  \<^verbatim>\<open>MutableSpanData\<close> holds a reference to the span data of its context, \<^verbatim>\<open>impl_\<close>, and callers can
  hold the writer longer than the context (it is a \<^verbatim>\<open>shared_ptr\<close>). Here are its members with the
  reference explicit: every use of \<^verbatim>\<open>impl_\<close> dereferences it, which can fault. With a good reference
  they are the members of \<open>Mutable_Span_Data\<close>.
\<close>

section \<open>The members\<close>

text \<open>What the reference leads to, or the fault that following it is.\<close>

type_synonym impl_ref = "span_data_impl res"
type_synonym span_index = "u64 \<rightharpoonup> index_t"

definition ref_count :: "impl_ref \<Rightarrow> u64 res" where
  "ref_count impl = res_map impl_count impl"

definition ref_remove :: "u64 \<Rightarrow> impl_ref \<Rightarrow> span_index \<Rightarrow> (impl_ref \<times> span_index) res" where
  "ref_remove span_id impl index =
     (case index span_id of
        None \<Rightarrow> Inr (impl, index)
      | Some raw_index \<Rightarrow>
          res_bind impl (\<lambda>x. res_map (\<lambda>(moved_span_id, y).
            let index = (if 0 < moved_span_id then index(moved_span_id \<mapsto> raw_index) else index)
            in (Inr y, index(span_id := None))) (impl_remove raw_index x)))"

definition ref_add :: "span \<Rightarrow> impl_ref \<Rightarrow> span_index \<Rightarrow> (impl_ref \<times> span_index) res" where
  "ref_add s impl index =
     (if index (sp_span_id s) \<noteq> None then Inr (impl, index)
      else
        res_bind
          (res_bind impl (\<lambda>x.
             if unat (impl_count x) = impl_max_count x then
               res_bind (oldest_span x) (\<lambda>oldest_span_id.
                 if oldest_span_id \<noteq> 0 then ref_remove oldest_span_id impl index
                 else Inr (impl, index))
             else Inr (impl, index)))
          (\<lambda>(impl, index). res_bind impl (\<lambda>x. res_map (\<lambda>(raw_index, y).
             (Inr y, map_insert (sp_span_id s) raw_index index)) (impl_add s x))))"

definition ref_set_attribute_on_span ::
    "u64 \<Rightarrow> bytes \<Rightarrow> bytes \<Rightarrow> impl_ref \<Rightarrow> span_index \<Rightarrow> (impl_ref \<times> span_index) res" where
  "ref_set_attribute_on_span span_id key value impl index =
     (case index span_id of
        None \<Rightarrow> Inr (impl, index)
      | Some raw_index \<Rightarrow>
          res_bind impl (\<lambda>x. res_map (\<lambda>(_, y). (Inr y, index))
            (impl_set_attribute_on_span raw_index key value x)))"

definition ref_end :: "u64 \<Rightarrow> u64 \<Rightarrow> u64 \<Rightarrow> impl_ref \<Rightarrow> span_index \<Rightarrow> (impl_ref \<times> span_index) res" where
  "ref_end now span_id end_time impl index =
     (case index span_id of
        None \<Rightarrow> Inr (impl, index)
      | Some raw_index \<Rightarrow>
          let end_time = (if end_time = 0 then now else end_time)
          in res_bind impl (\<lambda>x. res_map (\<lambda>y. (Inr y, index)) (impl_set_end_time raw_index end_time x)))"

fun ref_step :: "mutable_op \<Rightarrow> impl_ref \<Rightarrow> span_index \<Rightarrow> (impl_ref \<times> span_index) res" where
  "ref_step (Op_Add s) = ref_add s"
| "ref_step (Op_Remove span_id) = ref_remove span_id"
| "ref_step (Op_End now span_id end_time) = ref_end now span_id end_time"
| "ref_step (Op_Set_Attribute span_id key val) = ref_set_attribute_on_span span_id key val"

section \<open>With a good reference\<close>

definition by_ref :: "mutable_span_data \<Rightarrow> impl_ref \<times> span_index" where
  "by_ref m = (Inr (mu_impl m), mu_index m)"

lemma ref_count_alive: "ref_count (Inr (mu_impl m)) = Inr (mut_count m)"
  by (simp add: ref_count_def mut_count_def)

lemma ref_remove_alive:
  "ref_remove span_id (Inr (mu_impl m)) (mu_index m) = res_map by_ref (mut_remove span_id m)"
  by (cases "mu_index m span_id"; simp add: ref_remove_def mut_remove_def by_ref_def)
    (cases "impl_remove (the (mu_index m span_id)) (mu_impl m)"; auto simp: by_ref_def Let_def)

lemma ref_add_alive: "ref_add s (Inr (mu_impl m)) (mu_index m) = res_map by_ref (mut_add s m)"
proof (cases "mu_index m (sp_span_id s)")
  case None
  have append: "res_map (\<lambda>(raw_index, y). (Inr y :: impl_ref, map_insert (sp_span_id s) raw_index (mu_index m1)))
      (impl_add s (mu_impl m1)) =
    res_map by_ref (res_map (\<lambda>(raw_index, x).
      m1\<lparr>mu_impl := x, mu_index := map_insert (sp_span_id s) raw_index (mu_index m1)\<rparr>)
      (impl_add s (mu_impl m1)))" for m1
    by (cases "impl_add s (mu_impl m1)") (auto simp: by_ref_def)
  show ?thesis
  proof (cases "unat (impl_count (mu_impl m)) = impl_max_count (mu_impl m)")
    case False
    with None append[of m] show ?thesis by (simp add: ref_add_def mut_add_def)
  next
    case full: True
    show ?thesis
    proof (cases "oldest_span (mu_impl m)")
      case (Inl e)
      with None full show ?thesis by (simp add: ref_add_def mut_add_def)
    next
      case (Inr oldest)
      with None full append show ?thesis
        by (cases "mut_remove oldest m") (simp_all add: ref_add_def mut_add_def ref_remove_alive by_ref_def)
    qed
  qed
qed (simp add: ref_add_def mut_add_def by_ref_def)

lemma ref_end_alive:
  "ref_end now span_id t (Inr (mu_impl m)) (mu_index m) = res_map by_ref (mut_end now span_id t m)"
  by (cases "mu_index m span_id"; simp add: ref_end_def mut_end_def by_ref_def Let_def)
    (cases "impl_set_end_time (the (mu_index m span_id)) (if t = 0 then now else t) (mu_impl m)";
      auto simp: by_ref_def)

lemma ref_set_attribute_alive:
  "ref_set_attribute_on_span span_id k v (Inr (mu_impl m)) (mu_index m) =
     res_map by_ref (mut_set_attribute_on_span span_id k v m)"
  by (cases "mu_index m span_id"; simp add: ref_set_attribute_on_span_def mut_set_attribute_on_span_def by_ref_def)
    (cases "impl_set_attribute_on_span (the (mu_index m span_id)) k v (mu_impl m)"; auto simp: by_ref_def)

lemma ref_step_alive: "ref_step op (Inr (mu_impl m)) (mu_index m) = res_map by_ref (mut_step op m)"
  by (cases op) (simp_all add: ref_add_alive ref_remove_alive ref_end_alive ref_set_attribute_alive)

section \<open>With a bad one\<close>

text \<open>
  A call that returns without following the reference changes nothing; every other one is the
  fault of following it.
\<close>

lemma ref_step_dangling:
  "ref_step (Op_Add s) (Inl e) index = (if index (sp_span_id s) = None then Inl e else Inr (Inl e, index))"
  "ref_step (Op_Remove i) (Inl e) index = (if index i = None then Inr (Inl e, index) else Inl e)"
  "ref_step (Op_End now i t) (Inl e) index = (if index i = None then Inr (Inl e, index) else Inl e)"
  "ref_step (Op_Set_Attribute i k v) (Inl e) index =
     (if index i = None then Inr (Inl e, index) else Inl e)"
  by (auto simp: ref_add_def ref_remove_def ref_end_def ref_set_attribute_on_span_def)

end
