(* ===== verification/Initialize_Model.thy ===== *)
theory Initialize_Model
  imports Header_Ops Byte_Codec Managed_Mmap Writer_Reference
begin

text \<open>
  \<^verbatim>\<open>initialize.cpp\<close>: opening the file, recovering what a previous process left in it,
  resizing and resetting it, and the context that is handed to the caller. The outcomes of
  the system calls are a parameter; the file, the descriptors and the mappings of the
  process are the kernel state. The file is bytes: a mapping of it is read as a header or
  as the layout of a size class through the encodings of \<open>Byte_Codec\<close>.
\<close>

section \<open>System calls\<close>

text \<open>
  What the calls of one \<^verbatim>\<open>initialize_span_data\<close> return: \<open>None\<close> or \<open>False\<close> is the failure
  value, an \<open>open\<close> gives a descriptor and a \<open>mmap\<close> an address.
\<close>

record os_results =
  os_page_size :: int
  os_open :: "nat option"
  os_fstat :: bool
  os_mmap_existing :: "nat option"
  os_ftruncate :: bool
  os_mmap_sized :: "nat option"

definition sys_close :: "nat \<Rightarrow> kernel \<Rightarrow> kernel" where
  "sys_close fd k = k\<lparr>k_fds := k_fds k - {fd}\<rparr>"

definition sys_ftruncate :: "nat \<Rightarrow> kernel \<Rightarrow> kernel" where
  "sys_ftruncate len k = k\<lparr>k_file := take len (k_file k) @ replicate (len - length (k_file k)) 0\<rparr>"

section \<open>The file seen through a mapping\<close>

definition file_header :: "kernel \<Rightarrow> header" where
  "file_header k = dec_header (take sizeof_header (k_file k))"

definition file_layout :: "mmap_size \<Rightarrow> kernel \<Rightarrow> memory_layout" where
  "file_layout sz k = dec_layout sz (take (sizeof_memory_layout sz) (k_file k))"

text \<open>Stores through the mapping are stores into the file.\<close>

definition write_header :: "header \<Rightarrow> kernel \<Rightarrow> kernel" where
  "write_header h k = k\<lparr>k_file := enc_header h @ drop sizeof_header (k_file k)\<rparr>"

definition write_layout :: "mmap_size \<Rightarrow> memory_layout \<Rightarrow> kernel \<Rightarrow> kernel" where
  "write_layout sz l k = k\<lparr>k_file := enc_layout l @ drop (sizeof_memory_layout sz) (k_file k)\<rparr>"

section \<open>Recovery\<close>

definition should_do_recovery :: "header option \<Rightarrow> nat \<Rightarrow> bool" where
  "should_do_recovery mapping mapped_size =
     (if \<not> is_header_valid mapping \<or> \<not> is_header_version_current mapping then False
      else if mapped_size < get_memory_layout_size (h_mmap_size (the mapping)) then False
      else 0 < h_active_span_count (the mapping))"

text \<open>A \<^verbatim>\<open>SpanDataImpl\<close> with the mapping it owns.\<close>

record mapped_impl =
  mi_impl :: span_data_impl
  mi_mmap :: managed_mmap

text \<open>
  \<^verbatim>\<open>SpanDataImpl(ManagedMmap<Header>)\<close>: the mapping is converted to one of the layout the
  header names, with the assertion that it is large enough.
\<close>

definition new_mapped_impl :: "managed_mmap \<Rightarrow> kernel \<Rightarrow> mapped_impl res" where
  "new_mapped_impl header k =
     (if \<not> mm_is_initialized header then Inl (Assert_Failed ''header.is_initialized()'')
      else
        let sz = layout_alt (h_mmap_size (file_header k))
        in res_bind (mm_convert (sizeof_memory_layout sz) header) (\<lambda>(layout, _).
             res_map (\<lambda>x. \<lparr>mi_impl = x, mi_mmap = layout\<rparr>) (make_data (Some (file_layout sz k)))))"

text \<open>
  Lines 118 to 138: the result is \<open>None\<close> when the function returns the null pointer, else
  the recovered spans and the mapping, when it can be reused. \<open>original_size\<close> is the size of
  the file.
\<close>

definition recover_phase ::
    "os_results \<Rightarrow> u64 \<Rightarrow> nat \<Rightarrow> nat \<Rightarrow> nat \<Rightarrow> kernel \<Rightarrow>
      ((span list \<times> mapped_impl option) option \<times> kernel) res" where
  "recover_phase os target original_size required fd k =
     (if get_page_size (os_page_size os) \<le> original_size then
        res_bind (mm_new sizeof_header original_size (os_mmap_existing os) k) (\<lambda>(header, k).
          if \<not> mm_is_initialized header then Inr (None, sys_close fd k)
          else if should_do_recovery (Some (file_header k)) original_size then
            res_bind (new_mapped_impl header k) (\<lambda>temp_impl.
              res_bind (recover_spans (mi_impl temp_impl)) (\<lambda>recovered_spans.
                res_bind (impl_size (mi_impl temp_impl)) (\<lambda>actual_size.
                  if actual_size = target \<and> original_size = required then
                    Inr (Some (recovered_spans, Some temp_impl), k)
                  else
                    res_map (\<lambda>k. (Some (recovered_spans, None), k))
                      (mm_destroy (mi_mmap temp_impl) k))))
          else res_map (\<lambda>k. (Some ([], None), k)) (mm_destroy header k))
      else Inr (Some ([], None), k))"

text \<open>Lines 141 to 157: a file of the required size with a fresh header.\<close>

definition resize_phase ::
    "os_results \<Rightarrow> u64 \<Rightarrow> nat \<Rightarrow> nat \<Rightarrow> kernel \<Rightarrow> (mapped_impl option \<times> kernel) res" where
  "resize_phase os target required fd k =
     (if \<not> os_ftruncate os then Inr (None, sys_close fd k)
      else
        res_bind (mm_new sizeof_header required (os_mmap_sized os) (sys_ftruncate required k))
          (\<lambda>(header, k).
            if \<not> mm_is_initialized header then Inr (None, sys_close fd k)
            else
              let h = ml_header (exec_stores Small (reset_header_stores target)
                        \<lparr>ml_header = file_header k, ml_marked_spans = []\<rparr>);
                  k = write_header h k
              in res_map (\<lambda>x. (Some x, k)) (new_mapped_impl header k)))"

section \<open>The context\<close>

text \<open>
  The context owns the span data. The writer is an object of its own, shared with the
  callers, which holds a reference to the span data of the context.
\<close>

record span_context =
  cx_data :: mapped_impl
  cx_recovered_spans :: "span list"
  cx_is_recovered :: bool

text \<open>The constructor clears the array after building the writer over it.\<close>

definition new_context :: "mapped_impl \<Rightarrow> span list \<Rightarrow> kernel \<Rightarrow> span_context \<times> kernel" where
  "new_context data recovered_spans k =
     (let x = impl_remove_all (mi_impl data)
      in (\<lparr>cx_data = data\<lparr>mi_impl := x\<rparr>, cx_recovered_spans = recovered_spans,
           cx_is_recovered = False\<rparr>,
          write_layout (impl_alt x) (rd_layout (impl_data x)) k))"

definition initialize_span_data ::
    "os_results \<Rightarrow> u64 \<Rightarrow> kernel \<Rightarrow> (span_context option \<times> kernel) res" where
  "initialize_span_data os target k =
     (case os_open os of
        None \<Rightarrow> Inr (None, k)
      | Some fd \<Rightarrow>
          let k = k\<lparr>k_fds := insert fd (k_fds k)\<rparr>
          in if \<not> os_fstat os then Inr (None, sys_close fd k)
             else
               let original_size = length (k_file k);
                   required = get_aligned_size (os_page_size os) target
               in res_bind (recover_phase os target original_size required fd k)
                    (\<lambda>(recovery, k).
                      case recovery of
                        None \<Rightarrow> Inr (None, k)
                      | Some (recovered_spans, span_data_impl) \<Rightarrow>
                          res_bind
                            (case span_data_impl of
                               Some x \<Rightarrow> Inr (Some x, k)
                             | None \<Rightarrow> resize_phase os target required fd k)
                            (\<lambda>(data, k).
                              case data of
                                None \<Rightarrow> Inr (None, k)
                              | Some x \<Rightarrow>
                                  let (c, k) = new_context x recovered_spans (sys_close fd k)
                                  in Inr (Some c, k))))"

section \<open>The interface of the library\<close>

text \<open>
  A process with its contexts by address (zero is the null pointer) and the index maps of
  their writers, which outlive the context while a caller holds them.
\<close>

record process =
  pr_kernel :: kernel
  pr_contexts :: "nat \<rightharpoonup> span_context"
  pr_writers :: "nat \<rightharpoonup> (u64 \<rightharpoonup> index_t)"

text \<open>\<open>addr\<close> is the address the allocation of the context returns.\<close>

definition pr_initialize ::
    "os_results \<Rightarrow> nat \<Rightarrow> u64 \<Rightarrow> process \<Rightarrow> (nat \<times> process) res" where
  "pr_initialize os addr target pr =
     res_map (\<lambda>(r, k). case r of
         None \<Rightarrow> (0, pr\<lparr>pr_kernel := k\<rparr>)
       | Some c \<Rightarrow> (addr, pr\<lparr>pr_kernel := k, pr_contexts := (pr_contexts pr)(addr \<mapsto> c),
                            pr_writers := (pr_writers pr)(addr \<mapsto> Map.empty)\<rparr>))
       (initialize_span_data os target (pr_kernel pr))"

definition get_recovered_spans :: "nat \<Rightarrow> process \<Rightarrow> (span list \<times> process) res" where
  "get_recovered_spans p pr =
     (if p = 0 then Inr ([], pr)
      else case pr_contexts pr p of
        None \<Rightarrow> Inl Use_After_Free
      | Some c \<Rightarrow>
          if cx_is_recovered c then Inr ([], pr)
          else Inr (cx_recovered_spans c,
                    pr\<lparr>pr_contexts := (pr_contexts pr)
                        (p \<mapsto> c\<lparr>cx_is_recovered := True, cx_recovered_spans := []\<rparr>)\<rparr>))"

text \<open>The writer of a context is named by the address of the context.\<close>

definition get_mutable_span_data :: "nat \<Rightarrow> process \<Rightarrow> nat res" where
  "get_mutable_span_data p pr =
     (if p = 0 then Inr 0
      else case pr_contexts pr p of
        None \<Rightarrow> Inl Use_After_Free
      | Some c \<Rightarrow> if \<not> cx_is_recovered c then Inr 0 else Inr p)"

text \<open>\<^verbatim>\<open>release_span_data\<close> also sets the pointer of the caller to null.\<close>

definition release_span_data :: "nat \<Rightarrow> process \<Rightarrow> (nat \<times> process) res" where
  "release_span_data p pr =
     (if p = 0 then Inr (p, pr)
      else case pr_contexts pr p of
        None \<Rightarrow> Inl Use_After_Free
      | Some c \<Rightarrow>
          res_map (\<lambda>k. (0, pr\<lparr>pr_kernel := k, pr_contexts := (pr_contexts pr)(p := None)\<rparr>))
            (mm_destroy (mi_mmap (cx_data c)) (pr_kernel pr)))"

text \<open>
  The mappings are shared: the array and the header are the bytes of the file, whoever wrote
  them last, and only the counter of marks belongs to the object. The model lets the first use
  fault of a mapping whose file another context has cut below the layout; the code faults at
  the first page that is gone.
\<close>

definition cx_impl :: "kernel \<Rightarrow> span_context \<Rightarrow> span_data_impl res" where
  "cx_impl k c =
     (let x = mi_impl (cx_data c); sz = impl_alt x
      in if length (k_file k) < sizeof_memory_layout sz then Inl Out_Of_Bounds
         else Inr (with_data x ((impl_data x)\<lparr>rd_layout := file_layout sz k\<rparr>)))"

text \<open>The reference a writer holds leads into its context.\<close>

definition pr_impl :: "nat \<Rightarrow> process \<Rightarrow> impl_ref" where
  "pr_impl w pr =
     (case pr_contexts pr w of None \<Rightarrow> Inl Use_After_Free | Some c \<Rightarrow> cx_impl (pr_kernel pr) c)"

definition cx_writer :: "span_context \<Rightarrow> (u64 \<rightharpoonup> index_t) \<Rightarrow> mutable_span_data" where
  "cx_writer c index = \<lparr>mu_impl = mi_impl (cx_data c), mu_index = index\<rparr>"

text \<open>What a call leaves behind the reference is in the context, and its bytes in the file.\<close>

definition pr_update :: "nat \<Rightarrow> impl_ref \<Rightarrow> span_index \<Rightarrow> process \<Rightarrow> process" where
  "pr_update w impl index pr =
     (case impl of
        Inl _ \<Rightarrow> pr
      | Inr x \<Rightarrow> pr\<lparr>pr_contexts := (pr_contexts pr)
              (w := map_option (\<lambda>c. c\<lparr>cx_data := (cx_data c)\<lparr>mi_impl := x\<rparr>\<rparr>) (pr_contexts pr w)),
            pr_writers := (pr_writers pr)(w \<mapsto> index),
            pr_kernel := write_layout (impl_alt x) (rd_layout (impl_data x)) (pr_kernel pr)\<rparr>)"

definition pr_write :: "nat \<Rightarrow> mutable_op \<Rightarrow> process \<Rightarrow> process res" where
  "pr_write w op pr =
     (case pr_writers pr w of
        None \<Rightarrow> Inl Use_After_Free
      | Some index \<Rightarrow>
          res_map (\<lambda>(impl, index). pr_update w impl index pr) (ref_step op (pr_impl w pr) index))"

definition pr_count :: "nat \<Rightarrow> process \<Rightarrow> u64 res" where
  "pr_count w pr = ref_count (pr_impl w pr)"

end
