(* ===== verification/Initialize_Laws.thy ===== *)
theory Initialize_Laws
  imports Initialize_Model
begin

text \<open>
  What initialization does on every path: descriptors and mappings are given back, the
  context starts on a cleared array of the size asked for, and its recovered spans are
  those of the layout the file held.
\<close>

section \<open>Reading and writing the file\<close>

lemma file_write_layout:
  assumes "wf_layout sz l"
  shows "file_layout sz (write_layout sz l k) = l"
    and "length (k_file (write_layout sz l k)) = max (sizeof_memory_layout sz) (length (k_file k))"
    and "k_fds (write_layout sz l k) = k_fds k" "k_maps (write_layout sz l k) = k_maps k"
  using layout_bytes.dec_front[OF assms] layout_bytes.overwrite_front[OF assms]
  by (simp_all add: file_layout_def write_layout_def)

lemma file_layout_wf: "sizeof_memory_layout sz \<le> length (k_file k) \<Longrightarrow> wf_layout sz (file_layout sz k)"
  by (simp add: file_layout_def layout_bytes.ok_dec)

lemma file_layout_header:
  "sizeof_memory_layout sz \<le> length (k_file k) \<Longrightarrow> ml_header (file_layout sz k) = file_header k"
  by (simp add: file_layout_def file_header_def header_of_layout_bytes)

lemma file_write_header:
  "file_header (write_header h k) = h"
  "sizeof_header \<le> length (k_file k) \<Longrightarrow> length (k_file (write_header h k)) = length (k_file k)"
  "k_fds (write_header h k) = k_fds k" "k_maps (write_header h k) = k_maps k"
  using header_bytes.dec_front[of h] header_bytes.overwrite_front[of h]
  by (simp_all add: file_header_def write_header_def)

lemma sys_ftruncate_simps [simp]:
  "length (k_file (sys_ftruncate n k)) = n"
  "k_fds (sys_ftruncate n k) = k_fds k" "k_maps (sys_ftruncate n k) = k_maps k"
  by (simp_all add: sys_ftruncate_def)

lemma sys_close_simps [simp]:
  "k_fds (sys_close fd k) = k_fds k - {fd}" "k_file (sys_close fd k) = k_file k"
  "k_maps (sys_close fd k) = k_maps k"
  by (simp_all add: sys_close_def)

lemma aligned_bounds:
  shows "get_memory_layout_size w \<le> get_aligned_size ps w"
    and "get_aligned_size ps w < get_memory_layout_size w + get_page_size ps"
    and "get_page_size ps dvd get_aligned_size ps w"
    and "get_page_size ps \<le> get_aligned_size ps w"
proof -
  let ?p = "get_page_size ps" and ?n = "get_memory_layout_size w"
  have p: "0 < ?p" by simp
  show lo: "?n \<le> get_aligned_size ps w" "get_aligned_size ps w < ?n + ?p"
    using round_up_bounds[OF p, of ?n] by (simp_all add: get_aligned_size_def Let_def)
  show d: "?p dvd get_aligned_size ps w"
    by (simp add: get_aligned_size_def Let_def)
  have "0 < ?n"
    by (simp add: get_memory_layout_size_alt sizeof_memory_layout_def sizeof_header_def)
  then have "0 < get_aligned_size ps w" using lo(1) by simp
  with d show "?p \<le> get_aligned_size ps w" by (rule dvd_imp_le)
qed

lemma sizeof_header_le: "sizeof_header \<le> sizeof_memory_layout sz"
  by (simp add: sizeof_memory_layout_def)

section \<open>What the file holds for recovery\<close>

definition recovers_from :: "os_results \<Rightarrow> kernel \<Rightarrow> bool" where
  "recovers_from os k \<longleftrightarrow> get_page_size (os_page_size os) \<le> length (k_file k) \<and>
     should_do_recovery (Some (file_header k)) (length (k_file k))"

definition held_layout :: "kernel \<Rightarrow> memory_layout" where
  "held_layout k = file_layout (layout_alt (h_mmap_size (file_header k))) k"

definition held_spans :: "os_results \<Rightarrow> kernel \<Rightarrow> span list res" where
  "held_spans os k =
     (if recovers_from os k then
        recover_spans (impl_of (layout_alt (h_mmap_size (file_header k)))
          \<lparr>rd_layout = held_layout k, rd_mark_counter = 0\<rparr>)
      else Inr [])"

lemma should_do_recovery_cases:
  assumes "should_do_recovery (Some h) n"
  obtains sz where "h_mmap_size h = mmap_size_code sz" "layout_alt (h_mmap_size h) = sz"
    "h_signature h = header_signature" "h_version h = header_version"
    "sizeof_memory_layout sz \<le> n" "0 < h_active_span_count h"
  using assms
  by (auto simp: should_do_recovery_def is_header_valid_def is_header_version_current_def
      is_supported_size_iff split: if_splits)

text \<open>
  What the code relies on: a page holds a header, the addresses and descriptors the kernel
  returns are not null and not in use.
\<close>

definition mmap_sound :: "os_results \<Rightarrow> kernel \<Rightarrow> bool" where
  "mmap_sound os k \<longleftrightarrow>
     sizeof_header \<le> get_page_size (os_page_size os) \<and>
     (case os_mmap_existing os of None \<Rightarrow> True | Some a \<Rightarrow> a \<noteq> 0 \<and> k_maps k a = None) \<and>
     (case os_mmap_sized os of None \<Rightarrow> True | Some a \<Rightarrow> a \<noteq> 0 \<and> k_maps k a = None)"

definition os_sound :: "os_results \<Rightarrow> kernel \<Rightarrow> bool" where
  "os_sound os k \<longleftrightarrow> mmap_sound os k \<and>
     (case os_open os of None \<Rightarrow> True | Some fd \<Rightarrow> fd \<notin> k_fds k)"

definition reuses_mapping :: "os_results \<Rightarrow> u64 \<Rightarrow> kernel \<Rightarrow> bool" where
  "reuses_mapping os target k \<longleftrightarrow> recovers_from os k \<and> h_mmap_size (file_header k) = target \<and>
     length (k_file k) = get_aligned_size (os_page_size os) target"

section \<open>The two phases\<close>

lemma sys_mmap_simps [simp]:
  "k_file (sys_mmap r n k) = k_file k" "k_fds (sys_mmap r n k) = k_fds k"
  "file_header (sys_mmap r n k) = file_header k" "file_layout sz (sys_mmap r n k) = file_layout sz k"
  by (cases r; simp add: sys_mmap_def file_header_def file_layout_def)+

lemma map_and_unmap:
  assumes "a \<noteq> 0" "0 < n" "k_maps k a = None"
  shows "mm_destroy \<lparr>mm_mmap_ptr = a, mm_required_size = n\<rparr> (sys_mmap (Some a) n k) = Inr k"
proof -
  have "(k_maps k)(a := None) = k_maps k" using assms(3) by auto
  then show ?thesis
    using assms by (simp add: mm_destroy_def mm_is_initialized_def sys_munmap_def sys_mmap_def)
qed

lemma new_mapped_impl_eq:
  assumes "a \<noteq> 0" "sizeof_memory_layout (layout_alt (h_mmap_size (file_header k))) \<le> n"
    and "n \<le> length (k_file k)"
  shows "new_mapped_impl \<lparr>mm_mmap_ptr = a, mm_required_size = n\<rparr> k =
    Inr \<lparr>mi_impl = impl_of (layout_alt (h_mmap_size (file_header k)))
           \<lparr>rd_layout = held_layout k, rd_mark_counter = 0\<rparr>,
         mi_mmap = \<lparr>mm_mmap_ptr = a, mm_required_size = n\<rparr>\<rparr>"
proof -
  let ?sz = "layout_alt (h_mmap_size (file_header k))"
  have "0 < n" using assms(2) by (simp add: sizeof_memory_layout_def sizeof_header_def)
  moreover have "ml_header (file_layout ?sz k) = file_header k"
    using assms(2,3) by (intro file_layout_header) simp
  ultimately show ?thesis
    using assms by (simp add: new_mapped_impl_def mm_is_initialized_def Let_def mm_convert_def
        make_data_eq held_layout_def)
qed

text \<open>A file with a valid header: the store over it, what it holds and its size class.\<close>

lemma recoverable_file:
  assumes a: "a \<noteq> 0" "0 < length (k_file k)"
    and rec: "should_do_recovery (Some (file_header k)) (length (k_file k))"
    and page: "get_page_size (os_page_size os) \<le> length (k_file k)" and spans: "held_spans os k = Inr ss"
  defines "h \<equiv> \<lparr>mm_mmap_ptr = a, mm_required_size = length (k_file k)\<rparr>"
  shows "\<exists>sz. h_mmap_size (file_header k) = mmap_size_code sz \<and>
    layout_alt (h_mmap_size (file_header k)) = sz \<and>
    new_mapped_impl h (sys_mmap (Some a) (length (k_file k)) k) =
      Inr \<lparr>mi_impl = impl_of sz \<lparr>rd_layout = held_layout k, rd_mark_counter = 0\<rparr>, mi_mmap = h\<rparr> \<and>
    recover_spans (impl_of sz \<lparr>rd_layout = held_layout k, rd_mark_counter = 0\<rparr>) = Inr ss \<and>
    impl_size (impl_of sz \<lparr>rd_layout = held_layout k, rd_mark_counter = 0\<rparr>) = Inr (mmap_size_code sz)"
proof -
  let ?n = "length (k_file k)" and ?k = "sys_mmap (Some a) (length (k_file k)) k"
  from rec obtain sz where sz: "h_mmap_size (file_header k) = mmap_size_code sz"
    "layout_alt (h_mmap_size (file_header k)) = sz" "sizeof_memory_layout sz \<le> ?n"
    by (rule should_do_recovery_cases)
  have "sizeof_memory_layout (layout_alt (h_mmap_size (file_header ?k))) \<le> ?n"
    using sz by simp
  from new_mapped_impl_eq[OF a(1) this] have "new_mapped_impl h ?k =
      Inr \<lparr>mi_impl = impl_of sz \<lparr>rd_layout = held_layout k, rd_mark_counter = 0\<rparr>, mi_mmap = h\<rparr>"
    using sz by (simp add: held_layout_def h_def)
  moreover have "recover_spans (impl_of sz \<lparr>rd_layout = held_layout k, rd_mark_counter = 0\<rparr>) = Inr ss"
    using spans rec page sz by (simp add: held_spans_def recovers_from_def)
  moreover have "h_mmap_size (ml_header (held_layout k)) = mmap_size_code sz"
    using sz file_layout_header[of sz k] by (simp add: held_layout_def)
  then have "impl_size (impl_of sz \<lparr>rd_layout = held_layout k, rd_mark_counter = 0\<rparr>) = Inr (mmap_size_code sz)"
    by (simp add: impl_size_def visit_eq rsd_size_def)
  ultimately show ?thesis using sz by blast
qed

lemma recover_phase_spec:
  assumes sound: "mmap_sound os k" and spans: "held_spans os k = Inr ss"
  shows "recover_phase os target (length (k_file k)) (get_aligned_size (os_page_size os) target) fd k =
    (if get_page_size (os_page_size os) \<le> length (k_file k) then
       (case os_mmap_existing os of
          None \<Rightarrow> Inr (None, sys_close fd k)
        | Some a \<Rightarrow>
            if reuses_mapping os target k then
              Inr (Some (ss, Some \<lparr>mi_impl = impl_of (layout_alt target)
                      \<lparr>rd_layout = held_layout k, rd_mark_counter = 0\<rparr>,
                    mi_mmap = \<lparr>mm_mmap_ptr = a, mm_required_size = length (k_file k)\<rparr>\<rparr>),
                   sys_mmap (Some a) (length (k_file k)) k)
            else Inr (Some (ss, None), k))
     else Inr (Some (ss, None), k))"
proof (cases "get_page_size (os_page_size os) \<le> length (k_file k)")
  case False
  then show ?thesis using spans by (simp add: recover_phase_def held_spans_def recovers_from_def)
next
  case page: True
  let ?n = "length (k_file k)"
  have n: "sizeof_header \<le> ?n" "0 < ?n"
    using page sound by (auto simp: mmap_sound_def sizeof_header_def)
  show ?thesis
  proof (cases "os_mmap_existing os")
    case None
    with n page show ?thesis
      by (simp add: recover_phase_def mm_new_def mm_is_initialized_def mm_empty_def sys_mmap_def)
  next
    case (Some a)
    let ?h = "\<lparr>mm_mmap_ptr = a, mm_required_size = ?n\<rparr>" and ?k = "sys_mmap (Some a) ?n k"
    have a: "a \<noteq> 0" "k_maps k a = None" using sound Some by (auto simp: mmap_sound_def)
    have mm: "mm_new sizeof_header ?n (os_mmap_existing os) k = Inr (?h, ?k)" "mm_is_initialized ?h"
      using n a Some by (simp_all add: mm_new_def mm_is_initialized_def)
    note undo = map_and_unmap[OF a(1) n(2) a(2)]
    show ?thesis
    proof (cases "should_do_recovery (Some (file_header k)) ?n")
      case False
      then have "ss = []" "\<not> reuses_mapping os target k"
        using spans by (simp_all add: held_spans_def recovers_from_def reuses_mapping_def)
      with False page Some mm undo show ?thesis
        by (simp add: recover_phase_def)
    next
      case True
      from recoverable_file[OF a(1) n(2) True page spans] obtain sz where
        r: "h_mmap_size (file_header k) = mmap_size_code sz" "layout_alt (h_mmap_size (file_header k)) = sz"
          "new_mapped_impl ?h ?k =
            Inr \<lparr>mi_impl = impl_of sz \<lparr>rd_layout = held_layout k, rd_mark_counter = 0\<rparr>, mi_mmap = ?h\<rparr>"
          "recover_spans (impl_of sz \<lparr>rd_layout = held_layout k, rd_mark_counter = 0\<rparr>) = Inr ss"
          "impl_size (impl_of sz \<lparr>rd_layout = held_layout k, rd_mark_counter = 0\<rparr>) = Inr (mmap_size_code sz)"
        by blast
      have reuse: "reuses_mapping os target k \<longleftrightarrow>
          mmap_size_code sz = target \<and> ?n = get_aligned_size (os_page_size os) target"
        using True page r(1) by (auto simp: reuses_mapping_def recovers_from_def)
      show ?thesis
        using page Some mm True r undo by (auto simp: recover_phase_def reuse)
    qed
  qed
qed

lemma resize_phase_spec:
  assumes sound: "mmap_sound os k"
  shows "\<exists>k2. resize_phase os target (get_aligned_size (os_page_size os) target) fd k =
      (if \<not> os_ftruncate os then Inr (None, sys_close fd k)
       else case os_mmap_sized os of
         None \<Rightarrow> Inr (None, sys_close fd (sys_ftruncate (get_aligned_size (os_page_size os) target) k))
       | Some a \<Rightarrow>
           Inr (Some \<lparr>mi_impl = impl_of (layout_alt target)
                    \<lparr>rd_layout = held_layout k2, rd_mark_counter = 0\<rparr>,
                  mi_mmap = \<lparr>mm_mmap_ptr = a, mm_required_size = get_aligned_size (os_page_size os) target\<rparr>\<rparr>,
                k2)) \<and>
    file_header k2 = \<lparr>h_signature = header_signature, h_version = header_version, h_mmap_size = target,
      h_active_span_count = 0\<rparr> \<and>
    length (k_file k2) = get_aligned_size (os_page_size os) target \<and> k_fds k2 = k_fds k \<and>
    k_maps k2 = k_maps (sys_mmap (os_mmap_sized os) (get_aligned_size (os_page_size os) target) k) \<and>
    k_file k2 = k_file (write_header (file_header k2)
      (sys_ftruncate (get_aligned_size (os_page_size os) target) k))"
proof -
  let ?n = "get_aligned_size (os_page_size os) target"
  let ?kt = "sys_ftruncate ?n k"
  let ?km = "sys_mmap (os_mmap_sized os) ?n ?kt"
  let ?h = "ml_header (exec_stores Small (reset_header_stores target)
      \<lparr>ml_header = file_header ?km, ml_marked_spans = []\<rparr>)"
  let ?k2 = "write_header ?h ?km"
  have n: "sizeof_memory_layout (layout_alt target) \<le> ?n" "sizeof_header \<le> ?n" "0 < ?n"
    using aligned_bounds(1)[of target "os_page_size os"] sizeof_header_le[of "layout_alt target"]
    by (simp_all add: get_memory_layout_size_alt sizeof_header_def)
  have hd: "file_header ?k2 = \<lparr>h_signature = header_signature, h_version = header_version,
      h_mmap_size = target, h_active_span_count = 0\<rparr>"
    by (simp add: file_write_header reset_header_eq)
  have len: "length (k_file ?k2) = ?n"
    using n(2) by (simp add: file_write_header)
  have maps: "k_maps ?k2 = k_maps (sys_mmap (os_mmap_sized os) ?n k)"
    by (cases "os_mmap_sized os") (simp_all add: file_write_header sys_mmap_def)
  have fds: "k_fds ?k2 = k_fds k" by (simp add: file_write_header)
  have "resize_phase os target ?n fd k =
      (if \<not> os_ftruncate os then Inr (None, sys_close fd k)
       else case os_mmap_sized os of
         None \<Rightarrow> Inr (None, sys_close fd ?kt)
       | Some a \<Rightarrow>
           Inr (Some \<lparr>mi_impl = impl_of (layout_alt target)
                    \<lparr>rd_layout = held_layout ?k2, rd_mark_counter = 0\<rparr>,
                  mi_mmap = \<lparr>mm_mmap_ptr = a, mm_required_size = ?n\<rparr>\<rparr>, ?k2))"
  proof (cases "os_mmap_sized os")
    case None
    with n show ?thesis
      by (simp add: resize_phase_def mm_new_def mm_is_initialized_def mm_empty_def sys_mmap_def)
  next
    case (Some a)
    then have a: "a \<noteq> 0" using sound by (simp add: mmap_sound_def)
    have mm: "mm_new sizeof_header ?n (os_mmap_sized os) ?kt =
        Inr (\<lparr>mm_mmap_ptr = a, mm_required_size = ?n\<rparr>, ?km)"
      "mm_is_initialized \<lparr>mm_mmap_ptr = a, mm_required_size = ?n\<rparr>"
      using n a Some by (simp_all add: mm_new_def mm_is_initialized_def)
    have "new_mapped_impl \<lparr>mm_mmap_ptr = a, mm_required_size = ?n\<rparr> ?k2 =
        Inr \<lparr>mi_impl = impl_of (layout_alt target) \<lparr>rd_layout = held_layout ?k2, rd_mark_counter = 0\<rparr>,
             mi_mmap = \<lparr>mm_mmap_ptr = a, mm_required_size = ?n\<rparr>\<rparr>"
      using new_mapped_impl_eq[OF a, of ?k2 ?n] hd len n(1) by simp
    with mm Some show ?thesis
      unfolding resize_phase_def by (simp add: Let_def)
  qed
  moreover have "k_file ?k2 = k_file (write_header (file_header ?k2) ?kt)"
    unfolding hd by (simp add: write_header_def reset_header_eq)
  ultimately show ?thesis using hd len maps fds by blast
qed

section \<open>Initialization\<close>

text \<open>The array a context starts on: cleared, under a header for the size asked for.\<close>

definition cleared_layout :: "u64 \<Rightarrow> memory_layout" where
  "cleared_layout target =
     (fresh_layout (layout_alt target))\<lparr>ml_header :=
       \<lparr>h_signature = header_signature, h_version = header_version, h_mmap_size = target,
        h_active_span_count = 0\<rparr>\<rparr>"

lemma cleared_layout_code: "cleared_layout (mmap_size_code sz) = fresh_layout sz"
  by (simp add: cleared_layout_def fresh_layout_def)

lemma wf_cleared_layout: "wf_layout (layout_alt target) (cleared_layout target)"
  using fresh_layout_inv(1)[of "layout_alt target"]
  by (simp add: layout_inv_def wf_layout_def cleared_layout_def)

lemma remove_all_cleared:
  assumes "wf_layout (layout_alt target) l" "h_signature (ml_header l) = header_signature"
    and "h_version (ml_header l) = header_version" "h_mmap_size (ml_header l) = target"
  shows "exec_stores (layout_alt target) remove_all_stores l = cleared_layout target"
  using assms
  by (simp add: remove_all_stores_def upd_header_def cleared_layout_def fresh_layout_def wf_layout_def)

lemma new_context_spec:
  assumes "file_header k = \<lparr>h_signature = header_signature, h_version = header_version,
      h_mmap_size = target, h_active_span_count = n\<rparr>"
    and len: "length (k_file k) = get_aligned_size ps target"
  shows "\<exists>k'. new_context \<lparr>mi_impl = impl_of (layout_alt target)
        \<lparr>rd_layout = held_layout k, rd_mark_counter = 0\<rparr>, mi_mmap = h\<rparr> ss (sys_close fd k) =
      (\<lparr>cx_data = \<lparr>mi_impl = impl_of (layout_alt target)
            \<lparr>rd_layout = cleared_layout target, rd_mark_counter = 0\<rparr>, mi_mmap = h\<rparr>,
        cx_recovered_spans = ss, cx_is_recovered = False\<rparr>, k') \<and>
    file_layout (layout_alt target) k' = cleared_layout target \<and>
    length (k_file k') = length (k_file k) \<and> k_fds k' = k_fds k - {fd} \<and> k_maps k' = k_maps k"
proof -
  let ?sz = "layout_alt target"
  have n: "sizeof_memory_layout ?sz \<le> length (k_file k)"
    using aligned_bounds(1)[of target ps] by (simp add: len get_memory_layout_size_alt)
  have l: "held_layout k = file_layout ?sz k" using assms(1) by (simp add: held_layout_def)
  have "exec_stores ?sz remove_all_stores (held_layout k) = cleared_layout target"
    using remove_all_cleared[of target "held_layout k"] file_layout_wf[OF n] file_layout_header[OF n]
      assms(1) by (simp add: l)
  then have "impl_remove_all (impl_of ?sz \<lparr>rd_layout = held_layout k, rd_mark_counter = 0\<rparr>) =
      impl_of ?sz \<lparr>rd_layout = cleared_layout target, rd_mark_counter = 0\<rparr>"
    by (cases ?sz) (simp_all add: impl_remove_all_def rsd_remove_all_def run_on_def)
  then show ?thesis
    using file_write_layout[OF wf_cleared_layout, of target "sys_close fd k"] n
    by (simp add: new_context_def Let_def max_def)
qed

text \<open>Whether a context is made depends on the outcomes of the calls that are needed.\<close>

definition calls_succeed :: "os_results \<Rightarrow> u64 \<Rightarrow> kernel \<Rightarrow> bool" where
  "calls_succeed os target k \<longleftrightarrow> os_open os \<noteq> None \<and> os_fstat os \<and>
     (get_page_size (os_page_size os) \<le> length (k_file k) \<longrightarrow> os_mmap_existing os \<noteq> None) \<and>
     (reuses_mapping os target k \<or> (os_ftruncate os \<and> os_mmap_sized os \<noteq> None))"

lemma kernel_fds_simps [simp]:
  "file_header (k\<lparr>k_fds := f\<rparr>) = file_header k"
  "file_layout sz (k\<lparr>k_fds := f\<rparr>) = file_layout sz k" "held_layout (k\<lparr>k_fds := f\<rparr>) = held_layout k"
  "held_spans os (k\<lparr>k_fds := f\<rparr>) = held_spans os k"
  "recovers_from os (k\<lparr>k_fds := f\<rparr>) = recovers_from os k"
  "reuses_mapping os target (k\<lparr>k_fds := f\<rparr>) = reuses_mapping os target k"
  "mmap_sound os (k\<lparr>k_fds := f\<rparr>) = mmap_sound os k"
  by (simp_all add: file_header_def held_layout_def held_spans_def recovers_from_def
      reuses_mapping_def mmap_sound_def file_layout_def cong: option.case_cong)

definition fresh_context :: "u64 \<Rightarrow> span list \<Rightarrow> span_context \<Rightarrow> bool" where
  "fresh_context target ss c \<longleftrightarrow> cx_recovered_spans c = ss \<and> \<not> cx_is_recovered c \<and>
     mi_impl (cx_data c) = impl_of (layout_alt target)
       \<lparr>rd_layout = cleared_layout target, rd_mark_counter = 0\<rparr>"

text \<open>
  A new context holds one more mapping than before, of the size of the file, and the array
  in the file is cleared; without a context nothing is left mapped.
\<close>

definition initialized ::
    "os_results \<Rightarrow> u64 \<Rightarrow> span list \<Rightarrow> kernel \<Rightarrow> span_context option \<Rightarrow> kernel \<Rightarrow> bool" where
  "initialized os target ss k r k' \<longleftrightarrow> k_fds k' = k_fds k \<and>
     (r \<noteq> None \<longleftrightarrow> calls_succeed os target k) \<and>
     (case r of
        None \<Rightarrow> k_maps k' = k_maps k
      | Some c \<Rightarrow>
          let h = mi_mmap (cx_data c); n = get_aligned_size (os_page_size os) target
          in fresh_context target ss c \<and> mm_is_initialized h \<and> mm_required_size h = n \<and>
             k_maps k (mm_mmap_ptr h) = None \<and> k_maps k' = (k_maps k)(mm_mmap_ptr h \<mapsto> n) \<and>
             file_layout (layout_alt target) k' = cleared_layout target \<and> length (k_file k') = n)"

lemma initialized_new_context:
  assumes hd: "file_header km = \<lparr>h_signature = header_signature, h_version = header_version,
      h_mmap_size = target, h_active_span_count = cnt\<rparr>"
    and len: "length (k_file km) = get_aligned_size (os_page_size os) target"
    and a: "a \<noteq> 0" "k_maps k a = None"
    and km: "k_fds km = insert fd (k_fds k)" "fd \<notin> k_fds k"
      "k_maps km = (k_maps k)(a \<mapsto> get_aligned_size (os_page_size os) target)"
    and ok: "calls_succeed os target k"
  shows "\<exists>c k'. new_context \<lparr>mi_impl = impl_of (layout_alt target)
        \<lparr>rd_layout = held_layout km, rd_mark_counter = 0\<rparr>, mi_mmap =
          \<lparr>mm_mmap_ptr = a, mm_required_size = get_aligned_size (os_page_size os) target\<rparr>\<rparr> ss
        (sys_close fd km) = (c, k') \<and> initialized os target ss k (Some c) k'"
proof -
  let ?n = "get_aligned_size (os_page_size os) target"
  have "0 < ?n" using aligned_bounds(4)[where ps = "os_page_size os" and w = target]
    get_page_size_pos[of "os_page_size os"] by linarith
  moreover have "insert fd (k_fds k) - {fd} = k_fds k" using km(2) by simp
  ultimately show ?thesis
    using new_context_spec[OF hd len, of "\<lparr>mm_mmap_ptr = a, mm_required_size = ?n\<rparr>" ss fd] a km(1,3) len ok
    by (auto simp: initialized_def fresh_context_def mm_is_initialized_def Let_def)
qed

lemma initialize_reuse:
  assumes sound: "os_sound os k" and spans: "held_spans os k = Inr ss"
    and calls: "os_open os = Some fd" "os_fstat os" "os_mmap_existing os = Some a"
    and reuse: "reuses_mapping os target k"
  shows "\<exists>c k'. initialize_span_data os target k = Inr (Some c, k') \<and> initialized os target ss k (Some c) k'"
proof -
  let ?n = "get_aligned_size (os_page_size os) target"
  let ?k = "k\<lparr>k_fds := insert fd (k_fds k)\<rparr>"
  let ?km = "sys_mmap (Some a) ?n ?k"
  have ms: "mmap_sound os ?k" and fd: "fd \<notin> k_fds k" using sound calls(1) by (simp_all add: os_sound_def)
  have sp: "held_spans os ?k = Inr ss" using spans by simp
  have page: "get_page_size (os_page_size os) \<le> length (k_file k)"
    and rec: "should_do_recovery (Some (file_header k)) (length (k_file k))"
    and tgt: "h_mmap_size (file_header k) = target" "length (k_file k) = ?n"
    using reuse unfolding reuses_mapping_def recovers_from_def by blast+
  have a: "a \<noteq> 0" "k_maps k a = None" using ms calls(3) by (auto simp: mmap_sound_def)
  from rec tgt(1) have hd: "file_header ?km = \<lparr>h_signature = header_signature,
      h_version = header_version, h_mmap_size = target,
      h_active_span_count = h_active_span_count (file_header k)\<rparr>"
    by (elim should_do_recovery_cases) (cases "file_header k", simp)
  have ok: "calls_succeed os target k" using calls reuse by (simp add: calls_succeed_def)
  have "k_maps ?km = (k_maps k)(a \<mapsto> ?n)" by (simp add: sys_mmap_def)
  from initialized_new_context[OF hd _ a _ fd this ok, of ss] tgt(2)
  obtain c k' where c: "new_context \<lparr>mi_impl = impl_of (layout_alt target)
        \<lparr>rd_layout = held_layout ?km, rd_mark_counter = 0\<rparr>, mi_mmap =
          \<lparr>mm_mmap_ptr = a, mm_required_size = ?n\<rparr>\<rparr> ss (sys_close fd ?km) = (c, k')"
      "initialized os target ss k (Some c) k'"
    by auto
  have "held_layout ?km = held_layout k" by (simp add: held_layout_def)
  with c calls page reuse tgt(2) recover_phase_spec[OF ms sp, of target fd] show ?thesis
    by (simp add: initialize_span_data_def Let_def)
qed

lemma initialize_resize:
  assumes sound: "os_sound os k" and spans: "held_spans os k = Inr ss"
    and calls: "os_open os = Some fd" "os_fstat os"
    and noreuse: "\<not> reuses_mapping os target k"
    and early: "get_page_size (os_page_size os) \<le> length (k_file k) \<Longrightarrow> os_mmap_existing os \<noteq> None"
  shows "\<exists>r k'. initialize_span_data os target k = Inr (r, k') \<and> initialized os target ss k r k'"
proof -
  let ?n = "get_aligned_size (os_page_size os) target"
  let ?k = "k\<lparr>k_fds := insert fd (k_fds k)\<rparr>"
  have ms: "mmap_sound os ?k" and fd: "fd \<notin> k_fds k" using sound calls(1) by (simp_all add: os_sound_def)
  have sp: "held_spans os ?k = Inr ss" using spans by simp
  have rp: "recover_phase os target (length (k_file k)) ?n fd ?k = Inr (Some (ss, None), ?k)"
    using recover_phase_spec[OF ms sp, of target fd] early noreuse by (auto split: option.splits)
  from resize_phase_spec[OF ms, of target fd] obtain k2 where
    rz: "resize_phase os target ?n fd ?k =
      (if \<not> os_ftruncate os then Inr (None, sys_close fd ?k)
       else case os_mmap_sized os of
         None \<Rightarrow> Inr (None, sys_close fd (sys_ftruncate ?n ?k))
       | Some a \<Rightarrow>
           Inr (Some \<lparr>mi_impl = impl_of (layout_alt target)
                    \<lparr>rd_layout = held_layout k2, rd_mark_counter = 0\<rparr>,
                  mi_mmap = \<lparr>mm_mmap_ptr = a, mm_required_size = ?n\<rparr>\<rparr>, k2))"
    and k2: "file_header k2 = \<lparr>h_signature = header_signature, h_version = header_version,
        h_mmap_size = target, h_active_span_count = 0\<rparr>"
      "length (k_file k2) = ?n" "k_fds k2 = insert fd (k_fds k)"
      "k_maps k2 = k_maps (sys_mmap (os_mmap_sized os) ?n ?k)"
    by auto
  show ?thesis
  proof (cases "os_ftruncate os \<and> os_mmap_sized os \<noteq> None")
    case False
    with calls rp rz fd noreuse show ?thesis
      by (auto simp: initialize_span_data_def Let_def calls_succeed_def initialized_def split: option.splits)
  next
    case True
    then obtain a where a: "os_mmap_sized os = Some a" "os_ftruncate os" by auto
    then have a0: "a \<noteq> 0" "k_maps k a = None" using ms by (auto simp: mmap_sound_def)
    have "k_maps k2 = (k_maps k)(a \<mapsto> ?n)" using k2(4) a by (simp add: sys_mmap_def)
    moreover have "calls_succeed os target k" using calls a early by (simp add: calls_succeed_def)
    ultimately show ?thesis
      using initialized_new_context[OF k2(1,2) a0 k2(3) fd, of ss] calls rp rz a
      by (auto simp: initialize_span_data_def Let_def)
  qed
qed

lemma initialize_spec:
  assumes sound: "os_sound os k" and spans: "held_spans os k = Inr ss"
  shows "\<exists>r k'. initialize_span_data os target k = Inr (r, k') \<and> initialized os target ss k r k'"
proof (cases "os_open os = None \<or> \<not> os_fstat os")
  case True
  with sound show ?thesis
    by (cases "os_open os")
      (auto simp: initialize_span_data_def calls_succeed_def initialized_def os_sound_def Let_def)
next
  case False
  then obtain fd where fd: "os_open os = Some fd" "os_fstat os" by auto
  let ?k = "k\<lparr>k_fds := insert fd (k_fds k)\<rparr>"
  have ms: "mmap_sound os ?k" "fd \<notin> k_fds k" using sound fd(1) by (simp_all add: os_sound_def)
  show ?thesis
  proof (cases "get_page_size (os_page_size os) \<le> length (k_file k) \<and> os_mmap_existing os = None")
    case True
    with fd recover_phase_spec[OF ms(1), of ss target fd] ms(2) spans show ?thesis
      by (simp add: initialize_span_data_def calls_succeed_def initialized_def)
  next
    case early: False
    show ?thesis
    proof (cases "reuses_mapping os target k")
      case True
      with early obtain a where "os_mmap_existing os = Some a"
        by (auto simp: reuses_mapping_def recovers_from_def)
      with initialize_reuse[OF sound spans fd _ True] show ?thesis by blast
    qed (use initialize_resize[OF sound spans fd] early in blast)
  qed
qed

end
