(* ===== verification/Restart.thy ===== *)
theory Restart
  imports Initialize_Laws
begin

text \<open>
  From one process to the next. The file a crashed writer leaves is opened by the next
  process, whose context holds the recovered spans; a crash inside initialization itself
  leaves either the spans to be recovered again or none; a header with an impossible span
  count takes initialization outside the array.
\<close>

section \<open>The header survives\<close>

fun keeps_header :: "store \<Rightarrow> bool" where
  "keeps_header (Store_Signature _) = False"
| "keeps_header (Store_Version _) = False"
| "keeps_header (Store_Mmap_Size _) = False"
| "keeps_header _ = True"

definition same_header :: "memory_layout \<Rightarrow> memory_layout \<Rightarrow> bool" where
  "same_header l l' \<longleftrightarrow> h_signature (ml_header l') = h_signature (ml_header l) \<and>
     h_version (ml_header l') = h_version (ml_header l) \<and>
     h_mmap_size (ml_header l') = h_mmap_size (ml_header l)"

lemma same_header_refl [simp]: "same_header l l" by (simp add: same_header_def)

lemma same_header_trans: "same_header a b \<Longrightarrow> same_header b c \<Longrightarrow> same_header a c"
  by (simp add: same_header_def)

lemma exec_store_header: "keeps_header s \<Longrightarrow> same_header l (exec_store sz s l)"
  by (cases s) (simp_all add: same_header_def layout_simps)

lemma exec_stores_header: "list_all keeps_header ss \<Longrightarrow> same_header l (exec_stores sz ss l)"
proof (induction ss arbitrary: l)
  case (Cons s ss)
  then have "same_header l (exec_store sz s l)" by (simp add: exec_store_header)
  moreover have "same_header (exec_store sz s l) (exec_stores sz (s # ss) l)"
    using Cons by simp
  ultimately show ?case by (rule same_header_trans)
qed simp

lemma torn_header: "torn sz s l l' \<Longrightarrow> same_header l l'"
  by (induction rule: torn.induct) (simp_all add: same_header_def layout_simps)

lemma crash_image_header: "crash_image sz ss l l' \<Longrightarrow> list_all keeps_header ss \<Longrightarrow> same_header l l'"
proof (induction rule: crash_image.induct)
  case (crash_within sz s l l' ss)
  then show ?case by (simp add: torn_header)
next
  case (crash_after sz ss s l l')
  then have "same_header l (exec_store sz s l)" "same_header (exec_store sz s l) l'"
    by (simp_all add: exec_store_header)
  then show ?case by (rule same_header_trans)
qed simp

lemma remove_stores_header: "list_all keeps_header (remove_stores i l)"
  by (simp add: remove_stores_def Let_def)

lemma removal_stores_header: "list_all keeps_header (removal_stores span_id m)"
  by (simp add: removal_stores_def remove_stores_header split: option.split)

lemma add_stores_header: "list_all keeps_header (add_stores sz s mark l)"
  by (simp add: add_stores_def Let_def)

lemma eviction_stores_header: "list_all keeps_header (eviction_stores m)"
  by (simp add: eviction_stores_def removal_stores_header split: sum.split)

lemma set_attribute_stores_header:
  assumes "set_attribute_stores sz i key val r = Inr (j, ss)"
  shows "list_all keeps_header ss"
proof -
  obtain found where "find_attribute key (unat (raw_attr_count r)) (raw_attributes r) 0 = Inr found"
    using assms by (auto simp: set_attribute_stores_def res_bind_Inr_iff)
  then show ?thesis
    using assms
    by (cases found) (auto simp: set_attribute_stores_def update_attribute_stores_def
        append_attribute_stores_def Let_def split: if_splits)
qed

lemma op_stores_header: "list_all keeps_header (op_stores sz op m)"
proof (cases op)
  case (Op_Add s)
  then show ?thesis by (simp add: eviction_stores_header add_stores_header)
next
  case (Op_Set_Attribute span_id key val)
  then show ?thesis
    by (simp split: option.split sum.split prod.split)
      (blast dest: set_attribute_stores_header)
qed (simp_all add: removal_stores_header split: option.split)

lemma run_header:
  "mut_inv sz m \<Longrightarrow> list_all valid_op ops \<Longrightarrow> unat (mut_counter m) + length ops < 2 ^ 64 \<Longrightarrow>
     mut_run ops m = Inr m' \<Longrightarrow> same_header (mut_layout m) (mut_layout m')"
proof (induction ops arbitrary: m)
  case (Cons op ops)
  then have ctr: "unat (mut_counter m) + 1 < 2 ^ 64" by simp
  from mut_step_refines[OF Cons.prems(1), of op] Cons.prems(2) ctr obtain m1 where m1:
    "mut_step op m = Inr m1" "mut_inv sz m1" "unat (mut_counter m1) \<le> unat (mut_counter m) + 1"
    by auto
  have "same_header (mut_layout m) (mut_layout m1)"
    unfolding mut_step_layout[OF Cons.prems(1) ctr m1(1)]
    by (intro exec_stores_header op_stores_header)
  moreover have "same_header (mut_layout m1) (mut_layout m')"
    using Cons.prems m1 by (intro Cons.IH) auto
  ultimately show ?case by (rule same_header_trans)
qed simp

section \<open>The next start\<close>

text \<open>The file of a process whose mapping holds \<open>l\<close>: the layout and the rest of the last page.\<close>

lemma held_of_layout:
  assumes wf: "wf_layout sz l" and img: "k_file k = enc_layout l @ pad"
    and hd: "h_signature (ml_header l) = header_signature" "h_version (ml_header l) = header_version"
      "h_mmap_size (ml_header l) = mmap_size_code sz"
    and page: "get_page_size (os_page_size os) \<le> length (k_file k)"
  shows "recovers_from os k \<longleftrightarrow> 0 < active_count l"
    and "held_layout k = l" and "layout_alt (h_mmap_size (file_header k)) = sz"
proof -
  have len: "sizeof_memory_layout sz \<le> length (k_file k)"
    using layout_bytes.enc_length[OF wf] img by simp
  have l: "file_layout sz k = l"
    using layout_bytes.dec_front[OF wf] img by (simp add: file_layout_def)
  have h: "file_header k = ml_header l" using file_layout_header[OF len] l by simp
  show alt: "layout_alt (h_mmap_size (file_header k)) = sz" by (simp add: h hd)
  show "held_layout k = l" by (simp add: held_layout_def alt l)
  show "recovers_from os k \<longleftrightarrow> 0 < active_count l"
    using page len hd by (auto simp: recovers_from_def should_do_recovery_def h is_header_valid_def
        is_supported_size_iff is_header_version_current_def)
qed

lemma held_spans_of_layout:
  assumes rec: "recovers sz l" and img: "k_file k = enc_layout l @ pad"
    and hd: "h_signature (ml_header l) = header_signature" "h_version (ml_header l) = header_version"
      "h_mmap_size (ml_header l) = mmap_size_code sz"
    and page: "get_page_size (os_page_size os) \<le> length (k_file k)"
  shows "\<exists>ss. held_spans os k = Inr ss \<and> list_all2 (\<lambda>r s. span_of_raw r = Inr s) (recoverable l) ss"
proof -
  have wf: "wf_layout sz l" using rec by (simp add: recovers_def)
  note held = held_of_layout[OF wf img hd page]
  show ?thesis
  proof (cases "0 < active_count l")
    case True
    with held recovers_spans[OF rec, of 0] show ?thesis by (auto simp: held_spans_def)
  next
    case False
    then have "active_count l = 0" by (simp add: word_greater_zero_iff)
    then have "recoverable l = []" by (simp add: recoverable_def active_def)
    with held(1) False show ?thesis by (simp add: held_spans_def)
  qed
qed

text \<open>
  The next start on a file left by a process that died: any layout that can be recovered
  and has the header of the writer.
\<close>

lemma restart_image:
  assumes run: "list_all valid_op ops" "length ops < 2 ^ 64"
      "mut_run ops (fresh_writer sz) = Inr m"
    and l: "recovers sz l" "same_header (mut_layout m) l"
    and img: "k_file k = enc_layout l @ pad" "get_page_size (os_page_size os) \<le> length (k_file k)"
    and os: "os_sound os k" "calls_succeed os target k"
  shows "\<exists>c k' ss. initialize_span_data os target k = Inr (Some c, k') \<and> fresh_context target ss c \<and>
    list_all2 (\<lambda>r s. span_of_raw r = Inr s) (recoverable l) ss"
proof -
  have "same_header (mut_layout (fresh_writer sz)) (mut_layout m)"
    using run_header[of sz "fresh_writer sz" ops m] run by simp
  then have "same_header (fresh_layout sz) l"
    using same_header_trans[OF _ l(2)] by simp
  then have hd: "h_signature (ml_header l) = header_signature"
    "h_version (ml_header l) = header_version" "h_mmap_size (ml_header l) = mmap_size_code sz"
    by (simp_all add: same_header_def fresh_layout_def)
  from held_spans_of_layout[OF l(1) img(1) hd img(2)] obtain ss where
    ss: "held_spans os k = Inr ss" "list_all2 (\<lambda>r s. span_of_raw r = Inr s) (recoverable l) ss"
    by blast
  from initialize_spec[OF os(1) ss(1)] os(2) obtain c k' where
    "initialize_span_data os target k = Inr (Some c, k')" "initialized os target ss k (Some c) k'"
    by (force simp: initialized_def)
  with ss(2) show ?thesis by (auto simp: initialized_def Let_def)
qed

lemma restart_recovers:
  assumes ops: "list_all valid_op (ops @ [op])" "length ops + 1 < 2 ^ 64"
    and run: "mut_run ops (fresh_writer sz) = Inr m"
    and crash: "crash_image sz (op_stores sz op m) (mut_layout m) l"
    and img: "k_file k = enc_layout l @ pad" "get_page_size (os_page_size os) \<le> length (k_file k)"
    and os: "os_sound os k" "calls_succeed os target k"
  shows "\<exists>c k' ss. initialize_span_data os target k = Inr (Some c, k') \<and> fresh_context target ss c \<and>
    list_all2 (\<lambda>r s. span_of_raw r = Inr s) (recoverable l) ss \<and>
    survives sz op (spec_run sz ops []) (recoverable l)"
proof -
  have r: "recovers sz l" "survives sz op (spec_run sz ops []) (recoverable l)"
    using crash_run[of sz "fresh_writer sz" ops op l] ops run crash by auto
  have "same_header (mut_layout m) l"
    using crash op_stores_header by (rule crash_image_header)
  then show ?thesis
    using restart_image[OF _ _ run r(1) _ img os] ops r(2) by auto
qed

section \<open>A crash inside initialization\<close>

text \<open>
  The contents of the file after a crash at some point of initialization: untouched,
  resized with the reset of the header under way, or with the clearing of the array under
  way. A crash inside \<^verbatim>\<open>ftruncate\<close> is left to the file system.
\<close>

definition reset_kernel :: "os_results \<Rightarrow> u64 \<Rightarrow> kernel \<Rightarrow> header \<Rightarrow> kernel" where
  "reset_kernel os target k h =
     write_header h (sys_ftruncate (get_aligned_size (os_page_size os) target) k)"

definition target_header :: "u64 \<Rightarrow> header" where
  "target_header target = \<lparr>h_signature = header_signature, h_version = header_version,
     h_mmap_size = target, h_active_span_count = 0\<rparr>"

inductive init_image :: "os_results \<Rightarrow> u64 \<Rightarrow> kernel \<Rightarrow> kernel \<Rightarrow> bool" where
  image_untouched: "init_image os target k k"
| image_clearing_reused:
    "reuses_mapping os target k \<Longrightarrow>
     crash_image (layout_alt target) remove_all_stores (held_layout k) l \<Longrightarrow>
     init_image os target k (write_layout (layout_alt target) l k)"
| image_resetting:
    "\<not> reuses_mapping os target k \<Longrightarrow>
     kt = sys_ftruncate (get_aligned_size (os_page_size os) target) k \<Longrightarrow>
     crash_image Small (reset_header_stores target)
       \<lparr>ml_header = file_header kt, ml_marked_spans = []\<rparr> l \<Longrightarrow>
     init_image os target k (write_header (ml_header l) kt)"
| image_clearing_resized:
    "\<not> reuses_mapping os target k \<Longrightarrow>
     k2 = reset_kernel os target k (target_header target) \<Longrightarrow>
     crash_image (layout_alt target) remove_all_stores (held_layout k2) l \<Longrightarrow>
     init_image os target k (write_layout (layout_alt target) l k2)"

lemma no_spans_when_zero: "h_active_span_count (file_header k) = 0 \<Longrightarrow> held_spans os k = Inr []"
  by (simp add: held_spans_def recovers_from_def should_do_recovery_def)

lemma count_of_written:
  assumes "sizeof_memory_layout sz \<le> length (k_file k)" "wf_layout sz l"
  shows "file_header (write_layout sz l k) = ml_header l"
  using file_layout_header[of sz "write_layout sz l k"] file_write_layout(1,2)[OF assms(2), of k] assms(1)
  by (simp add: max_def)

lemma write_header_self:
  assumes "sizeof_header \<le> length (k_file k)"
  shows "write_header (file_header k) k = k"
proof -
  have "enc_header (file_header k) = take sizeof_header (k_file k)"
    using assms by (simp add: file_header_def header_bytes.enc_dec)
  then show ?thesis by (simp add: write_header_def)
qed

lemma write_layout_self:
  assumes "sizeof_memory_layout sz \<le> length (k_file k)"
  shows "write_layout sz (file_layout sz k) k = k"
proof -
  have "enc_layout (file_layout sz k) = take (sizeof_memory_layout sz) (k_file k)"
    using assms by (simp add: file_layout_def layout_bytes.enc_dec)
  then show ?thesis by (simp add: write_layout_def)
qed

text \<open>Resizing keeps every layout that still fits.\<close>

lemma take_resized:
  assumes "m \<le> n" "m \<le> length xs"
  shows "take m (take n xs @ replicate (n - length xs) 0) = take m xs"
  using assms by (cases "n \<le> length xs") (simp_all add: min_def)

lemma held_spans_resized:
  assumes rec: "recovers_from os k" and n: "get_page_size (os_page_size os) \<le> n" "sizeof_header \<le> n"
  shows "held_spans os (sys_ftruncate n k) = held_spans os k \<or> held_spans os (sys_ftruncate n k) = Inr []"
proof -
  let ?kt = "sys_ftruncate n k"
  from rec have page: "get_page_size (os_page_size os) \<le> length (k_file k)"
    and sd: "should_do_recovery (Some (file_header k)) (length (k_file k))"
    by (simp_all add: recovers_from_def)
  from sd obtain sz where sz: "h_mmap_size (file_header k) = mmap_size_code sz"
    "sizeof_memory_layout sz \<le> length (k_file k)"
    by (rule should_do_recovery_cases)
  have hd: "file_header ?kt = file_header k"
    using n(2) sz(2) sizeof_header_le[of sz]
    by (simp add: file_header_def sys_ftruncate_def take_resized)
  show ?thesis
  proof (cases "sizeof_memory_layout sz \<le> n")
    case True
    have "file_layout sz ?kt = file_layout sz k"
      using True sz(2) by (simp add: file_layout_def sys_ftruncate_def take_resized)
    then have "held_layout ?kt = held_layout k"
      by (simp add: held_layout_def hd sz(1))
    moreover have "recovers_from os ?kt"
      using rec n(1) True sz
      by (auto simp: recovers_from_def hd should_do_recovery_def split: if_splits)
    ultimately show ?thesis using rec by (simp add: held_spans_def hd)
  next
    case False
    then have "\<not> recovers_from os ?kt"
      using sz by (simp add: recovers_from_def hd should_do_recovery_def)
    then show ?thesis by (simp add: held_spans_def)
  qed
qed

lemma crash_clearing_reused:
  assumes reuse: "reuses_mapping os target k"
    and l: "crash_image (layout_alt target) remove_all_stores (held_layout k) l"
  shows "write_layout (layout_alt target) l k = k \<or>
    held_spans os (write_layout (layout_alt target) l k) = Inr []"
proof -
  have tgt: "h_mmap_size (file_header k) = target"
    and len: "length (k_file k) = get_aligned_size (os_page_size os) target"
    using reuse by (simp_all add: reuses_mapping_def)
  have n: "sizeof_memory_layout (layout_alt target) \<le> length (k_file k)"
    using aligned_bounds(1)[of target "os_page_size os"] by (simp add: len get_memory_layout_size_alt)
  have wf: "wf_layout (layout_alt target) l"
    using file_layout_wf[OF n]
    by (intro crash_image_wf[OF l]) (simp_all add: held_layout_def tgt remove_all_stores_def)
  from crash_remove_all_recoverable[OF l] show ?thesis
  proof
    assume "l = held_layout k"
    then have "l = file_layout (layout_alt target) k" by (simp add: held_layout_def tgt)
    then show ?thesis by (simp only: write_layout_self[OF n] simp_thms)
  next
    assume "recoverable l = [] \<and> active_count l = 0"
    then have "h_active_span_count (file_header (write_layout (layout_alt target) l k)) = 0"
      unfolding count_of_written[OF n wf] by simp
    then show ?thesis using no_spans_when_zero by blast
  qed
qed

lemma crash_resetting:
  assumes sound: "mmap_sound os k" and rec: "recovers_from os k"
    and kt: "kt = sys_ftruncate (get_aligned_size (os_page_size os) target) k"
    and l: "l = \<lparr>ml_header = file_header kt, ml_marked_spans = []\<rparr> \<or> active_count l = 0"
  shows "held_spans os (write_header (ml_header l) kt) = held_spans os k \<or>
    held_spans os (write_header (ml_header l) kt) = Inr []"
proof -
  have n: "get_page_size (os_page_size os) \<le> get_aligned_size (os_page_size os) target"
    "sizeof_header \<le> get_aligned_size (os_page_size os) target"
    using aligned_bounds(4)[of "os_page_size os" target] sound by (simp_all add: mmap_sound_def)
  from l show ?thesis
  proof
    assume "l = \<lparr>ml_header = file_header kt, ml_marked_spans = []\<rparr>"
    then have "write_header (ml_header l) kt = write_header (file_header kt) kt" by simp
    also have "write_header (file_header kt) kt = kt"
      using kt n(2) by (simp only: write_header_self sys_ftruncate_simps)
    finally show ?thesis using held_spans_resized[OF rec n] kt by (simp only:)
  next
    assume "active_count l = 0"
    then have "h_active_span_count (file_header (write_header (ml_header l) kt)) = 0"
      unfolding file_write_header(1) .
    then show ?thesis using no_spans_when_zero by blast
  qed
qed

lemma crash_clearing_resized:
  assumes k2: "file_header k2 = target_header target"
      "length (k_file k2) = get_aligned_size (os_page_size os) target"
    and l: "crash_image (layout_alt target) remove_all_stores (held_layout k2) l"
  shows "held_spans os (write_layout (layout_alt target) l k2) = Inr []"
proof -
  have n: "sizeof_memory_layout (layout_alt target) \<le> length (k_file k2)"
    using aligned_bounds(1)[of target "os_page_size os"] by (simp add: k2(2) get_memory_layout_size_alt)
  have alt: "held_layout k2 = file_layout (layout_alt target) k2"
    by (simp add: held_layout_def k2(1) target_header_def)
  have wf: "wf_layout (layout_alt target) l"
    using file_layout_wf[OF n]
    by (intro crash_image_wf[OF l]) (simp_all add: alt remove_all_stores_def)
  have "active_count l = 0"
    using crash_remove_all_recoverable[OF l]
  proof
    assume "l = held_layout k2"
    then show ?thesis unfolding alt using file_layout_header[OF n] k2(1) by (simp add: target_header_def)
  qed simp
  then have "h_active_span_count (file_header (write_layout (layout_alt target) l k2)) = 0"
    unfolding count_of_written[OF n wf] .
  then show ?thesis by (rule no_spans_when_zero)
qed

lemma init_crash_spans:
  assumes sound: "mmap_sound os k" and rec: "recovers_from os k" and img: "init_image os target k k'"
  shows "held_spans os k' = held_spans os k \<or> held_spans os k' = Inr []"
  using img
proof cases
  case (image_clearing_reused l)
  from crash_clearing_reused[OF image_clearing_reused(2,3)] show ?thesis
    unfolding image_clearing_reused(1) by metis
next
  case (image_resetting kt l)
  from crash_resetting[OF sound rec image_resetting(3) crash_reset_header[OF image_resetting(4)]]
  show ?thesis unfolding image_resetting(1) .
next
  case (image_clearing_resized k2 l)
  have "file_header k2 = target_header target" "length (k_file k2) = get_aligned_size (os_page_size os) target"
    using image_clearing_resized(3) sizeof_header_le[of "layout_alt target"]
      aligned_bounds(1)[of target "os_page_size os"]
    by (simp_all add: reset_kernel_def file_write_header get_memory_layout_size_alt)
  from crash_clearing_resized[OF this image_clearing_resized(4)] show ?thesis
    unfolding image_clearing_resized(1) by blast
qed simp

text \<open>
  The images are those of the model of \<^verbatim>\<open>initialize_span_data\<close>: the file a successful call
  leaves is the last of them.
\<close>

lemma new_context_file:
  assumes "new_context \<lparr>mi_impl = impl_of sz \<lparr>rd_layout = l, rd_mark_counter = 0\<rparr>, mi_mmap = h\<rparr> ss km = (c, k')"
  shows "k_file k' = k_file (write_layout sz (exec_stores sz remove_all_stores l) km)"
  using assms
  by (auto simp: new_context_def Let_def impl_remove_all_def visit_eq rsd_remove_all_def run_on_def
      simp del: exec_stores.simps)

lemma write_layout_file: "k_file k = k_file k' \<Longrightarrow> k_file (write_layout sz l k) = k_file (write_layout sz l k')"
  by (simp add: write_layout_def)

lemma initialize_end_image:
  assumes sound: "os_sound os k" and spans: "held_spans os k = Inr ss"
    and init: "initialize_span_data os target k = Inr (Some c, k')"
  shows "\<exists>ki. init_image os target k ki \<and> k_file ki = k_file k'"
proof -
  let ?n = "get_aligned_size (os_page_size os) target" and ?sz = "layout_alt target"
  from init obtain fd where fd: "os_open os = Some fd" "os_fstat os"
    by (auto simp: initialize_span_data_def Let_def split: option.splits if_splits)
  let ?k = "k\<lparr>k_fds := insert fd (k_fds k)\<rparr>"
  have ms: "mmap_sound os ?k" using sound fd by (simp add: os_sound_def)
  have sp: "held_spans os ?k = Inr ss" using spans by simp
  note rp = recover_phase_spec[OF ms sp, of target fd]
  show ?thesis
  proof (cases "reuses_mapping os target k")
    case True
    then have page: "get_page_size (os_page_size os) \<le> length (k_file k)"
      by (simp add: reuses_mapping_def recovers_from_def)
    with init fd rp obtain a where a: "os_mmap_existing os = Some a"
      by (cases "os_mmap_existing os") (auto simp: initialize_span_data_def Let_def)
    let ?km = "sys_mmap (Some a) (length (k_file k)) ?k"
    have "new_context \<lparr>mi_impl = impl_of ?sz \<lparr>rd_layout = held_layout k, rd_mark_counter = 0\<rparr>,
        mi_mmap = \<lparr>mm_mmap_ptr = a, mm_required_size = length (k_file k)\<rparr>\<rparr> ss (sys_close fd ?km) = (c, k')"
      using init fd rp page a True
      by (simp add: initialize_span_data_def Let_def split: prod.splits)
    from new_context_file[OF this] have
      "k_file k' = k_file (write_layout ?sz (exec_stores ?sz remove_all_stores (held_layout k)) k)"
      by (simp add: write_layout_def sys_close_def sys_mmap_def)
    with image_clearing_reused[OF True crash_image_done] show ?thesis by metis
  next
    case False
    from resize_phase_spec[OF ms, of target fd] obtain k2 where
      rz: "resize_phase os target ?n fd ?k =
        (if \<not> os_ftruncate os then Inr (None, sys_close fd ?k)
         else case os_mmap_sized os of
           None \<Rightarrow> Inr (None, sys_close fd (sys_ftruncate ?n ?k))
         | Some a \<Rightarrow> Inr (Some \<lparr>mi_impl = impl_of ?sz \<lparr>rd_layout = held_layout k2, rd_mark_counter = 0\<rparr>,
               mi_mmap = \<lparr>mm_mmap_ptr = a, mm_required_size = ?n\<rparr>\<rparr>, k2))"
      and k2: "file_header k2 = target_header target"
        "k_file k2 = k_file (write_header (file_header k2) (sys_ftruncate ?n ?k))"
      unfolding target_header_def by blast
    have early: "recover_phase os target (length (k_file k)) ?n fd ?k = Inr (Some (ss, None), ?k)"
      using init fd rp False by (auto simp: initialize_span_data_def Let_def split: option.splits if_splits)
    from init fd early rz obtain a where a: "os_ftruncate os" "os_mmap_sized os = Some a"
      by (auto simp: initialize_span_data_def Let_def split: option.splits if_splits)
    have "new_context \<lparr>mi_impl = impl_of ?sz \<lparr>rd_layout = held_layout k2, rd_mark_counter = 0\<rparr>,
        mi_mmap = \<lparr>mm_mmap_ptr = a, mm_required_size = ?n\<rparr>\<rparr> ss (sys_close fd k2) = (c, k')"
      using init fd early rz a
      by (simp add: initialize_span_data_def Let_def split: prod.splits)
    from new_context_file[OF this] have k': "k_file k' =
        k_file (write_layout ?sz (exec_stores ?sz remove_all_stores (held_layout k2)) (sys_close fd k2))" .
    let ?k2 = "reset_kernel os target k (target_header target)"
    have same: "k_file k2 = k_file ?k2"
      using k2 by (simp add: reset_kernel_def write_header_def sys_ftruncate_def)
    then have "held_layout k2 = held_layout ?k2"
      by (simp add: held_layout_def file_layout_def file_header_def)
    with k' same have "k_file k' =
        k_file (write_layout ?sz (exec_stores ?sz remove_all_stores (held_layout ?k2)) ?k2)"
      by (simp add: write_layout_def sys_close_def)
    with image_clearing_resized[OF False refl crash_image_done] show ?thesis by metis
  qed
qed

section \<open>An impossible span count\<close>

text \<open>
  \<^verbatim>\<open>should_do_recovery\<close> checks the signature, the version, the size and that the count is not
  zero, but not that the count is within the array.
\<close>

lemma initialize_overrun:
  assumes sound: "os_sound os k" and rec: "recovers_from os k"
    and over: "max_spans (mmap_config (layout_alt (h_mmap_size (file_header k))))
      < unat (h_active_span_count (file_header k))"
    and calls: "os_open os = Some fd" "os_fstat os" "os_mmap_existing os = Some a"
  shows "\<exists>e. initialize_span_data os target k = Inl e"
proof -
  let ?k = "k\<lparr>k_fds := insert fd (k_fds k)\<rparr>" and ?n = "length (k_file k)"
  let ?km = "sys_mmap (Some a) ?n ?k"
  from rec have page: "get_page_size (os_page_size os) \<le> ?n"
    and sd: "should_do_recovery (Some (file_header k)) ?n"
    by (simp_all add: recovers_from_def)
  from sd obtain sz where sz: "layout_alt (h_mmap_size (file_header k)) = sz"
    "sizeof_memory_layout sz \<le> ?n"
    by (rule should_do_recovery_cases)
  have a: "a \<noteq> 0" using sound calls(3) by (simp add: os_sound_def mmap_sound_def)
  have n: "sizeof_header \<le> ?n" "0 < ?n"
    using page sound by (auto simp: os_sound_def mmap_sound_def sizeof_header_def)
  have mm: "mm_new sizeof_header ?n (Some a) ?k =
      Inr (\<lparr>mm_mmap_ptr = a, mm_required_size = ?n\<rparr>, ?km)"
    "mm_is_initialized \<lparr>mm_mmap_ptr = a, mm_required_size = ?n\<rparr>"
    using n a by (simp_all add: mm_new_def mm_is_initialized_def)
  have new: "new_mapped_impl \<lparr>mm_mmap_ptr = a, mm_required_size = ?n\<rparr> ?km =
      Inr \<lparr>mi_impl = impl_of sz \<lparr>rd_layout = file_layout sz k, rd_mark_counter = 0\<rparr>,
           mi_mmap = \<lparr>mm_mmap_ptr = a, mm_required_size = ?n\<rparr>\<rparr>"
    using new_mapped_impl_eq[OF a, of ?km ?n] sz by (simp add: held_layout_def)
  have "length (ml_marked_spans (file_layout sz k)) = max_spans (mmap_config sz)"
    using file_layout_wf[OF sz(2)] by (simp add: wf_layout_def)
  moreover have "max_spans (mmap_config sz) < unat (active_count (file_layout sz k))"
    using over sz file_layout_header[OF sz(2)] by simp
  ultimately obtain e where
    "recover_spans (impl_of sz \<lparr>rd_layout = file_layout sz k, rd_mark_counter = 0\<rparr>) = Inl e"
    using recover_spans_overrun by blast
  with page sd mm new calls show ?thesis
    by (simp add: initialize_span_data_def Let_def recover_phase_def)
qed

section \<open>Sizes outside the enumeration\<close>

text \<open>
  The identity of the file is never written after initialization, whatever state the writer
  is in; no invariant is needed.
\<close>

lemma impl_step_header:
  "impl_add s x = Inr (i, y) \<Longrightarrow> same_header (rd_layout (impl_data x)) (rd_layout (impl_data y))"
  "impl_remove j x = Inr (moved, y) \<Longrightarrow> same_header (rd_layout (impl_data x)) (rd_layout (impl_data y))"
  "impl_set_end_time j t x = Inr y \<Longrightarrow> same_header (rd_layout (impl_data x)) (rd_layout (impl_data y))"
  "impl_set_attribute_on_span j k v x = Inr (i, y) \<Longrightarrow>
     same_header (rd_layout (impl_data x)) (rd_layout (impl_data y))"
  by (auto simp: impl_add_def impl_remove_def impl_set_end_time_def impl_set_attribute_on_span_def
      visit_eq res_map_Inr_iff rsd_add_def rsd_remove_def rsd_set_end_time_def
      rsd_set_attribute_on_span_def Let_def add_stores_header remove_stores_header
      simp del: exec_stores.simps dest: set_attribute_stores_header intro!: exec_stores_header
      split: if_splits)

lemma mut_remove_header: "mut_remove span_id m = Inr m' \<Longrightarrow> same_header (mut_layout m) (mut_layout m')"
  by (auto simp: mut_remove_def res_map_Inr_iff Let_def dest: impl_step_header(2) split: option.splits)

lemma mut_add_header:
  assumes "mut_add s m = Inr m'"
  shows "same_header (mut_layout m) (mut_layout m')"
proof (cases "mu_index m (sp_span_id s) = None")
  case True
  let ?room = "if unat (impl_count (mu_impl m)) = impl_max_count (mu_impl m) then
      res_bind (oldest_span (mu_impl m)) (\<lambda>oldest. if oldest \<noteq> 0 then mut_remove oldest m else Inr m)
    else Inr m"
  from assms True obtain m1 i x where m1: "?room = Inr m1" "impl_add s (mu_impl m1) = Inr (i, x)" "mu_impl m' = x"
    by (auto simp: mut_add_def res_bind_Inr_iff res_map_Inr_iff)
  have "same_header (mut_layout m) (mut_layout m1)"
    using m1(1) mut_remove_header by (auto simp: res_bind_Inr_iff split: if_splits)
  with m1 impl_step_header(1) same_header_trans show ?thesis by metis
qed (use assms in \<open>simp add: mut_add_def\<close>)

lemma mut_step_header: "mut_step op m = Inr m' \<Longrightarrow> same_header (mut_layout m) (mut_layout m')"
  by (cases op) (auto simp: mut_add_header mut_remove_header mut_end_def mut_set_attribute_on_span_def
      res_map_Inr_iff Let_def dest: impl_step_header(3,4) split: option.splits)

lemma mut_run_header: "mut_run ops m = Inr m' \<Longrightarrow> same_header (mut_layout m) (mut_layout m')"
proof (induction ops arbitrary: m)
  case (Cons op ops)
  then obtain m1 where "mut_step op m = Inr m1" "mut_run ops m1 = Inr m'"
    by (auto simp: res_bind_Inr_iff)
  with Cons.IH mut_step_header same_header_trans show ?case by metis
qed simp

lemma unsupported_not_held:
  assumes "\<not> is_supported_size (h_mmap_size (ml_header l))" "k_file k = enc_layout l @ pad"
  shows "held_spans os k = Inr []"
proof -
  have "file_header k = ml_header l"
    using header_bytes.dec_front[of "ml_header l" "enc_array enc_marked_span (ml_marked_spans l) @ pad"]
    by (simp only: assms(2) file_header_def enc_layout_def layout_members_def enc_pair_def
        fst_conv snd_conv append_assoc)
  with assms(1) show ?thesis
    by (simp add: held_spans_def recovers_from_def should_do_recovery_def is_header_valid_def)
qed

end
