(* ===== verification/Process_Laws.thy ===== *)
theory Process_Laws
  imports Restart
begin

text \<open>
  The library as its callers see it (\<^verbatim>\<open>initialize.h\<close>): sequences of calls that respect the
  life time of the context never fault, the live context owns exactly one mapping and agrees
  with the file, recovered spans are handed out once and the writer only after them. The other
  side: a writer kept past \<^verbatim>\<open>release_span_data\<close> holds a dangling reference, and a second context
  over the same file takes the spans from under the first writer.
\<close>

section \<open>Sessions\<close>

text \<open>A write goes through \<^verbatim>\<open>get_mutable_span_data\<close> each time, as the native methods do it.\<close>

datatype api_call =
    Api_Initialize os_results nat u64
  | Api_Recover nat
  | Api_Write nat mutable_op
  | Api_Release nat

fun api_step :: "api_call \<Rightarrow> process \<Rightarrow> process res" where
  "api_step (Api_Initialize os addr target) pr = res_map snd (pr_initialize os addr target pr)"
| "api_step (Api_Recover p) pr = res_map snd (get_recovered_spans p pr)"
| "api_step (Api_Write p op) pr =
     res_bind (get_mutable_span_data p pr) (\<lambda>w. if w = 0 then Inr pr else pr_write w op pr)"
| "api_step (Api_Release p) pr = res_map snd (release_span_data p pr)"

fun api_run :: "api_call list \<Rightarrow> process \<Rightarrow> process res" where
  "api_run [] pr = Inr pr"
| "api_run (c # cs) pr = res_bind (api_step c pr) (api_run cs)"

text \<open>
  What a caller has to respect: pointers are null or alive, the file is initialized only when
  no context is alive (the mappings are shared, see \<open>second_context\<close> below), the counter of
  marks is not exhausted; and what the environment provides: sound system calls and a file
  whose spans can be read.
\<close>

definition alive_or_null :: "nat \<Rightarrow> process \<Rightarrow> bool" where
  "alive_or_null p pr \<longleftrightarrow> p = 0 \<or> pr_contexts pr p \<noteq> None"

fun call_ok :: "api_call \<Rightarrow> process \<Rightarrow> bool" where
  "call_ok (Api_Initialize os addr target) pr \<longleftrightarrow>
     os_sound os (pr_kernel pr) \<and> is_supported_size target \<and> addr \<noteq> 0 \<and> pr_contexts pr = Map.empty \<and>
     (case held_spans os (pr_kernel pr) of Inl _ \<Rightarrow> False | Inr _ \<Rightarrow> True)"
| "call_ok (Api_Recover p) pr \<longleftrightarrow> alive_or_null p pr"
| "call_ok (Api_Write p op) pr \<longleftrightarrow> alive_or_null p pr \<and> valid_op op \<and>
     (case pr_contexts pr p of None \<Rightarrow> True
      | Some c \<Rightarrow> unat (impl_counter (mi_impl (cx_data c))) + 1 < 2 ^ 64)"
| "call_ok (Api_Release p) pr \<longleftrightarrow> alive_or_null p pr"

section \<open>Invariant\<close>

definition cx_mappings :: "process \<Rightarrow> managed_mmap objects" where
  "cx_mappings pr = (\<lambda>p. map_option (\<lambda>c. mi_mmap (cx_data c)) (pr_contexts pr p))"

text \<open>
  The mapping is shared: the file holds the layout of the context at all times, so what a
  writer reads there is what its own context last wrote.
\<close>

definition cx_in_file :: "kernel \<Rightarrow> span_context \<Rightarrow> bool" where
  "cx_in_file k c \<longleftrightarrow>
     (let x = mi_impl (cx_data c)
      in sizeof_memory_layout (impl_alt x) \<le> length (k_file k) \<and>
         file_layout (impl_alt x) k = rd_layout (impl_data x))"

definition in_file :: "nat \<Rightarrow> process \<Rightarrow> bool" where
  "in_file p pr \<longleftrightarrow>
     (case pr_contexts pr p of None \<Rightarrow> False | Some c \<Rightarrow> cx_in_file (pr_kernel pr) c)"

lemma pr_impl_in_file:
  assumes "in_file p pr" "pr_contexts pr p = Some c"
  shows "pr_impl p pr = Inr (mi_impl (cx_data c))"
proof -
  have "with_data x ((impl_data x)\<lparr>rd_layout := rd_layout (impl_data x)\<rparr>) = x" for x
    by (cases x) (simp_all add: impl_data_def)
  then show ?thesis
    using assms by (simp add: in_file_def cx_in_file_def pr_impl_def cx_impl_def Let_def)
qed

lemma pr_write_in_file:
  assumes "in_file p pr" "pr_contexts pr p = Some c" "pr_writers pr p = Some index"
  shows "pr_write p op pr =
    res_map (\<lambda>m. pr\<lparr>pr_contexts := (pr_contexts pr)
        (p \<mapsto> c\<lparr>cx_data := (cx_data c)\<lparr>mi_impl := mu_impl m\<rparr>\<rparr>),
      pr_writers := (pr_writers pr)(p \<mapsto> mu_index m),
      pr_kernel := write_layout (impl_alt (mu_impl m)) (mut_layout m) (pr_kernel pr)\<rparr>)
    (mut_step op (cx_writer c index))"
proof -
  have "ref_step op (pr_impl p pr) index = res_map by_ref (mut_step op (cx_writer c index))"
    using ref_step_alive[of op "cx_writer c index"] pr_impl_in_file[OF assms(1,2)]
    by (simp add: cx_writer_def)
  then show ?thesis
    using assms(2,3)
    by (cases "mut_step op (cx_writer c index)")
      (simp_all add: pr_write_def by_ref_def pr_update_def)
qed

lemma pr_count_in_file:
  "in_file p pr \<Longrightarrow> pr_contexts pr p = Some c \<Longrightarrow> pr_count p pr = Inr (impl_count (mi_impl (cx_data c)))"
  by (simp add: pr_count_def ref_count_def pr_impl_in_file)

definition context_ok :: "process \<Rightarrow> nat \<Rightarrow> span_context \<Rightarrow> bool" where
  "context_ok pr p c \<longleftrightarrow> mm_is_initialized (mi_mmap (cx_data c)) \<and> cx_in_file (pr_kernel pr) c \<and>
     (\<exists>sz index. pr_writers pr p = Some index \<and> mut_inv sz (cx_writer c index))"

definition pr_inv :: "process \<Rightarrow> bool" where
  "pr_inv pr \<longleftrightarrow> pr_contexts pr 0 = None \<and>
     sole_owners mm_owned (cx_mappings pr) (mm_held (pr_kernel pr)) \<and>
     (\<forall>p q. pr_contexts pr p \<noteq> None \<longrightarrow> pr_contexts pr q \<noteq> None \<longrightarrow> p = q) \<and>
     (\<forall>p c. pr_contexts pr p = Some c \<longrightarrow> context_ok pr p c)"

lemma pr_inv_no_context:
  assumes "pr_contexts pr = Map.empty" "sole_owners mm_owned (cx_mappings pr) (mm_held (pr_kernel pr))"
  shows "pr_inv pr"
  using assms by (simp add: pr_inv_def)

lemma pr_inv_others:
  assumes "pr_inv pr" "pr_contexts pr p \<noteq> None"
  shows "(pr_contexts pr)(p := x) = Map.empty(p := x)"
  using assms unfolding pr_inv_def by fastforce

text \<open>The one context changes, appears or disappears.\<close>

lemma pr_inv_upd:
  assumes p: "p \<noteq> 0" and cs: "pr_contexts pr' = Map.empty(p := x)"
    and so: "sole_owners mm_owned (cx_mappings pr') (mm_held (pr_kernel pr'))"
    and ok: "\<And>c. x = Some c \<Longrightarrow> context_ok pr' p c"
  shows "pr_inv pr'"
  using assms by (auto simp: pr_inv_def split: if_splits)

lemma pr_inv_in_file: "pr_inv pr \<Longrightarrow> pr_contexts pr p = Some c \<Longrightarrow> in_file p pr"
  by (simp add: pr_inv_def context_ok_def in_file_def)

lemma pr_invE:
  assumes "pr_inv pr" "pr_contexts pr p = Some c"
  obtains sz index where "p \<noteq> 0" "mm_is_initialized (mi_mmap (cx_data c))"
    "pr_writers pr p = Some index" "mut_inv sz (cx_writer c index)"
    "cx_mappings pr p = Some (mi_mmap (cx_data c))"
proof -
  have "p \<noteq> 0" using assms unfolding pr_inv_def by (metis option.distinct(1))
  moreover have "context_ok pr p c" using assms by (simp add: pr_inv_def)
  ultimately show ?thesis
    using that assms(2) by (auto simp: context_ok_def cx_mappings_def)
qed

lemma mm_held_cong: "k_maps k' = k_maps k \<Longrightarrow> mm_held k' = mm_held k"
  by (simp add: mm_held_def)

lemma fresh_context_writer:
  assumes "fresh_context (mmap_size_code sz) ss c"
  shows "cx_writer c Map.empty = fresh_writer sz"
  using assms by (simp add: fresh_context_def cx_writer_def fresh_writer_def mut_new_def cleared_layout_code)

lemma initialized_in_file:
  assumes "initialized os target ss k (Some c) k'"
  shows "cx_in_file k' c" and "length (k_file k') = get_aligned_size (os_page_size os) target"
proof -
  have "fresh_context target ss c" "file_layout (layout_alt target) k' = cleared_layout target"
    and len: "length (k_file k') = get_aligned_size (os_page_size os) target"
    using assms by (auto simp: initialized_def Let_def)
  then show "cx_in_file k' c"
    using aligned_bounds(1)[of target "os_page_size os"]
    by (simp add: cx_in_file_def fresh_context_def get_memory_layout_size_alt)
  show "length (k_file k') = get_aligned_size (os_page_size os) target" by (rule len)
qed

lemma initialize_inv:
  assumes inv: "pr_inv pr" and ok: "call_ok (Api_Initialize os addr target) pr"
  shows "\<exists>r pr'. pr_initialize os addr target pr = Inr (r, pr') \<and> pr_inv pr' \<and>
    k_fds (pr_kernel pr') = k_fds (pr_kernel pr) \<and>
    (r = 0 \<or> (r = addr \<and> (\<exists>c ss. pr_contexts pr' addr = Some c \<and> held_spans os (pr_kernel pr) = Inr ss \<and>
      fresh_context target ss c)))"
proof -
  let ?k = "pr_kernel pr"
  from ok obtain sz where sz: "target = mmap_size_code sz"
    by (auto simp: is_supported_size_iff)
  from ok obtain ss where ss: "held_spans os ?k = Inr ss" by (auto split: sum.splits)
  have sound: "os_sound os ?k" and addr: "addr \<noteq> 0" and none: "pr_contexts pr = Map.empty" using ok by auto
  have so: "sole_owners mm_owned Map.empty (mm_held ?k)"
    using inv none by (simp add: pr_inv_def cx_mappings_def)
  from initialize_spec[OF sound ss, of target] obtain r k' where
    i: "initialize_span_data os target ?k = Inr (r, k')" "initialized os target ss ?k r k'"
    by blast
  show ?thesis
  proof (cases r)
    case None
    let ?pr' = "pr\<lparr>pr_kernel := k'\<rparr>"
    have "mm_held k' = mm_held ?k" using i(2) None mm_held_cong[of k' ?k] by (simp add: initialized_def)
    then have "pr_inv ?pr'" using none so by (intro pr_inv_no_context) (simp_all add: cx_mappings_def)
    with i None show ?thesis
      by (simp add: pr_initialize_def initialized_def)
  next
    case (Some c)
    let ?h = "mi_mmap (cx_data c)"
    let ?pr' = "pr\<lparr>pr_kernel := k', pr_contexts := (pr_contexts pr)(addr \<mapsto> c),
      pr_writers := (pr_writers pr)(addr \<mapsto> Map.empty)\<rparr>"
    have c: "fresh_context target ss c" "mm_is_initialized ?h" "k_maps ?k (mm_mmap_ptr ?h) = None"
      "k_maps k' = (k_maps ?k)(mm_mmap_ptr ?h \<mapsto> mm_required_size ?h)" "k_fds k' = k_fds ?k"
      using i(2) Some by (auto simp: initialized_def Let_def)
    have held: "mm_held k' = mm_held ?k \<union> mm_owned ?h" "mm_owned ?h \<inter> mm_held ?k = {}"
      using c(2-4) by (auto simp: mm_held_def mm_owned_def split: if_splits)
    have "cx_mappings ?pr' = Map.empty(addr \<mapsto> ?h)" using none by (auto simp: cx_mappings_def)
    then have "sole_owners mm_owned (cx_mappings ?pr') (mm_held k')"
      using sole_owners_put[OF so, where i = addr and h = ?h] held by simp
    moreover have "context_ok ?pr' addr c"
      using c(1,2) fresh_context_writer[of sz ss c] sz initialized_in_file(1)[OF i(2)[unfolded Some]]
      by (auto simp: context_ok_def intro: fresh_writer_simps(1))
    ultimately have "pr_inv ?pr'" using none by (intro pr_inv_upd[OF addr, where x = "Some c"]) simp_all
    with i(1) Some c(1,5) ss show ?thesis
      by (auto simp: pr_initialize_def)
  qed
qed

lemma initialize_in_file:
  assumes inv: "pr_inv pr" and ok: "call_ok (Api_Initialize os addr target) pr"
    and init: "pr_initialize os addr target pr = Inr (addr, pr')"
  shows "in_file addr pr'"
    and "length (k_file (pr_kernel pr')) = get_aligned_size (os_page_size os) target"
proof -
  have addr: "addr \<noteq> 0" using ok by simp
  with initialize_inv[OF inv ok] init obtain c where "pr_inv pr'" "pr_contexts pr' addr = Some c"
    by auto
  then show "in_file addr pr'" by (rule pr_inv_in_file)
  from ok obtain ss where ss: "os_sound os (pr_kernel pr)" "held_spans os (pr_kernel pr) = Inr ss"
    by (auto split: sum.splits)
  from initialize_spec[OF ss, of target] obtain r k' where
    i: "initialize_span_data os target (pr_kernel pr) = Inr (r, k')"
      "initialized os target ss (pr_kernel pr) r k'"
    by blast
  with init addr obtain c where "r = Some c" "pr_kernel pr' = k'"
    by (cases r) (auto simp: pr_initialize_def)
  with i(2) initialized_in_file(2) show "length (k_file (pr_kernel pr')) = get_aligned_size (os_page_size os) target"
    by simp
qed

lemma recover_inv:
  assumes inv: "pr_inv pr" and ok: "alive_or_null p pr"
  shows "\<exists>ss pr'. get_recovered_spans p pr = Inr (ss, pr') \<and> pr_inv pr' \<and>
    pr_kernel pr' = pr_kernel pr \<and> get_recovered_spans p pr' = Inr ([], pr')"
proof (cases "p = 0 \<or> (\<exists>c. pr_contexts pr p = Some c \<and> cx_is_recovered c)")
  case True
  with inv show ?thesis by (auto simp: get_recovered_spans_def)
next
  case False
  with ok obtain c where c: "pr_contexts pr p = Some c" "\<not> cx_is_recovered c" "p \<noteq> 0"
    by (auto simp: alive_or_null_def)
  let ?c = "c\<lparr>cx_is_recovered := True, cx_recovered_spans := []\<rparr>"
  let ?pr' = "pr\<lparr>pr_contexts := (pr_contexts pr)(p \<mapsto> ?c)\<rparr>"
  have "cx_mappings ?pr' = cx_mappings pr" using c by (auto simp: cx_mappings_def)
  then have "sole_owners mm_owned (cx_mappings ?pr') (mm_held (pr_kernel ?pr'))"
    using inv by (simp add: pr_inv_def)
  moreover have "context_ok ?pr' p ?c"
    using inv c by (simp add: pr_inv_def context_ok_def cx_writer_def cx_in_file_def)
  moreover have "pr_contexts ?pr' = Map.empty(p \<mapsto> ?c)" using pr_inv_others[OF inv, of p] c(1) by simp
  ultimately have "pr_inv ?pr'" by (intro pr_inv_upd[OF c(3), where x = "Some ?c"]) simp_all
  with c show ?thesis by (simp add: get_recovered_spans_def)
qed

lemma write_inv:
  assumes inv: "pr_inv pr" and c: "pr_contexts pr p = Some c" and op: "valid_op op"
    and ctr: "unat (impl_counter (mi_impl (cx_data c))) + 1 < 2 ^ 64"
  shows "\<exists>pr'. pr_write p op pr = Inr pr' \<and> pr_inv pr' \<and> k_maps (pr_kernel pr') = k_maps (pr_kernel pr) \<and>
    length (k_file (pr_kernel pr')) = length (k_file (pr_kernel pr))"
proof -
  from pr_invE[OF inv c] obtain sz index where p: "p \<noteq> 0" "mm_is_initialized (mi_mmap (cx_data c))"
    "pr_writers pr p = Some index" "mut_inv sz (cx_writer c index)"
    by metis
  note f = pr_inv_in_file[OF inv c]
  from mut_step_refines[OF p(4) op] ctr obtain m where m:
    "mut_step op (cx_writer c index) = Inr m" "mut_inv sz m"
    by (auto simp: cx_writer_def)
  let ?c = "c\<lparr>cx_data := (cx_data c)\<lparr>mi_impl := mu_impl m\<rparr>\<rparr>"
  let ?pr' = "pr\<lparr>pr_contexts := (pr_contexts pr)(p \<mapsto> ?c), pr_writers := (pr_writers pr)(p \<mapsto> mu_index m),
    pr_kernel := write_layout (impl_alt (mu_impl m)) (mut_layout m) (pr_kernel pr)\<rparr>"
  have alt: "impl_alt (mu_impl m) = sz" "impl_alt (mi_impl (cx_data c)) = sz"
    using mut_inv_impl[OF m(2)] mut_inv_impl[OF p(4)] by (simp_all add: cx_writer_def)
  have wf: "wf_layout sz (mut_layout m)" using mut_layout_inv[OF m(2)] by (simp add: layout_inv_def)
  have len: "sizeof_memory_layout sz \<le> length (k_file (pr_kernel pr))"
    using f c alt by (simp add: in_file_def cx_in_file_def Let_def)
  note written = file_write_layout[OF wf, of "pr_kernel pr"]
  have size: "length (k_file (pr_kernel ?pr')) = length (k_file (pr_kernel pr))"
    using written len alt by (simp add: max_def)
  have maps: "k_maps (pr_kernel ?pr') = k_maps (pr_kernel pr)" by (simp add: write_layout_def)
  have "cx_in_file (pr_kernel ?pr') ?c"
    using written len alt by (simp add: cx_in_file_def max_def)
  moreover have "cx_writer ?c (mu_index m) = m" by (simp add: cx_writer_def)
  ultimately have "context_ok ?pr' p ?c" using m(2) p(2) by (auto simp: context_ok_def)
  moreover have "cx_mappings ?pr' = cx_mappings pr" using c by (auto simp: cx_mappings_def)
  then have "sole_owners mm_owned (cx_mappings ?pr') (mm_held (pr_kernel ?pr'))"
    using inv mm_held_cong[OF maps] by (simp add: pr_inv_def)
  moreover have "pr_contexts ?pr' = Map.empty(p \<mapsto> ?c)" using pr_inv_others[OF inv, of p] c by simp
  ultimately have "pr_inv ?pr'" by (intro pr_inv_upd[OF p(1), where x = "Some ?c"]) simp_all
  with pr_write_in_file[OF f c p(3), of op] m(1) maps size show ?thesis by simp
qed

lemma release_inv:
  assumes inv: "pr_inv pr" and ok: "alive_or_null p pr"
  shows "\<exists>pr'. release_span_data p pr = Inr (0, pr') \<and> pr_inv pr' \<and>
    (p \<noteq> 0 \<longrightarrow> pr_contexts pr' p = None) \<and> release_span_data 0 pr' = Inr (0, pr')"
proof (cases "p = 0")
  case True
  with inv show ?thesis by (simp add: release_span_data_def)
next
  case False
  with ok obtain c where c: "pr_contexts pr p = Some c" by (auto simp: alive_or_null_def)
  let ?h = "mi_mmap (cx_data c)"
  have so: "sole_owners mm_owned (cx_mappings pr) (mm_held (pr_kernel pr))" "cx_mappings pr p = Some ?h"
    using inv c by (simp_all add: pr_inv_def cx_mappings_def)
  from mm_destroy_owned[OF sole_ownersD(1)[OF so]] obtain k' where
    k': "mm_destroy ?h (pr_kernel pr) = Inr k'" "mm_held k' = mm_held (pr_kernel pr) - mm_owned ?h"
    by blast
  let ?pr' = "pr\<lparr>pr_kernel := k', pr_contexts := (pr_contexts pr)(p := None)\<rparr>"
  have "cx_mappings ?pr' = (cx_mappings pr)(p := None)" by (auto simp: cx_mappings_def)
  then have "sole_owners mm_owned (cx_mappings ?pr') (mm_held (pr_kernel ?pr'))"
    using k'(2) sole_owners_drop[OF so] by simp
  moreover have "pr_contexts ?pr' = Map.empty(p := None)" using pr_inv_others[OF inv, of p] c by simp
  ultimately have "pr_inv ?pr'" by (intro pr_inv_upd[OF False, where x = None]) simp_all
  with k'(1) c False show ?thesis by (simp add: release_span_data_def)
qed

section \<open>Every session\<close>

lemma api_step_ok:
  assumes inv: "pr_inv pr" and ok: "call_ok call pr"
  shows "\<exists>pr'. api_step call pr = Inr pr' \<and> pr_inv pr'"
proof (cases call)
  case (Api_Initialize os addr target)
  with initialize_inv[OF inv, of os addr target] ok show ?thesis by fastforce
next
  case (Api_Recover p)
  with recover_inv[OF inv, of p] ok show ?thesis by fastforce
next
  case (Api_Release p)
  with release_inv[OF inv, of p] ok show ?thesis by fastforce
next
  case (Api_Write p op)
  show ?thesis
  proof (cases "pr_contexts pr p")
    case None
    then have "p = 0" using ok Api_Write by (simp add: alive_or_null_def)
    with inv Api_Write show ?thesis by (simp add: get_mutable_span_data_def)
  next
    case (Some c)
    then have "p \<noteq> 0" using inv by (metis option.distinct(1) pr_inv_def)
    with write_inv[OF inv Some, of op] ok Api_Write Some inv show ?thesis
      by (cases "cx_is_recovered c") (auto simp: get_mutable_span_data_def)
  qed
qed

text \<open>The calls of a session, each respecting the rules in the state it is made in.\<close>

fun session_ok :: "api_call list \<Rightarrow> process \<Rightarrow> bool" where
  "session_ok [] pr \<longleftrightarrow> True"
| "session_ok (c # cs) pr \<longleftrightarrow> call_ok c pr \<and>
     (case api_step c pr of Inl _ \<Rightarrow> True | Inr pr' \<Rightarrow> session_ok cs pr')"

lemma api_run_ok:
  "pr_inv pr \<Longrightarrow> session_ok calls pr \<Longrightarrow> \<exists>pr'. api_run calls pr = Inr pr' \<and> pr_inv pr'"
proof (induction calls arbitrary: pr)
  case (Cons c cs)
  then obtain pr1 where "api_step c pr = Inr pr1" "pr_inv pr1"
    using api_step_ok[of pr c] by auto
  with Cons show ?case by simp
qed simp

definition new_process :: "bytes \<Rightarrow> process" where
  "new_process contents =
     \<lparr>pr_kernel = \<lparr>k_file = contents, k_fds = {}, k_maps = Map.empty\<rparr>,
      pr_contexts = Map.empty, pr_writers = Map.empty\<rparr>"

lemma pr_inv_new [simp]: "pr_inv (new_process contents)"
  by (simp add: pr_inv_def new_process_def sole_owners_def cx_mappings_def mm_held_def)

text \<open>When the last context is released no mapping is left.\<close>

lemma no_context_no_mapping:
  assumes "pr_inv pr" "pr_contexts pr = Map.empty"
  shows "k_maps (pr_kernel pr) = Map.empty"
proof -
  have "mm_held (pr_kernel pr) = {}"
    using assms by (simp add: pr_inv_def sole_owners_def cx_mappings_def)
  then show ?thesis by (simp add: mm_held_empty)
qed

text \<open>
  What a context leaves in the file can be read: its layout satisfies the invariant of the store.
\<close>

lemma held_spans_cong: "k_file k' = k_file k \<Longrightarrow> held_spans os k' = held_spans os k"
  by (simp add: held_spans_def recovers_from_def held_layout_def file_layout_def file_header_def)

lemma live_readable:
  assumes inv: "pr_inv pr" and c: "pr_contexts pr p = Some c"
  shows "\<exists>ss. held_spans os (pr_kernel pr) = Inr ss"
proof -
  from pr_invE[OF inv c] obtain sz index where m: "mut_inv sz (cx_writer c index)" by metis
  let ?l = "rd_layout (impl_data (mi_impl (cx_data c)))" and ?k = "pr_kernel pr"
  have li: "layout_inv sz (mut_counter (cx_writer c index)) ?l"
    using mut_layout_inv[OF m] by (simp add: cx_writer_def)
  have "impl_alt (mi_impl (cx_data c)) = sz" using mut_inv_impl[OF m] by (simp add: cx_writer_def)
  then have f: "sizeof_memory_layout sz \<le> length (k_file ?k)" "file_layout sz ?k = ?l"
    using pr_inv_in_file[OF inv c] c by (simp_all add: in_file_def cx_in_file_def Let_def)
  then have "file_header ?k = ml_header ?l" using file_layout_header[OF f(1)] by simp
  then have "held_layout ?k = ?l" "layout_alt (h_mmap_size (file_header ?k)) = sz"
    using li f(2) by (simp_all add: held_layout_def layout_inv_def)
  with recovers_spans[OF recovers_inv[OF li], of 0] show ?thesis by (auto simp: held_spans_def)
qed

text \<open>The release of the live context: nothing stays mapped, and the next start can read the file.\<close>

lemma last_release:
  assumes inv: "pr_inv pr" and c: "pr_contexts pr p = Some c"
  shows "\<exists>pr'. release_span_data p pr = Inr (0, pr') \<and> pr_contexts pr' = Map.empty \<and>
    k_maps (pr_kernel pr') = Map.empty \<and> (\<forall>os. \<exists>ss. held_spans os (pr_kernel pr') = Inr ss)"
proof -
  from release_inv[OF inv, of p] c obtain pr' where
    r: "release_span_data p pr = Inr (0, pr')" "pr_inv pr'"
    by (auto simp: alive_or_null_def)
  then have "p \<noteq> 0" using inv c by (metis option.distinct(1) pr_inv_def)
  with r(1) c have pr': "pr_contexts pr' = (pr_contexts pr)(p := None)"
    "k_file (pr_kernel pr') = k_file (pr_kernel pr)"
    by (auto simp: release_span_data_def res_map_Inr_iff mm_destroy_def sys_munmap_def
        split: option.splits if_splits)
  have "held_spans os (pr_kernel pr') = held_spans os (pr_kernel pr)" for os
    using pr'(2) by (rule held_spans_cong)
  then have "\<exists>ss. held_spans os (pr_kernel pr') = Inr ss" for os
    using live_readable[OF inv c] by simp
  moreover have "pr_contexts pr' = Map.empty" using pr'(1) pr_inv_others[OF inv, of p None] c by simp
  ultimately show ?thesis using r no_context_no_mapping[OF r(2)] by blast
qed

section \<open>Past the end of the context\<close>

lemma dangling_impl:
  assumes inv: "pr_inv pr" and c: "pr_contexts pr p = Some c"
    and rel: "release_span_data p pr = Inr (q, pr')"
  shows "q = 0" and "pr_impl p pr' = Inl Use_After_Free" and "pr_writers pr' = pr_writers pr"
proof -
  have p: "p \<noteq> 0" using inv c by (metis option.distinct(1) pr_inv_def)
  with c rel have "q = 0 \<and> pr_contexts pr' p = None \<and> pr_writers pr' = pr_writers pr"
    by (auto simp: release_span_data_def res_map_Inr_iff)
  then show "q = 0" "pr_impl p pr' = Inl Use_After_Free" "pr_writers pr' = pr_writers pr"
    by (simp_all add: pr_impl_def)
qed

text \<open>
  The ids of the live spans are those of the index map, so they decide which calls of a writer
  that was kept follow the dangling reference.
\<close>

lemma dangling_writer:
  assumes inv: "pr_inv pr" and c: "pr_contexts pr p = Some c" and w: "pr_writers pr p = Some index"
    and rel: "release_span_data p pr = Inr (q, pr')"
  defines "ids \<equiv> raw_span_id ` set (live (cx_writer c index))"
  shows "pr_count p pr' = Inl Use_After_Free"
    and "pr_write p (Op_Add s) pr' = (if sp_span_id s \<in> ids then Inr pr' else Inl Use_After_Free)"
    and "pr_write p (Op_Remove i) pr' = (if i \<in> ids then Inl Use_After_Free else Inr pr')"
    and "pr_write p (Op_End now i t) pr' = (if i \<in> ids then Inl Use_After_Free else Inr pr')"
    and "pr_write p (Op_Set_Attribute i k v) pr' = (if i \<in> ids then Inl Use_After_Free else Inr pr')"
proof -
  from pr_invE[OF inv c] w obtain sz where "mut_inv sz (cx_writer c index)" by (metis option.inject)
  from mut_inv_index(1)[OF this] have known: "index k = None \<longleftrightarrow> k \<notin> ids" for k
    by (simp add: ids_def ids_live cx_writer_def)
  note d = dangling_impl[OF inv c rel]
  show "pr_count p pr' = Inl Use_After_Free" by (simp add: pr_count_def ref_count_def d)
  show "pr_write p (Op_Add s) pr' = (if sp_span_id s \<in> ids then Inr pr' else Inl Use_After_Free)"
    "pr_write p (Op_Remove i) pr' = (if i \<in> ids then Inl Use_After_Free else Inr pr')"
    "pr_write p (Op_End now i t) pr' = (if i \<in> ids then Inl Use_After_Free else Inr pr')"
    "pr_write p (Op_Set_Attribute i k v) pr' = (if i \<in> ids then Inl Use_After_Free else Inr pr')"
    using w by (simp_all add: pr_write_def d known pr_update_def ref_step_dangling del: ref_step.simps)
qed

section \<open>From one process to the next\<close>

text \<open>A run of writes through the interface is a run of the writer, mirrored in the file.\<close>

lemma write_run:
  assumes "pr_inv pr" and "pr_contexts pr p = Some c" and "cx_is_recovered c"
    and "pr_writers pr p = Some index" and "list_all valid_op ops"
    and "unat (impl_counter (mi_impl (cx_data c))) + length ops < 2 ^ 64"
  shows "\<exists>pr' c' index'. api_run (map (Api_Write p) ops) pr = Inr pr' \<and> pr_inv pr' \<and>
    pr_contexts pr' p = Some c' \<and> pr_writers pr' p = Some index' \<and>
    mut_run ops (cx_writer c index) = Inr (cx_writer c' index') \<and>
    length (k_file (pr_kernel pr')) = length (k_file (pr_kernel pr))"
  using assms
proof (induction ops arbitrary: pr c index)
  case Nil
  then show ?case by auto
next
  case (Cons op ops)
  note inv = Cons.prems(1) and c = Cons.prems(2) and w = Cons.prems(4)
  have op: "valid_op op" and ctr: "unat (impl_counter (mi_impl (cx_data c))) + 1 < 2 ^ 64"
    using Cons.prems(5,6) by simp_all
  from pr_invE[OF inv c] w obtain sz where p: "p \<noteq> 0" "mut_inv sz (cx_writer c index)"
    by (metis option.inject)
  from write_inv[OF inv c op ctr] obtain pr1 where pr1: "pr_write p op pr = Inr pr1" "pr_inv pr1"
    "length (k_file (pr_kernel pr1)) = length (k_file (pr_kernel pr))"
    by blast
  from mut_step_refines[OF p(2) op] ctr obtain m where m: "mut_step op (cx_writer c index) = Inr m"
    "unat (mut_counter m) \<le> unat (impl_counter (mi_impl (cx_data c))) + 1"
    by (auto simp: cx_writer_def)
  let ?c = "c\<lparr>cx_data := (cx_data c)\<lparr>mi_impl := mu_impl m\<rparr>\<rparr>"
  have c1: "pr_contexts pr1 p = Some ?c" "pr_writers pr1 p = Some (mu_index m)"
    using pr1(1) m(1) unfolding pr_write_in_file[OF pr_inv_in_file[OF inv c] c w] by auto
  have m1: "cx_writer ?c (mu_index m) = m" by (simp add: cx_writer_def)
  have step: "api_step (Api_Write p op) pr = Inr pr1"
    using c p(1) pr1(1) Cons.prems(3) by (simp add: get_mutable_span_data_def)
  have ctr1: "unat (impl_counter (mi_impl (cx_data ?c))) + length ops < 2 ^ 64"
    using m(2) Cons.prems(6) by simp
  have ops: "list_all valid_op ops" using Cons.prems(5) by simp
  have rec: "cx_is_recovered ?c" using Cons.prems(3) by simp
  from Cons.IH[OF pr1(2) c1(1) rec c1(2) ops ctr1] step m(1) m1 pr1(3)
  show ?case by auto
qed

lemma in_file_bytes:
  assumes "in_file p pr" "pr_contexts pr p = Some c" "impl_alt (mi_impl (cx_data c)) = sz"
  shows "\<exists>pad. k_file (pr_kernel pr) = enc_layout (rd_layout (impl_data (mi_impl (cx_data c)))) @ pad"
proof -
  let ?bs = "take (sizeof_memory_layout sz) (k_file (pr_kernel pr))"
  have "length ?bs = sizeof_memory_layout sz" "rd_layout (impl_data (mi_impl (cx_data c))) = dec_layout sz ?bs"
    using assms by (auto simp: in_file_def cx_in_file_def Let_def file_layout_def)
  then have "enc_layout (rd_layout (impl_data (mi_impl (cx_data c)))) = ?bs"
    using layout_bytes.enc_dec by simp
  then show ?thesis
    using append_take_drop_id[of "sizeof_memory_layout sz" "k_file (pr_kernel pr)"] by metis
qed

text \<open>
  A whole session on a new context, ended by the death of the process, and the start of the
  next one: the recovered spans are the live ones.
\<close>

text \<open>
  A session that has begun: initialized by a supported size, its recovered spans handed out.
\<close>

lemma session_begun:
  assumes inv: "pr_inv pr" and ok: "call_ok (Api_Initialize os addr (mmap_size_code sz)) pr"
    and init: "pr_initialize os addr (mmap_size_code sz) pr = Inr (addr, pr1)"
  shows "\<exists>ss c pr2. held_spans os (pr_kernel pr) = Inr ss \<and>
    get_recovered_spans addr pr1 = Inr (ss, pr2) \<and> pr_inv pr2 \<and> in_file addr pr2 \<and>
    pr_contexts pr2 addr = Some c \<and> cx_is_recovered c \<and> pr_writers pr2 addr = Some Map.empty \<and>
    cx_writer c Map.empty = fresh_writer sz \<and> impl_counter (mi_impl (cx_data c)) = 0 \<and>
    length (k_file (pr_kernel pr2)) = get_aligned_size (os_page_size os) (mmap_size_code sz)"
proof -
  have addr: "addr \<noteq> 0" using ok by simp
  from initialize_inv[OF inv ok] init addr obtain c ss where
    c: "pr_inv pr1" "pr_contexts pr1 addr = Some c" "held_spans os (pr_kernel pr) = Inr ss"
      "fresh_context (mmap_size_code sz) ss c"
    by auto
  let ?c = "c\<lparr>cx_is_recovered := True, cx_recovered_spans := []\<rparr>"
  let ?pr = "pr1\<lparr>pr_contexts := (pr_contexts pr1)(addr \<mapsto> ?c)\<rparr>"
  note f = initialize_in_file[OF inv ok init]
  have rec: "get_recovered_spans addr pr1 = Inr (ss, ?pr)"
    using addr c(2,4) by (simp add: get_recovered_spans_def fresh_context_def)
  moreover have "pr_inv ?pr"
    using recover_inv[OF c(1), of addr] rec c(2) by (auto simp: alive_or_null_def)
  moreover have "pr_writers ?pr addr = Some Map.empty"
    using init addr by (auto simp: pr_initialize_def res_map_Inr_iff split: option.splits)
  moreover have "cx_writer ?c Map.empty = fresh_writer sz"
    using fresh_context_writer[OF c(4)] by (simp add: cx_writer_def)
  moreover have "impl_counter (mi_impl (cx_data ?c)) = 0"
    using c(4) by (simp add: fresh_context_def impl_counter_def)
  moreover have "in_file addr ?pr" using f(1) c(2) by (simp add: in_file_def cx_in_file_def)
  moreover have "length (k_file (pr_kernel ?pr)) = get_aligned_size (os_page_size os) (mmap_size_code sz)"
    using f(2) by simp
  ultimately show ?thesis using c(3) by (intro exI[of _ ss] exI[of _ ?c] exI[of _ ?pr]) simp
qed

text \<open>The state of the process after its writes.\<close>

lemma session_written:
  assumes "call_ok (Api_Initialize os addr (mmap_size_code sz)) (new_process contents)"
    and "pr_initialize os addr (mmap_size_code sz) (new_process contents) = Inr (addr, pr1)"
    and "list_all valid_op ops" "length ops < 2 ^ 64"
    and "api_run (Api_Recover addr # map (Api_Write addr) ops) pr1 = Inr pr2"
  shows "\<exists>c index. pr_inv pr2 \<and> pr_contexts pr2 addr = Some c \<and> pr_writers pr2 addr = Some index \<and>
    mut_inv sz (cx_writer c index) \<and> live (cx_writer c index) = spec_run sz ops [] \<and>
    mut_run ops (fresh_writer sz) = Inr (cx_writer c index) \<and>
    length (k_file (pr_kernel pr2)) = get_aligned_size (os_page_size os) (mmap_size_code sz)"
proof -
  from session_begun[OF pr_inv_new assms(1,2)] obtain ss1 c1 pr where
    pr: "get_recovered_spans addr pr1 = Inr (ss1, pr)" "pr_inv pr"
      "pr_contexts pr addr = Some c1" "cx_is_recovered c1" "pr_writers pr addr = Some Map.empty"
      "cx_writer c1 Map.empty = fresh_writer sz" "impl_counter (mi_impl (cx_data c1)) = 0"
      "length (k_file (pr_kernel pr)) = get_aligned_size (os_page_size os) (mmap_size_code sz)"
    by blast
  have ctr: "unat (impl_counter (mi_impl (cx_data c1))) + length ops < 2 ^ 64"
    using pr(7) assms(4) by simp
  have "api_run (map (Api_Write addr) ops) pr = Inr pr2" using assms(5) pr(1) by simp
  with write_run[OF pr(2-5) assms(3) ctr] obtain c index where
    c: "pr_inv pr2" "pr_contexts pr2 addr = Some c" "pr_writers pr2 addr = Some index"
      "mut_run ops (fresh_writer sz) = Inr (cx_writer c index)"
      "length (k_file (pr_kernel pr2)) = get_aligned_size (os_page_size os) (mmap_size_code sz)"
    using pr(6,8) by auto
  with mut_run_refines[of sz "fresh_writer sz" ops] assms(3,4) show ?thesis by auto
qed

lemma session_restart:
  assumes "call_ok (Api_Initialize os addr (mmap_size_code sz)) (new_process contents)"
    and "pr_initialize os addr (mmap_size_code sz) (new_process contents) = Inr (addr, pr1)"
    and "list_all valid_op ops" "length ops < 2 ^ 64"
    and "api_run (Api_Recover addr # map (Api_Write addr) ops) pr1 = Inr pr2"
    and "k_file k = k_file (pr_kernel pr2)" "os_page_size os' = os_page_size os"
    and "os_sound os' k" "calls_succeed os' target k"
  shows "\<exists>c k' rs. initialize_span_data os' target k = Inr (Some c, k') \<and> \<not> cx_is_recovered c \<and>
    held_spans os' k = Inr (cx_recovered_spans c) \<and>
    list_all2 (\<lambda>r s. span_of_raw r = Inr s) rs (cx_recovered_spans c) \<and>
    mset rs = mset (spec_run sz ops [])"
proof -
  from session_written[OF assms(1-5)] obtain c index where
    c: "pr_inv pr2" "pr_contexts pr2 addr = Some c" and
    m: "mut_inv sz (cx_writer c index)" "live (cx_writer c index) = spec_run sz ops []" and
    run: "mut_run ops (fresh_writer sz) = Inr (cx_writer c index)" and
    len: "length (k_file (pr_kernel pr2)) = get_aligned_size (os_page_size os) (mmap_size_code sz)"
    by blast
  let ?m = "cx_writer c index" and ?l = "rd_layout (impl_data (mi_impl (cx_data c)))"
  have li: "layout_inv sz (mut_counter ?m) ?l" "mut_layout ?m = ?l"
    using mut_layout_inv[OF m(1)] by (simp_all add: cx_writer_def)
  have alt: "impl_alt (mi_impl (cx_data c)) = sz"
    using mut_inv_impl[OF m(1)] by (simp add: cx_writer_def)
  from in_file_bytes[OF pr_inv_in_file[OF c] c(2) alt] assms(6) obtain pad where img: "k_file k = enc_layout ?l @ pad"
    by auto
  have "same_header (fresh_layout sz) ?l"
    using run_header[of sz "fresh_writer sz" ops ?m] assms(3,4) run li(2) by simp
  then have hd: "h_signature (ml_header ?l) = header_signature" "h_version (ml_header ?l) = header_version"
    "h_mmap_size (ml_header ?l) = mmap_size_code sz"
    by (simp_all add: same_header_def fresh_layout_def)
  have page: "get_page_size (os_page_size os') \<le> length (k_file k)"
    using aligned_bounds(4)[of "os_page_size os" "mmap_size_code sz"] len assms(6,7) by simp
  from held_spans_of_layout[OF recovers_inv[OF li(1)] img hd page] obtain ss where
    ss: "held_spans os' k = Inr ss" "list_all2 (\<lambda>r s. span_of_raw r = Inr s) (recoverable ?l) ss"
    by blast
  have "mset (recoverable ?l) = mset (live ?m)"
    using recoverable_live[OF li(1)] recoverable_mut(1)[OF m(1)] li(2) by (simp add: live_def)
  with initialize_spec[OF assms(8) ss(1), of target] assms(9) ss m(2)
  show ?thesis by (fastforce simp: initialized_def Let_def fresh_context_def)
qed

section \<open>Two contexts over one file\<close>

text \<open>
  A second start over the file of a live context, as \<^verbatim>\<open>InitializeTwiceRecoveryDeathTest\<close> of
  \<^verbatim>\<open>tests/initialize_tests.cpp\<close> makes it: the constructor of the second context clears the array
  both share.
\<close>

lemma cleared_calls:
  assumes alt: "impl_alt x = sz" and cleared: "rd_layout (impl_data x) = fresh_layout sz"
    and index: "index i = Some raw_index" "unat raw_index < max_spans (mmap_config sz)"
  shows "impl_count x = 0"
    and "ref_step (Op_Remove i) (Inr x) index = Inl (Assert_Failed ''layout_->marked_spans[raw_index].mark > 0'')"
    and "ref_step (Op_End now i t) (Inr x) index = Inl (Assert_Failed ''raw_index < count()'')"
proof -
  have mark: "slot_mark (fresh_layout sz) (unat raw_index) = 0"
    using index(2) by (simp add: fresh_layout_def zero_marked_span_def)
  have count: "active_count (fresh_layout sz) = 0" by (simp add: fresh_layout_def)
  show "impl_count x = 0" by (simp add: impl_count_def visit_eq rsd_count_def cleared count)
  show "ref_step (Op_Remove i) (Inr x) index = Inl (Assert_Failed ''layout_->marked_spans[raw_index].mark > 0'')"
    using index mark by (simp add: ref_remove_def impl_remove_def visit_eq alt rsd_remove_def Let_def
        cleared rsd_max_count_def)
  show "ref_step (Op_End now i t) (Inr x) index = Inl (Assert_Failed ''raw_index < count()'')"
    using index count by (simp add: ref_end_def Let_def impl_set_end_time_def visit_eq alt
        rsd_set_end_time_def rsd_count_def cleared)
qed

lemma second_context:
  assumes first: "call_ok (Api_Initialize os addr (mmap_size_code sz)) (new_process contents)"
      "pr_initialize os addr (mmap_size_code sz) (new_process contents) = Inr (addr, pr1)"
    and ops: "list_all valid_op ops" "length ops < 2 ^ 64"
    and run: "api_run (Api_Recover addr # map (Api_Write addr) ops) pr1 = Inr pr2"
    and os': "os_page_size os' = os_page_size os" "os_sound os' (pr_kernel pr2)"
      "calls_succeed os' (mmap_size_code sz) (pr_kernel pr2)"
    and addr2: "addr2 \<noteq> addr"
    and i: "i \<in> raw_span_id ` set (spec_run sz ops [])"
  shows "\<exists>pr3 c2 rs. pr_initialize os' addr2 (mmap_size_code sz) pr2 = Inr (addr2, pr3) \<and>
    pr_contexts pr3 addr2 = Some c2 \<and>
    list_all2 (\<lambda>r s. span_of_raw r = Inr s) rs (cx_recovered_spans c2) \<and>
    mset rs = mset (spec_run sz ops []) \<and>
    pr_count addr pr3 = Inr 0 \<and>
    pr_write addr (Op_Remove i) pr3 = Inl (Assert_Failed ''layout_->marked_spans[raw_index].mark > 0'') \<and>
    pr_write addr (Op_End now i t) pr3 = Inl (Assert_Failed ''raw_index < count()'')"
proof -
  from session_written[OF first ops run] obtain c index where
    c: "pr_contexts pr2 addr = Some c" "pr_writers pr2 addr = Some index"
      "mut_inv sz (cx_writer c index)" "live (cx_writer c index) = spec_run sz ops []"
    by blast
  from session_restart[OF first ops run refl os'] obtain c2 k' rs where
    c2: "initialize_span_data os' (mmap_size_code sz) (pr_kernel pr2) = Inr (Some c2, k')"
      "held_spans os' (pr_kernel pr2) = Inr (cx_recovered_spans c2)"
      "list_all2 (\<lambda>r s. span_of_raw r = Inr s) rs (cx_recovered_spans c2)"
      "mset rs = mset (spec_run sz ops [])"
    by blast
  from initialize_spec[OF os'(2) c2(2), of "mmap_size_code sz"] c2(1) have
    init: "initialized os' (mmap_size_code sz) (cx_recovered_spans c2) (pr_kernel pr2) (Some c2) k'"
    by auto
  let ?pr3 = "pr2\<lparr>pr_kernel := k', pr_contexts := (pr_contexts pr2)(addr2 \<mapsto> c2),
    pr_writers := (pr_writers pr2)(addr2 \<mapsto> Map.empty)\<rparr>"
  let ?x = "mi_impl (cx_data c)"
  let ?y = "with_data ?x ((impl_data ?x)\<lparr>rd_layout := fresh_layout sz\<rparr>)"
  have alt: "impl_alt ?x = sz" using mut_inv_impl[OF c(3)] by (simp add: cx_writer_def)
  have cleared: "file_layout sz k' = fresh_layout sz" "sizeof_memory_layout sz \<le> length (k_file k')"
    using init aligned_bounds(1)[of "mmap_size_code sz" "os_page_size os'"]
    by (auto simp: initialized_def Let_def cleared_layout_code get_memory_layout_size_alt)
  have impl: "pr_impl addr ?pr3 = Inr ?y"
    using c(1) addr2 alt cleared by (simp add: pr_impl_def cx_impl_def Let_def)
  have "i \<in> slot_id ` set (mut_slots (cx_writer c index))"
    using i unfolding c(4)[symmetric] ids_live .
  then have "mu_index (cx_writer c index) i \<noteq> None" using mut_inv_index(1)[OF c(3)] by blast
  then obtain raw_index where raw: "index i = Some raw_index" by (auto simp: cx_writer_def)
  then have slot: "unat raw_index < max_spans (mmap_config sz)"
    using mut_inv_index(2)[OF c(3), of i raw_index] mut_inv_limit[OF c(3)] by (simp add: cx_writer_def)
  have "impl_alt ?y = sz" "rd_layout (impl_data ?y) = fresh_layout sz" using alt by simp_all
  note calls = cleared_calls[where index = index and i = i, OF this raw slot]
  have "pr_initialize os' addr2 (mmap_size_code sz) pr2 = Inr (addr2, ?pr3)"
    using c2(1) by (simp add: pr_initialize_def)
  moreover have "pr_count addr ?pr3 = Inr 0" by (simp add: pr_count_def ref_count_def impl calls(1))
  moreover have
    "pr_write addr (Op_Remove i) ?pr3 = Inl (Assert_Failed ''layout_->marked_spans[raw_index].mark > 0'')"
    "pr_write addr (Op_End now i t) ?pr3 = Inl (Assert_Failed ''raw_index < count()'')"
    using c(2) addr2 calls(2,3) by (simp_all add: pr_write_def impl)
  ultimately show ?thesis using c2(3,4) by (intro exI[of _ ?pr3] exI[of _ c2] exI[of _ rs]) simp
qed

end
