(* ===== verification/Entry_Model.thy ===== *)
theory Entry_Model
  imports Tel_Prelude
begin

text \<open>
  \<^verbatim>\<open>detail/entry.h\<close>: the tagged entries of the future file format. A tag is any 32-bit word;
  reading an entry replaces an unknown tag by \<^verbatim>\<open>Empty\<close>, in the file too.
\<close>

datatype entry_tag = Tag_Empty | Tag_Span | Tag_Log

fun tag_code :: "entry_tag \<Rightarrow> u32" where
  "tag_code Tag_Empty = 0"
| "tag_code Tag_Span = 1"
| "tag_code Tag_Log = 2"

record entry =
  en_tag :: u32
  en_size :: u32

text \<open>The static assertion: an entry has eight bytes.\<close>

definition sizeof_entry :: nat where "sizeof_entry = 4 + 4"

definition entry_assert :: bool where "entry_assert \<longleftrightarrow> sizeof_entry = 8"

lemma entry_assert_holds: entry_assert
  by (simp add: entry_assert_def sizeof_entry_def)

definition is_tag_valid :: "u32 \<Rightarrow> bool" where
  "is_tag_valid tag \<longleftrightarrow> tag \<le> tag_code Tag_Log"

text \<open>
  \<open>None\<close> is the null pointer. The result is the entry the caller sees and the bytes of the
  mapping are the same entry: the view and the file are one object.
\<close>

definition read_entry :: "entry option \<Rightarrow> entry option" where
  "read_entry data =
     (case data of
        None \<Rightarrow> None
      | Some entry \<Rightarrow>
          Some (if \<not> is_tag_valid (en_tag entry) then entry\<lparr>en_tag := tag_code Tag_Empty\<rparr> else entry))"

lemma is_tag_valid_iff: "is_tag_valid w \<longleftrightarrow> (\<exists>t. w = tag_code t)"
proof
  assume "is_tag_valid w"
  then have "unat w \<le> 2" by (simp add: is_tag_valid_def word_le_nat_alt)
  then consider "unat w = 0" | "unat w = 1" | "unat w = 2" by linarith
  then show "\<exists>t. w = tag_code t"
  proof cases
    case 1
    then have "w = tag_code Tag_Empty" by (simp add: word_unat_eq_iff)
    then show ?thesis ..
  next
    case 2
    then have "w = tag_code Tag_Span" by (simp add: word_unat_eq_iff)
    then show ?thesis ..
  next
    case 3
    then have "w = tag_code Tag_Log" by (simp add: word_unat_eq_iff)
    then show ?thesis ..
  qed
next
  assume "\<exists>t. w = tag_code t"
  then obtain t where "w = tag_code t" ..
  then show "is_tag_valid w" by (cases t) (simp_all add: is_tag_valid_def)
qed

lemma read_entry_known:
  "read_entry (Some e) = Some e' \<Longrightarrow>
     (\<exists>t. en_tag e' = tag_code t) \<and> en_size e' = en_size e \<and>
     (if \<exists>t. en_tag e = tag_code t then e' = e else en_tag e' = tag_code Tag_Empty)"
  by (auto simp: read_entry_def is_tag_valid_iff simp del: tag_code.simps split: if_splits)

lemma read_entry_idem: "read_entry (read_entry data) = read_entry data"
  by (auto simp: read_entry_def is_tag_valid_def split: option.split)

end
