(* ===== verification/Crash_Words.thy ===== *)
theory Crash_Words
  imports Restart
begin

text \<open>
  Crashes on a processor of 32 bits. The structures of the mapping are packed, and on such a
  processor (the build for \<^verbatim>\<open>armeabi-v7a\<close>) a store of a \<^verbatim>\<open>std::uint64_t\<close> is two stores of
  four bytes, in an order the compiler chooses. A process can die between the two, so a
  number can be left half old and half new. A mark is only ever stored over 0 or as 0, so a
  torn one still reads as set or not set, which is all that recovery asks; a count below
  \<open>2 ^ 32\<close> fits one half. An end time can be seen torn.
\<close>

section \<open>Half-written numbers\<close>

definition join_halves :: "u64 \<Rightarrow> u64 \<Rightarrow> u64" where
  "join_halves h l = push_bit 32 (drop_bit 32 h) + take_bit 32 l"

definition half_writes :: "u64 \<Rightarrow> u64 \<Rightarrow> u64 list" where
  "half_writes old new = [join_halves h l. h \<leftarrow> [old, new], l \<leftarrow> [old, new]]"

lemma join_halves_same [simp]: "join_halves w w = w"
  by (simp add: join_halves_def bits_ident)

lemma half_writes_whole: "old \<in> set (half_writes old new)" "new \<in> set (half_writes old new)"
  by (simp_all add: half_writes_def)

lemma join_halves_small: "unat h < 2 ^ 32 \<Longrightarrow> unat l < 2 ^ 32 \<Longrightarrow> join_halves h l = l"
proof -
  assume h: "unat h < 2 ^ 32" and l: "unat l < 2 ^ 32"
  have "unat (drop_bit 32 h) = 0"
    unfolding unat_drop_bit_eq using h by (simp add: drop_bit_eq_div)
  then have "drop_bit 32 h = 0" by (simp add: unat_eq_zero)
  moreover have "unat (take_bit 32 l) = unat l"
    using l by (simp add: unsigned_take_bit_eq take_bit_nat_eq_self)
  then have "take_bit 32 l = l" by (simp add: word_unat_eq_iff)
  ultimately show ?thesis by (simp add: join_halves_def)
qed

lemma half_writes_small:
  "unat old < 2 ^ 32 \<Longrightarrow> unat new < 2 ^ 32 \<Longrightarrow> mid \<in> set (half_writes old new) \<Longrightarrow> mid = old \<or> mid = new"
  by (auto simp: half_writes_def join_halves_small)

section \<open>Crashes between two halves\<close>

text \<open>The number a scalar store replaces, the number it stores, and the store as a function of it.\<close>

fun scalar_of :: "store \<Rightarrow> memory_layout \<Rightarrow> (u64 \<times> u64 \<times> (u64 \<Rightarrow> store)) option" where
  "scalar_of (Store_Signature w) l = Some (h_signature (ml_header l), w, Store_Signature)"
| "scalar_of (Store_Version w) l = Some (h_version (ml_header l), w, Store_Version)"
| "scalar_of (Store_Mmap_Size w) l = Some (h_mmap_size (ml_header l), w, Store_Mmap_Size)"
| "scalar_of (Store_Count w) l = Some (active_count l, w, Store_Count)"
| "scalar_of (Store_Mark i w) l = Some (slot_mark l i, w, Store_Mark i)"
| "scalar_of (Store_End_Time i w) l = Some (raw_end_time (slot_span l i), w, Store_End_Time i)"
| "scalar_of (Store_Attr_Count i w) l = Some (raw_attr_count (slot_span l i), w, Store_Attr_Count i)"
| "scalar_of _ l = None"

inductive torn32 :: "mmap_size \<Rightarrow> store \<Rightarrow> memory_layout \<Rightarrow> memory_layout \<Rightarrow> bool" where
  torn32_block: "torn sz s l l' \<Longrightarrow> torn32 sz s l l'"
| torn32_scalar: "scalar_of s l = Some (old, new, st) \<Longrightarrow> mid \<in> set (half_writes old new) \<Longrightarrow>
    torn32 sz s l (exec_store sz (st mid) l)"

inductive crash_image32 :: "mmap_size \<Rightarrow> store list \<Rightarrow> memory_layout \<Rightarrow> memory_layout \<Rightarrow> bool" where
  between32: "crash_image32 sz ss l l"
| within32: "torn32 sz s l l' \<Longrightarrow> crash_image32 sz (s # ss) l l'"
| after32: "crash_image32 sz ss (exec_store sz s l) l' \<Longrightarrow> crash_image32 sz (s # ss) l l'"

inductive_cases torn32E: "torn32 sz s l l'"

lemma crash_image_32: "crash_image sz ss l l' \<Longrightarrow> crash_image32 sz ss l l'"
  by (induction rule: crash_image.induct) (auto intro: crash_image32.intros torn32_block)

section \<open>Layouts that differ in the value of a mark\<close>

text \<open>Recovery reads of a mark only whether it is 0.\<close>

definition marks_agree :: "memory_layout \<Rightarrow> memory_layout \<Rightarrow> bool" where
  "marks_agree l l' \<longleftrightarrow> ml_header l' = ml_header l \<and>
     list_all2 (\<lambda>m m'. ms_span m' = ms_span m \<and> (ms_mark m' = 0 \<longleftrightarrow> ms_mark m = 0))
       (ml_marked_spans l) (ml_marked_spans l')"

lemma marks_agree_refl [simp]: "marks_agree l l"
  by (simp add: marks_agree_def list_all2_refl)

lemma marks_agree_mark:
  "(w = 0 \<longleftrightarrow> v = 0) \<Longrightarrow> marks_agree (exec_store sz (Store_Mark i v) l) (exec_store sz (Store_Mark i w) l)"
  by (simp add: marks_agree_def layout_simps list_all2_update_cong list_all2_refl)

lemma exec_mark_id: "exec_store sz (Store_Mark i (slot_mark l i)) l = l"
  by (simp add: upd_slot_def)

lemma marks_agree_recoverable:
  assumes "marks_agree l l'"
  shows "recoverable l' = recoverable l" and "same_header l l'"
    and "recovers sz l' \<longleftrightarrow> recovers sz l"
proof -
  let ?P = "\<lambda>m m'. ms_span m' = ms_span m \<and> (ms_mark m' = 0 \<longleftrightarrow> ms_mark m = 0)"
  have h: "ml_header l' = ml_header l"
    and a: "list_all2 ?P (ml_marked_spans l) (ml_marked_spans l')"
    using assms by (simp_all add: marks_agree_def)
  have f: "map ms_span (filter (\<lambda>m. ms_mark m \<noteq> 0) ys) = map ms_span (filter (\<lambda>m. ms_mark m \<noteq> 0) xs)"
    and w: "list_all (\<lambda>m. wf_raw_span sz (ms_span m)) ys \<longleftrightarrow> list_all (\<lambda>m. wf_raw_span sz (ms_span m)) xs"
    if "list_all2 ?P xs ys" for xs ys
    using that by (induction rule: list_all2_induct) auto
  show r: "recoverable l' = recoverable l"
    using f[OF list_all2_takeI[OF a]] h by (simp add: recoverable_def active_def)
  show "same_header l l'" using h by (simp add: same_header_def)
  show "recovers sz l' \<longleftrightarrow> recovers sz l"
    using r h w[OF a] list_all2_lengthD[OF a] by (simp add: recovers_def wf_layout_def)
qed

section \<open>Stores whose halves do not matter\<close>

fun whole_store :: "store \<Rightarrow> memory_layout \<Rightarrow> bool" where
  "whole_store (Store_Mark i w) l \<longleftrightarrow> slot_mark l i = 0 \<or> w = 0"
| "whole_store (Store_Count w) l \<longleftrightarrow> unat (active_count l) < 2 ^ 32 \<and> unat w < 2 ^ 32"
| "whole_store (Store_Attr_Count i w) l \<longleftrightarrow>
     unat (raw_attr_count (slot_span l i)) < 2 ^ 32 \<and> unat w < 2 ^ 32"
| "whole_store s l \<longleftrightarrow> scalar_of s l = None"

fun whole_stores :: "mmap_size \<Rightarrow> store list \<Rightarrow> memory_layout \<Rightarrow> bool" where
  "whole_stores sz [] l \<longleftrightarrow> True"
| "whole_stores sz (s # ss) l \<longleftrightarrow> whole_store s l \<and> whole_stores sz ss (exec_store sz s l)"

lemma whole_stores_append:
  "whole_stores sz (ss @ ts) l \<longleftrightarrow> whole_stores sz ss l \<and> whole_stores sz ts (exec_stores sz ss l)"
  by (induction ss arbitrary: l) auto

lemma torn32_whole:
  assumes t: "torn32 sz s l l'" and w: "whole_store s l"
  shows "\<exists>l2. crash_image sz [s] l l2 \<and> marks_agree l2 l'"
  using t
proof (cases rule: torn32.cases)
  case torn32_block
  then have "crash_image sz [s] l l'" by (rule crash_within)
  then show ?thesis using marks_agree_refl by blast
next
  case (torn32_scalar old new st mid)
  note 2 = torn32_scalar
  have both: "crash_image sz [s] l l" "crash_image sz [s] l (exec_store sz s l)"
    by (simp_all add: crash_image_Cons crash_image_Nil)
  show ?thesis
  proof (cases s)
    case (Store_Mark i w')
    with 2 have l': "l' = exec_store sz (Store_Mark i mid) l" by simp
    have "(mid = 0 \<longleftrightarrow> slot_mark l i = 0) \<or> (mid = 0 \<longleftrightarrow> w' = 0)"
      using half_writes_small[of "slot_mark l i" w' mid] 2 w Store_Mark by auto
    then have "marks_agree l l' \<or> marks_agree (exec_store sz s l) l'"
      using marks_agree_mark[of mid "slot_mark l i" sz i l] marks_agree_mark[of mid w' sz i l] Store_Mark
      unfolding l' exec_mark_id by blast
    with both show ?thesis by blast
  next
    case (Store_Count w')
    with 2 w half_writes_small[of "active_count l" w' mid] have "mid = active_count l \<or> mid = w'"
      by simp
    then have "l' = l \<or> l' = exec_store sz s l" using 2 Store_Count by (auto simp: upd_header_def)
    with both show ?thesis using marks_agree_refl by blast
  next
    case (Store_Attr_Count i w')
    have "unat (raw_attr_count (slot_span l i)) < 2 ^ 32" "unat w' < 2 ^ 32"
      using w unfolding Store_Attr_Count by simp_all
    moreover have "mid \<in> set (half_writes (raw_attr_count (slot_span l i)) w')"
      using 2 unfolding Store_Attr_Count by auto
    ultimately have "mid = raw_attr_count (slot_span l i) \<or> mid = w'"
      by (rule half_writes_small)
    then have "l' = l \<or> l' = exec_store sz s l"
      using 2 Store_Attr_Count by (auto simp: upd_span_def upd_slot_def)
    with both show ?thesis using marks_agree_refl by blast
  qed (use torn32_scalar(2) w in auto)
qed

lemma crash_image32_whole:
  "crash_image32 sz ss l l' \<Longrightarrow> whole_stores sz ss l \<Longrightarrow> \<exists>l2. crash_image sz ss l l2 \<and> marks_agree l2 l'"
proof (induction rule: crash_image32.induct)
  case (between32 sz ss l)
  then show ?case by (intro exI[of _ l]) (simp add: crash_between)
next
  case (within32 sz s l l' ss)
  then show ?case
    using torn32_whole[of sz s l l'] crash_image_append[of sz "[s]" ss l] by auto
next
  case (after32 sz ss s l l')
  then show ?case by (auto intro: crash_after)
qed

section \<open>The stores of a call\<close>

lemma whole_add_stores:
  assumes inv: "layout_inv sz c l" and room: "unat (active_count l) < max_spans (mmap_config sz)"
  shows "whole_stores sz (add_stores sz s mark l) l"
proof -
  let ?i = "unat (active_count l)"
  have len: "?i < length (ml_marked_spans l)"
    using inv room by (simp add: layout_inv_def wf_layout_def)
  have "ml_marked_spans l ! ?i \<in> set (drop ?i (ml_marked_spans l))"
    using len by (metis Cons_nth_drop_Suc list.set_intros(1))
  then have "slot_mark l ?i = 0" using inv by (simp add: layout_inv_def list_all_iff)
  moreover have "?i + 1 < 2 ^ 32" using room max_spans_bounds(2)[of sz] by simp
  then have "?i < 2 ^ 32" "unat (active_count l + 1) < 2 ^ 32"
    by (simp_all add: unat_plus1_64)
  ultimately show ?thesis
    using len by (simp add: add_stores_def Let_def layout_simps)
qed

lemma whole_remove_stores:
  assumes inv: "layout_inv sz c l" and i: "i < unat (active_count l)"
  shows "whole_stores sz (remove_stores i l) l"
proof -
  have "unat (active_count l) \<le> length (ml_marked_spans l)"
    using inv by (simp add: layout_inv_def wf_layout_def)
  then have len: "i < length (ml_marked_spans l)" using i by simp
  have n: "unat (active_count l) < 2 ^ 32"
    using inv max_spans_bounds(2)[of sz] by (simp add: layout_inv_def)
  have "active_count l \<noteq> 0" using i by auto
  then have "unat (active_count l - 1) < 2 ^ 32"
    using n by (simp add: unat_minus1_64)
  with n len show ?thesis
    by (simp add: remove_stores_def Let_def layout_simps)
qed

lemma whole_set_attribute_stores:
  assumes clean: "clean_raw_span sz (slot_span l i)" and i: "i < length (ml_marked_spans l)"
    and ss: "set_attribute_stores sz i key val (slot_span l i) = Inr (j, ss)"
  shows "whole_stores sz ss l"
proof -
  let ?r = "slot_span l i"
  obtain found where found: "find_attribute key (unat (raw_attr_count ?r)) (raw_attributes ?r) 0 = Inr found"
    using ss by (auto simp: set_attribute_stores_def res_bind_Inr_iff)
  have n: "unat (raw_attr_count ?r) < 2 ^ 32" "unat (raw_attr_count ?r + 1) < 2 ^ 32"
    if "unat (raw_attr_count ?r) < max_attributes (mmap_config sz)"
    using that max_attributes_bounds[of sz] by (simp_all add: unat_plus1_64)
  show ?thesis
    using ss found n i
    by (cases found) (auto simp: set_attribute_stores_def update_attribute_stores_def
        append_attribute_stores_def Let_def layout_simps upd_attr_def split: if_splits)
qed

lemma whole_removal_stores:
  assumes inv: "mut_inv sz m"
  shows "whole_stores sz (removal_stores span_id m) (mut_layout m)"
  using whole_remove_stores[OF mut_layout_inv[OF inv]] indexed_span(1)[OF inv]
  by (auto simp: removal_stores_def split: option.split)

lemma whole_op_stores:
  assumes inv: "mut_inv sz m" and ctr: "unat (mut_counter m) + 1 < 2 ^ 64"
    and op: "\<not> (\<exists>now span_id t. op = Op_End now span_id t)"
  shows "whole_stores sz (op_stores sz op m) (mut_layout m)"
proof (cases op)
  case (Op_Add s)
  note room = room_after_eviction[OF inv ctr]
  have "whole_stores sz (add_stores sz s (mut_counter m + 1) (exec_stores sz (eviction_stores m) (mut_layout m)))
      (exec_stores sz (eviction_stores m) (mut_layout m))"
    by (rule whole_add_stores[OF room(2,1)])
  moreover have "whole_stores sz (eviction_stores m) (mut_layout m)"
    using whole_removal_stores[OF inv] by (simp add: eviction_stores_def split: sum.split)
  ultimately show ?thesis
    using Op_Add by (simp add: whole_stores_append)
next
  case (Op_Remove span_id)
  then show ?thesis using whole_removal_stores[OF inv] by simp
next
  case (Op_Set_Attribute span_id key val)
  show ?thesis
  proof (cases "mu_index m span_id")
    case (Some i)
    note ix = indexed_span[OF inv Some]
    have "unat i < length (ml_marked_spans (mut_layout m))"
      using ix(1) mut_layout_inv[OF inv] by (simp add: layout_inv_def wf_layout_def)
    moreover have "clean_raw_span sz (slot_span (mut_layout m) (unat i))" using ix(2,4) by simp
    ultimately show ?thesis
      using Op_Set_Attribute Some whole_set_attribute_stores
      by (auto split: sum.split)
  qed (use Op_Set_Attribute in simp)
qed (use op in simp)

section \<open>Crashes of a call, by calls of a 64-bit crash\<close>

text \<open>
  A torn end time is what \<^verbatim>\<open>end_span\<close> would have left with that time: a crash in a call, on
  32 bits, is a crash in one of \<open>torn_ops\<close>, up to the values of marks.
\<close>

fun torn_ops :: "mutable_op \<Rightarrow> live_spans \<Rightarrow> mutable_op list" where
  "torn_ops (Op_End now span_id t) before =
     Op_End now span_id t #
     [Op_End mid span_id 0. r \<leftarrow> before, raw_span_id r = span_id,
        mid \<leftarrow> half_writes (raw_end_time r) (if t = 0 then now else t)]"
| "torn_ops op before = [op]"

lemma crash_image32_end:
  assumes "crash_image32 sz [Store_End_Time i t] l l'"
  shows "\<exists>mid \<in> set (half_writes (raw_end_time (slot_span l i)) t). l' = exec_store sz (Store_End_Time i mid) l"
  using assms
proof (cases rule: crash_image32.cases)
  case between32
  then have "l' = exec_store sz (Store_End_Time i (raw_end_time (slot_span l i))) l"
    by (simp add: upd_span_def upd_slot_def)
  then show ?thesis using half_writes_whole(1) by blast
next
  case within32
  then show ?thesis by (auto elim!: torn32E simp: torn_scalar_simps)
next
  case after32
  then have "l' = exec_store sz (Store_End_Time i t) l"
    by (auto elim: crash_image32.cases)
  then show ?thesis using half_writes_whole(2) by blast
qed

lemma crash_call32:
  assumes inv: "mut_inv sz m" and ctr: "unat (mut_counter m) + 1 < 2 ^ 64"
    and crash: "crash_image32 sz (op_stores sz op m) (mut_layout m) l'"
  shows "\<exists>op' \<in> set (torn_ops op (live m)). \<exists>l2.
    crash_image sz (op_stores sz op' m) (mut_layout m) l2 \<and> marks_agree l2 l'"
proof (cases "\<exists>now span_id t. op = Op_End now span_id t")
  case False
  then have "op \<in> set (torn_ops op (live m))" by (cases op) auto
  with crash_image32_whole[OF crash whole_op_stores[OF inv ctr False]] show ?thesis by blast
next
  case True
  then obtain now span_id t where op: "op = Op_End now span_id t" by blast
  show ?thesis
  proof (cases "mu_index m span_id")
    case None
    then have "crash_image32 sz [] (mut_layout m) l'" using crash op by simp
    then have "l' = mut_layout m" by (auto elim: crash_image32.cases)
    then have "crash_image sz (op_stores sz op m) (mut_layout m) l'" by (simp add: crash_between)
    then show ?thesis
      using op marks_agree_refl by (intro bexI[of _ op] exI[of _ l']) simp_all
  next
    case (Some i)
    note ix = indexed_span[OF inv Some]
    let ?r = "slot_span (mut_layout m) (unat i)"
    from crash op Some obtain mid where mid:
      "mid \<in> set (half_writes (raw_end_time ?r) (if t = 0 then now else t))"
      "l' = exec_store sz (Store_End_Time (unat i) mid) (mut_layout m)"
      using crash_image32_end by force
    have "?r \<in> set (recoverable (mut_layout m))"
      using ix(1,4) recoverable_mut(1,4)[OF inv] by (metis length_map nth_mem)
    then have "?r \<in> set (live m)" "raw_span_id ?r = span_id"
      using recoverable_mut(2)[OF inv] ix(3,4) by simp_all
    then have "Op_End mid span_id 0 \<in> set (torn_ops op (live m))"
      using mid(1) op by force
    moreover have "crash_image sz (op_stores sz (Op_End mid span_id 0) m) (mut_layout m) l'"
      using Some mid(2) crash_image_done[of sz "[Store_End_Time (unat i) mid]" "mut_layout m"] by simp
    ultimately show ?thesis using marks_agree_refl by blast
  qed
qed

lemma crash_run32:
  assumes inv: "mut_inv sz m" and ctr: "unat (mut_counter m) + 1 < 2 ^ 64"
    and crash: "crash_image32 sz (op_stores sz op m) (mut_layout m) l'"
  shows "recovers sz l' \<and> same_header (mut_layout m) l' \<and>
    (\<exists>op' \<in> set (torn_ops op (live m)). survives sz op' (live m) (recoverable l'))"
proof -
  from crash_call32[OF inv ctr crash] obtain op' l2 where
    op': "op' \<in> set (torn_ops op (live m))" and
    l2: "crash_image sz (op_stores sz op' m) (mut_layout m) l2" "marks_agree l2 l'"
    by blast
  have "same_header (mut_layout m) l2"
    using l2(1) op_stores_header by (rule crash_image_header)
  then have "same_header (mut_layout m) l'"
    using marks_agree_recoverable(2)[OF l2(2)] by (rule same_header_trans)
  with crash_call[OF inv ctr l2(1)] marks_agree_recoverable(1,3)[OF l2(2)] op' show ?thesis
    by auto
qed

lemma restart_recovers32:
  assumes ops: "list_all valid_op (ops @ [op])" "length ops + 1 < 2 ^ 64"
    and run: "mut_run ops (fresh_writer sz) = Inr m"
    and crash: "crash_image32 sz (op_stores sz op m) (mut_layout m) l"
    and img: "k_file k = enc_layout l @ pad" "get_page_size (os_page_size os) \<le> length (k_file k)"
    and os: "os_sound os k" "calls_succeed os target k"
  shows "\<exists>c k' ss. initialize_span_data os target k = Inr (Some c, k') \<and> fresh_context target ss c \<and>
    list_all2 (\<lambda>r s. span_of_raw r = Inr s) (recoverable l) ss \<and>
    (\<exists>op' \<in> set (torn_ops op (spec_run sz ops [])). survives sz op' (spec_run sz ops []) (recoverable l))"
proof -
  from mut_run_refines[of sz "fresh_writer sz" ops] ops run have m:
    "mut_inv sz m" "unat (mut_counter m) \<le> length ops" "live m = spec_run sz ops []"
    by auto
  have "unat (mut_counter m) + 1 < 2 ^ 64" using m(2) ops(2) by simp
  note r = crash_run32[OF m(1) this crash]
  then show ?thesis
    using restart_image[OF _ _ run _ _ img os] ops m(3) by auto
qed

end
