(* ===== verification/Samples.thy ===== *)
theory Samples
  imports Process_Laws Entry_Model Crash_Words
begin

text \<open>
  Concrete states that meet the hypotheses of the properties: two small spans, a layout that
  holds them, a writer over it, system calls that succeed.
\<close>

definition sample_span :: "u64 \<Rightarrow> span" where
  "sample_span n =
     \<lparr>sp_trace_id = \<lparr>ti_high = 1, ti_low = 2\<rparr>, sp_span_id = n, sp_parent_span_id = 0,
      sp_start_time = 10, sp_end_time = 0, sp_name = [0x61], sp_attributes = [([0x6b], [0x76])]\<rparr>"

lemma sample_span_id [simp]: "sp_span_id (sample_span n) = n"
  by (simp add: sample_span_def)

lemma sample_span_fits: "span_fits Small (sample_span n)"
  by (simp add: span_fits_def sample_span_def span_name_size_def attr_key_size_def attr_value_size_def)

definition sample_layout1 :: memory_layout where
  "sample_layout1 = exec_stores Small (add_stores Small (sample_span 7) 1 (fresh_layout Small)) (fresh_layout Small)"

definition sample_layout :: memory_layout where
  "sample_layout = exec_stores Small (add_stores Small (sample_span 8) 2 sample_layout1) sample_layout1"

definition sample_data :: raw_span_data where
  "sample_data = \<lparr>rd_layout = sample_layout, rd_mark_counter = 2\<rparr>"

abbreviation sample_slots :: "marked_span list" where
  "sample_slots \<equiv> [\<lparr>ms_mark = 1, ms_span = to_raw_span Small (sample_span 7)\<rparr>,
     \<lparr>ms_mark = 2, ms_span = to_raw_span Small (sample_span 8)\<rparr>]"

lemma sample_layout1_inv:
  "layout_inv Small 1 sample_layout1" "active_count sample_layout1 = 1"
  "active sample_layout1 = [\<lparr>ms_mark = 1, ms_span = to_raw_span Small (sample_span 7)\<rparr>]"
proof -
  have c: "active_count (fresh_layout Small) = 0" by (simp add: fresh_layout_def)
  then have "unat (active_count (fresh_layout Small)) < max_spans (mmap_config Small)" by simp
  from add_law[OF fresh_layout_inv(1) this, of 1 "sample_span 7"] fresh_layout_inv(2)[of Small] c
  show "layout_inv Small 1 sample_layout1" "active_count sample_layout1 = 1"
    "active sample_layout1 = [\<lparr>ms_mark = 1, ms_span = to_raw_span Small (sample_span 7)\<rparr>]"
    by (simp_all add: sample_layout1_def)
qed

lemma sample_layout_inv:
  "layout_inv Small 2 sample_layout" "active_count sample_layout = 2"
  "active sample_layout = sample_slots"
proof -
  have "unat (active_count sample_layout1) < max_spans (mmap_config Small)"
    using sample_layout1_inv(2) by simp
  from add_law[OF sample_layout1_inv(1) this, of 2 "sample_span 8"] sample_layout1_inv(2,3)
  show "layout_inv Small 2 sample_layout" "active_count sample_layout = 2"
    "active sample_layout = sample_slots"
    by (simp_all add: sample_layout_def)
qed

lemma sample_data_simps [simp]:
  "rsd_inv Small sample_data" "rsd_slots sample_data = sample_slots"
  "rd_mark_counter sample_data = 2" "rd_layout sample_data = sample_layout"
  "active_count sample_layout = 2"
  using sample_layout_inv by (simp_all add: sample_data_def rsd_inv_def rsd_slots_def)

lemma sample_recoverable [simp]:
  "recoverable sample_layout = [to_raw_span Small (sample_span 7), to_raw_span Small (sample_span 8)]"
  using recoverable_live[OF sample_layout_inv(1)] sample_layout_inv(3) by simp

lemma sample_slot [simp]:
  "slot_span sample_layout 0 = to_raw_span Small (sample_span 7)" "slot_mark sample_layout 0 = 1"
  "slot_span sample_layout (Suc 0) = to_raw_span Small (sample_span 8)" "slot_mark sample_layout (Suc 0) = 2"
proof -
  have "ml_marked_spans sample_layout ! 0 = sample_slots ! 0"
    "ml_marked_spans sample_layout ! 1 = sample_slots ! 1"
    using nth_active[of 0 sample_layout] nth_active[of 1 sample_layout] sample_layout_inv(2,3)
    by (simp_all only:) simp_all
  then show "slot_span sample_layout 0 = to_raw_span Small (sample_span 7)"
    "slot_mark sample_layout 0 = 1" "slot_span sample_layout (Suc 0) = to_raw_span Small (sample_span 8)"
    "slot_mark sample_layout (Suc 0) = 2"
    by simp_all
qed

text \<open>System calls that succeed, on pages of 4096 bytes.\<close>

definition sample_os :: os_results where
  "sample_os = \<lparr>os_page_size = 4096, os_open = Some 3, os_fstat = True, os_mmap_existing = Some 4096,
     os_ftruncate = True, os_mmap_sized = Some 8192\<rparr>"

lemma sample_os_simps [simp]:
  "os_page_size sample_os = 4096" "os_open sample_os = Some 3" "os_fstat sample_os"
  "os_mmap_existing sample_os = Some 4096" "os_ftruncate sample_os" "os_mmap_sized sample_os = Some 8192"
  by (simp_all add: sample_os_def)

lemma sample_os_sound [simp]: "k_fds k = {} \<Longrightarrow> k_maps k = Map.empty \<Longrightarrow> os_sound sample_os k"
  by (simp add: os_sound_def mmap_sound_def sample_os_def sizeof_header_def get_page_size_def)

lemma sample_os_calls [simp]: "calls_succeed sample_os target k"
  by (simp add: calls_succeed_def sample_os_def)

abbreviation kernel_with :: "bytes \<Rightarrow> kernel" where
  "kernel_with contents \<equiv> \<lparr>k_file = contents, k_fds = {}, k_maps = Map.empty\<rparr>"

lemma sample_header:
  "h_signature (ml_header sample_layout) = header_signature"
  "h_version (ml_header sample_layout) = header_version"
  "h_mmap_size (ml_header sample_layout) = mmap_size_code Small"
proof -
  have "same_header (fresh_layout Small) sample_layout1"
    unfolding sample_layout1_def by (intro exec_stores_header add_stores_header)
  moreover have "same_header sample_layout1 sample_layout"
    unfolding sample_layout_def by (intro exec_stores_header add_stores_header)
  ultimately have "same_header (fresh_layout Small) sample_layout" by (rule same_header_trans)
  then show "h_signature (ml_header sample_layout) = header_signature"
    "h_version (ml_header sample_layout) = header_version"
    "h_mmap_size (ml_header sample_layout) = mmap_size_code Small"
    by (simp_all add: same_header_def fresh_layout_def)
qed

lemma sample_recovers_from: "recovers_from sample_os (kernel_with (enc_layout sample_layout))"
proof -
  have wf: "wf_layout Small sample_layout" using sample_layout_inv(1) by (simp add: layout_inv_def)
  have "get_page_size (os_page_size sample_os) \<le> length (k_file (kernel_with (enc_layout sample_layout)))"
    using layout_bytes.enc_length[OF wf] by (simp add: sizeof_defs sample_os_def get_page_size_def)
  from held_of_layout(1)[OF wf _ sample_header this, of "[]"] show ?thesis by simp
qed

section \<open>A process\<close>

text \<open>A context of any size on an empty file, at address 100.\<close>

lemma sample_empty [simp]: "held_spans sample_os (kernel_with []) = Inr []"
  by (simp add: held_spans_def recovers_from_def sample_os_def get_page_size_def)

lemma sample_call_ok:
  "call_ok (Api_Initialize sample_os 100 (mmap_size_code sz)) (new_process [])"
proof -
  have "is_supported_size (mmap_size_code sz)" using is_supported_size_iff by blast
  then show ?thesis by (simp add: new_process_def)
qed

lemma sample_process:
  obtains pr1 c where
    "pr_initialize sample_os 100 (mmap_size_code sz) (new_process []) = Inr (100, pr1)"
    "pr_inv pr1" "pr_contexts pr1 = [100 \<mapsto> c]" "pr_writers pr1 = [100 \<mapsto> Map.empty]"
    "fresh_context (mmap_size_code sz) [] c"
    "length (k_file (pr_kernel pr1)) = get_aligned_size 4096 (mmap_size_code sz)"
    "in_file 100 pr1"
proof -
  let ?pr = "new_process []"
  have k: "pr_kernel ?pr = kernel_with []" by (simp add: new_process_def)
  from initialize_spec[OF sample_os_sound sample_empty, of "mmap_size_code sz"] obtain r k' where
    i: "initialize_span_data sample_os (mmap_size_code sz) (kernel_with []) = Inr (r, k')"
      "initialized sample_os (mmap_size_code sz) [] (kernel_with []) r k'"
    by auto
  then obtain c where c: "r = Some c" "fresh_context (mmap_size_code sz) [] c"
    by (auto simp: initialized_def Let_def)
  let ?pr1 = "?pr\<lparr>pr_kernel := k', pr_contexts := (pr_contexts ?pr)(100 \<mapsto> c),
    pr_writers := (pr_writers ?pr)(100 \<mapsto> Map.empty)\<rparr>"
  have pr1: "pr_initialize sample_os 100 (mmap_size_code sz) ?pr = Inr (100, ?pr1)"
    using i(1) c(1) k by (simp add: pr_initialize_def)
  have "pr_inv ?pr1" using initialize_inv[OF pr_inv_new sample_call_ok[of sz]] pr1 by auto
  with that[OF pr1] c(2) initialize_in_file[OF pr_inv_new sample_call_ok pr1] show ?thesis
    by (auto simp: new_process_def sample_os_def)
qed

section \<open>A full writer\<close>

definition sample_spans :: "span list" where
  "sample_spans = map (\<lambda>n. sample_span (of_nat n)) [1..<129]"

lemma sample_full_writer:
  obtains m where
    "mut_run (map Op_Add sample_spans) (fresh_writer Small) = Inr m" "mut_inv Small m"
    "unat (mut_counter m) \<le> 128" "live m = map (to_raw_span Small) sample_spans"
proof -
  have "inj_on (of_nat :: nat \<Rightarrow> u64) {1..<129}"
  proof (rule inj_onI)
    fix x y :: nat
    assume "x \<in> {1..<129}" "y \<in> {1..<129}" "(of_nat x :: u64) = of_nat y"
    then have "x < 18446744073709551616" "y < 18446744073709551616"
      "unat (of_nat x :: u64) = unat (of_nat y :: u64)"
      by simp_all
    then show "x = y" by (simp only: unat_of_nat_64)
  qed
  then have d: "distinct (map raw_span_id [] @ map sp_span_id sample_spans)"
    by (simp add: sample_spans_def distinct_map comp_def del: upt.simps upt_rec_numeral)
  have "(of_nat n :: u64) \<noteq> 0" if "1 \<le> n" "n < 129" for n
  proof
    assume "(of_nat n :: u64) = 0"
    then have "unat (of_nat n :: u64) = 0" by simp
    with that show False by simp
  qed
  then have v: "list_all valid_op (map Op_Add sample_spans)"
    by (simp add: sample_spans_def list_all_iff del: upt.simps upt_rec_numeral)
  have l: "length sample_spans = 128" by (simp add: sample_spans_def)
  have r: "spec_run Small (map Op_Add sample_spans) [] = map (to_raw_span Small) sample_spans"
    using spec_run_adds[OF d, of Small] l by simp
  from mut_run_refines[OF fresh_writer_simps(1) v, of Small] l obtain m where
    "mut_run (map Op_Add sample_spans) (fresh_writer Small) = Inr m" "mut_inv Small m"
    "unat (mut_counter m) \<le> 128" "live m = spec_run Small (map Op_Add sample_spans) []"
    by (auto simp del: mut_run.simps spec_run.simps)
  with r that show ?thesis by simp
qed

text \<open>The same context once its recovered spans are collected: ready for every write.\<close>

lemma sample_ready:
  obtains pr2 where
    "api_run [Api_Initialize sample_os 100 (mmap_size_code Small), Api_Recover 100] (new_process []) = Inr pr2"
    "get_mutable_span_data 100 pr2 = Inr 100"
    "\<forall>op. valid_op op \<longrightarrow> (\<exists>pr3. pr_write 100 op pr2 = Inr pr3)"
proof -
  obtain pr1 c where pr1:
    "pr_initialize sample_os 100 (mmap_size_code Small) (new_process []) = Inr (100, pr1)"
    "pr_inv pr1" "pr_contexts pr1 = [100 \<mapsto> c]" "fresh_context (mmap_size_code Small) [] c"
    by (rule sample_process)
  let ?c = "c\<lparr>cx_is_recovered := True, cx_recovered_spans := []\<rparr>"
  let ?pr2 = "pr1\<lparr>pr_contexts := [100 \<mapsto> ?c]\<rparr>"
  have rec: "get_recovered_spans 100 pr1 = Inr ([], ?pr2)"
    using pr1(3,4) by (simp add: get_recovered_spans_def fresh_context_def)
  then have inv: "pr_inv ?pr2"
    using recover_inv[OF pr1(2), of 100] pr1(3) by (auto simp: alive_or_null_def)
  have "\<exists>pr3. pr_write 100 op ?pr2 = Inr pr3" if "valid_op op" for op
    using write_inv[OF inv _ that, of 100 ?c] pr1(4) by (auto simp: fresh_context_def impl_counter_def)
  with that[of ?pr2] pr1(1) rec show ?thesis by (simp add: get_mutable_span_data_def)
qed

lemma pr_write_fds: "pr_write p op pr = Inr pr' \<Longrightarrow> k_fds (pr_kernel pr') = k_fds (pr_kernel pr)"
proof -
  have "k_fds (pr_kernel (pr_update w impl index pr)) = k_fds (pr_kernel pr)" for w impl index
    by (cases impl) (simp_all add: pr_update_def write_layout_def)
  then show "pr_write p op pr = Inr pr' \<Longrightarrow> ?thesis"
    by (auto simp: pr_write_def res_map_Inr_iff split: option.splits)
qed

text \<open>A session that writes one span.\<close>

lemma sample_session:
  obtains pr1 pr2 where
    "pr_initialize sample_os 100 (mmap_size_code Small) (new_process []) = Inr (100, pr1)"
    "api_run (Api_Recover 100 # map (Api_Write 100) [Op_Add (sample_span 7)]) pr1 = Inr pr2"
    "k_fds (pr_kernel pr2) = {}"
proof -
  obtain pr1 c where pr1:
    "pr_initialize sample_os 100 (mmap_size_code Small) (new_process []) = Inr (100, pr1)"
    "pr_inv pr1" "pr_contexts pr1 = [100 \<mapsto> c]" "fresh_context (mmap_size_code Small) [] c"
    by (rule sample_process)
  have fds: "k_fds (pr_kernel pr1) = {}"
    using initialize_inv[OF pr_inv_new sample_call_ok[of Small]] pr1(1) by (auto simp: new_process_def)
  let ?pr2 = "pr1\<lparr>pr_contexts := [100 \<mapsto> c\<lparr>cx_is_recovered := True, cx_recovered_spans := []\<rparr>]\<rparr>"
  have rec: "api_step (Api_Recover 100) pr1 = Inr ?pr2"
    using pr1(3,4) by (simp add: get_recovered_spans_def fresh_context_def)
  have "pr_inv ?pr2" using recover_inv[OF pr1(2), of 100] rec pr1(3) by (auto simp: alive_or_null_def)
  from write_inv[OF this, of 100 _ "Op_Add (sample_span 7)"] pr1(4) obtain pr3 where
    pr3: "pr_write 100 (Op_Add (sample_span 7)) ?pr2 = Inr pr3"
    by (auto simp: fresh_context_def impl_counter_def)
  with that[OF pr1(1)] rec fds pr_write_fds[OF pr3] show ?thesis by (simp add: get_mutable_span_data_def)
qed

text \<open>
  System calls for a second start in the same process: the address of the first mapping is
  taken.
\<close>

lemma free_address:
  assumes inv: "pr_inv pr" and c: "pr_contexts pr p = Some c"
  shows "k_maps (pr_kernel pr) (Suc (mm_mmap_ptr (mi_mmap (cx_data c)))) = None"
proof -
  let ?h = "mi_mmap (cx_data c)"
  have "q = p" if "pr_contexts pr q = Some d" for q d
    using inv that c unfolding pr_inv_def by (metis option.distinct(1))
  then have "ran (cx_mappings pr) \<subseteq> {?h}" using c by (auto simp: ran_def cx_mappings_def)
  moreover have "mm_held (pr_kernel pr) = (\<Union>h \<in> ran (cx_mappings pr). mm_owned h)"
    using inv by (simp add: pr_inv_def sole_owners_def)
  ultimately have "mm_held (pr_kernel pr) \<subseteq> mm_owned ?h" by blast
  then have "a = mm_mmap_ptr ?h" if "k_maps (pr_kernel pr) a = Some n" for a n
    using that by (auto simp: mm_held_def mm_owned_def split: if_splits)
  then show ?thesis by (metis n_not_Suc_n not_None_eq)
qed

definition second_os :: "nat \<Rightarrow> os_results" where
  "second_os a = sample_os\<lparr>os_mmap_existing := Some a, os_mmap_sized := Some a\<rparr>"

lemma second_os_simps [simp]:
  "os_page_size (second_os a) = os_page_size sample_os" "calls_succeed (second_os a) target k"
  by (simp_all add: second_os_def calls_succeed_def)

lemma second_os_sound:
  "a \<noteq> 0 \<Longrightarrow> k_maps k a = None \<Longrightarrow> k_fds k = {} \<Longrightarrow> os_sound (second_os a) k"
  by (simp add: second_os_def os_sound_def mmap_sound_def sizeof_header_def get_page_size_def)

text \<open>A context that still has two recovered spans to hand out.\<close>

definition sample_context :: span_context where
  "sample_context =
     \<lparr>cx_data = \<lparr>mi_impl = impl_of Small sample_data, mi_mmap = \<lparr>mm_mmap_ptr = 4096, mm_required_size = 413696\<rparr>\<rparr>,
      cx_recovered_spans = [sample_span 7, sample_span 8], cx_is_recovered = False\<rparr>"

text \<open>
  On 32 bits: a writer with one span, which dies between the two halves of the end time
  \<open>0x100000001\<close>, the high half written.
\<close>

lemma sample_torn_end:
  obtains m l where "mut_run [Op_Add (sample_span 7)] (fresh_writer Small) = Inr m"
    "crash_image32 Small (op_stores Small (Op_End 0 7 0x100000001) m) (mut_layout m) l"
    "recoverable l = [(to_raw_span Small (sample_span 7))\<lparr>raw_end_time := 0x100000000\<rparr>]"
    "wf_layout Small l"
proof -
  let ?R = "to_raw_span Small (sample_span 7)"
  obtain m where m: "mut_run [Op_Add (sample_span 7)] (fresh_writer Small) = Inr m" "mut_inv Small m"
    "live m = [?R]" "unat (mut_counter m) \<le> 1"
    using mut_run_refines[of Small "fresh_writer Small" "[Op_Add (sample_span 7)]"]
    by (auto simp: spec_add_def)
  note rec = recoverable_mut[OF m(2)]
  have "length (mut_slots m) = 1" using length_live[of m] m(3) by simp
  then have R: "recoverable (mut_layout m) = [?R]"
    using rec(1,2) m(3) by (cases "mut_slots m") auto
  have "7 \<in> raw_span_id ` set (live m)" using m(3) by simp
  then have "7 \<in> slot_id ` set (mut_slots m)" unfolding ids_live .
  then have "mu_index m 7 \<noteq> None" using mut_inv_index(1)[OF m(2)] by blast
  then obtain i where i: "mu_index m 7 = Some i" by blast
  note ix = indexed_span[OF m(2) i]
  have i0: "unat i = 0" using ix(1) rec(4) \<open>length (mut_slots m) = 1\<close> by simp
  define l where "l = exec_store Small (Store_End_Time (unat i) 0x100000000) (mut_layout m)"
  have "slot_span (mut_layout m) (unat i) = ?R" using ix(4) R i0 by simp
  moreover have "raw_end_time ?R = 0" by (simp add: to_raw_span_eq sample_span_def)
  ultimately have old: "raw_end_time (slot_span (mut_layout m) (unat i)) = 0" by simp
  have "(0x100000000::u64) \<in> set (half_writes 0 0x100000001)"
    by (simp add: half_writes_def join_halves_def)
  then have "torn32 Small (Store_End_Time (unat i) 0x100000001) (mut_layout m) l"
    unfolding l_def using old by (intro torn32_scalar) simp_all
  then have c: "crash_image32 Small (op_stores Small (Op_End 0 7 0x100000001) m) (mut_layout m) l"
    using i by (simp add: within32)
  have "recoverable l = [?R\<lparr>raw_end_time := 0x100000000\<rparr>]"
    using recoverable_upd_span[OF mut_layout_inv[OF m(2)] ix(1)] R i0 by (simp add: l_def)
  moreover have "unat (mut_counter m) + 1 < 2 ^ 64" using m(4) by simp
  then have "wf_layout Small l"
    using crash_run32[OF m(2) _ c] by (simp add: recovers_def)
  ultimately show ?thesis using that m(1) c by blast
qed

end
