(* ===== verification/Jni_Refs.thy ===== *)
theory Jni_Refs
  imports Text_Field Handle_Table
begin

text \<open>
  The Java Native Interface as the bindings use it. The environment is a parameter: a record
  of its functions over the state \<open>'j\<close> of the virtual machine. What the documentation says
  of them is stated over a view of that state, with the rule that matters most for error
  paths: while an exception is pending only deletions and releases may be called. On top of
  it \<^verbatim>\<open>ManagedLocalRef\<close>, the owner of one local reference.
\<close>

section \<open>The environment\<close>

text \<open>
  References, method ids and the pointers to the environment and the machine are numbers,
  zero is null. \<open>jni_get_env\<close> gives the environment of the calling thread when
  \<^verbatim>\<open>JavaVM::GetEnv\<close> returns \<^verbatim>\<open>JNI_OK\<close>; the call of \<^verbatim>\<open>createRecoveredSpan\<close> takes five numbers,
  the name and the array of attributes.
\<close>

type_synonym jref = nat

record 'j jni =
  jni_get_env :: "nat \<Rightarrow> 'j \<Rightarrow> nat option"
  jni_get_java_vm :: "nat \<Rightarrow> 'j \<Rightarrow> nat option"
  jni_find_class :: "string \<Rightarrow> 'j \<Rightarrow> (jref \<times> 'j) res"
  jni_new_global_ref :: "jref \<Rightarrow> 'j \<Rightarrow> (jref \<times> 'j) res"
  jni_delete_global_ref :: "jref \<Rightarrow> 'j \<Rightarrow> 'j res"
  jni_delete_local_ref :: "jref \<Rightarrow> 'j \<Rightarrow> 'j res"
  jni_get_static_method_id :: "jref \<Rightarrow> string \<Rightarrow> string \<Rightarrow> 'j \<Rightarrow> (nat \<times> 'j) res"
  jni_register_natives :: "jref \<Rightarrow> (string \<times> string) list \<Rightarrow> 'j \<Rightarrow> (int \<times> 'j) res"
  jni_new_string_utf :: "bytes \<Rightarrow> 'j \<Rightarrow> (jref \<times> 'j) res"
  jni_get_string_utf_chars :: "jref \<Rightarrow> 'j \<Rightarrow> (bytes option \<times> 'j) res"
  jni_get_string_utf_length :: "jref \<Rightarrow> 'j \<Rightarrow> int res"
  jni_release_string_utf_chars :: "jref \<Rightarrow> 'j \<Rightarrow> 'j res"
  jni_new_object_array :: "int \<Rightarrow> jref \<Rightarrow> 'j \<Rightarrow> (jref \<times> 'j) res"
  jni_get_array_length :: "jref \<Rightarrow> 'j \<Rightarrow> int res"
  jni_get_object_array_element :: "jref \<Rightarrow> int \<Rightarrow> 'j \<Rightarrow> (jref \<times> 'j) res"
  jni_set_object_array_element :: "jref \<Rightarrow> int \<Rightarrow> jref \<Rightarrow> 'j \<Rightarrow> 'j res"
  jni_call_create_span :: "jref \<Rightarrow> nat \<Rightarrow> u64 list \<Rightarrow> jref \<Rightarrow> jref \<Rightarrow> 'j \<Rightarrow> (jref \<times> 'j) res"

section \<open>What the documentation says\<close>

text \<open>
  The view of a state: its local and global references, whether an exception is pending, the
  object behind a reference, the modified UTF-8 text of a string object (strings do not
  change), the elements of an array, and for an object returned by \<^verbatim>\<open>createRecoveredSpan\<close>
  the arguments of the call that made it.
\<close>

record ('j, 'o) jvm_view =
  vw_locals :: "'j \<Rightarrow> jref set"
  vw_globals :: "'j \<Rightarrow> jref set"
  vw_pending :: "'j \<Rightarrow> bool"
  vw_object :: "jref \<Rightarrow> 'j \<Rightarrow> 'o"
  vw_text :: "'o \<Rightarrow> bytes"
  vw_elems :: "'o \<Rightarrow> 'j \<Rightarrow> 'o option list"
  vw_made_by :: "'o \<Rightarrow> u64 list \<times> bytes \<times> bytes option list"

definition vw_live :: "('j, 'o) jvm_view \<Rightarrow> 'j \<Rightarrow> jref set" where
  "vw_live V j = vw_locals V j \<union> vw_globals V j"

text \<open>References that stay keep their object.\<close>

definition same_objects :: "('j, 'o) jvm_view \<Rightarrow> 'j \<Rightarrow> 'j \<Rightarrow> bool" where
  "same_objects V j j' \<longleftrightarrow>
     (\<forall>r \<in> vw_live V j \<inter> vw_live V j'. vw_object V r j' = vw_object V r j)"

definition same_refs :: "('j, 'o) jvm_view \<Rightarrow> 'j \<Rightarrow> 'j \<Rightarrow> bool" where
  "same_refs V j j' \<longleftrightarrow> vw_locals V j' = vw_locals V j \<and> vw_globals V j' = vw_globals V j \<and>
     same_objects V j j'"

lemma same_refs_live: "same_refs V j j' \<Longrightarrow> vw_live V j' = vw_live V j"
  by (simp add: same_refs_def vw_live_def)

lemma same_refs_refl [simp]: "same_refs V j j"
  by (simp add: same_refs_def same_objects_def)

lemma same_refs_trans:
  assumes "same_refs V j j'" "same_refs V j' j''"
  shows "same_refs V j j''"
  using assms same_refs_live[OF assms(1)] same_refs_live[OF assms(2)]
  by (simp add: same_refs_def same_objects_def)

text \<open>
  A function that returns a local reference: a fresh one, or null with an exception pending.
\<close>

definition returns_local :: "('j, 'o) jvm_view \<Rightarrow> 'j \<Rightarrow> jref \<Rightarrow> 'j \<Rightarrow> bool" where
  "returns_local V j r j' \<longleftrightarrow> same_objects V j j' \<and> vw_globals V j' = vw_globals V j \<and>
     (vw_pending V j' \<longleftrightarrow> r = 0) \<and>
     (if r = 0 then vw_locals V j' = vw_locals V j
      else r \<notin> vw_live V j \<and> vw_locals V j' = insert r (vw_locals V j))"

text \<open>No array behind a reference changes.\<close>

definition same_elems :: "('j, 'o) jvm_view \<Rightarrow> 'j \<Rightarrow> 'j \<Rightarrow> bool" where
  "same_elems V j j' \<longleftrightarrow>
     (\<forall>r \<in> vw_live V j. vw_elems V (vw_object V r j) j' = vw_elems V (vw_object V r j) j)"

lemma same_elems_refl [simp]: "same_elems V j j"
  by (simp add: same_elems_def)

lemma same_elemsD:
  "same_elems V j j' \<Longrightarrow> r \<in> vw_live V j \<Longrightarrow> vw_elems V (vw_object V r j) j' = vw_elems V (vw_object V r j) j"
  by (simp add: same_elems_def)

lemma same_elems_trans:
  assumes "same_refs V j j'" "same_elems V j j'" "same_elems V j' j''"
  shows "same_elems V j j''"
proof -
  have "vw_object V r j' = vw_object V r j" "r \<in> vw_live V j'" if "r \<in> vw_live V j" for r
    using assms(1) that same_refs_live[OF assms(1)] by (simp_all add: same_refs_def same_objects_def)
  with assms(2,3) show ?thesis unfolding same_elems_def by metis
qed

text \<open>The threads stay attached.\<close>

definition same_env :: "'j jni \<Rightarrow> 'j \<Rightarrow> 'j \<Rightarrow> bool" where
  "same_env J j j' \<longleftrightarrow> (\<forall>vm. jni_get_env J vm j' = jni_get_env J vm j)"

lemma same_env_refl [simp]: "same_env J j j"
  by (simp add: same_env_def)

lemma same_env_trans: "same_env J j j' \<Longrightarrow> same_env J j' j'' \<Longrightarrow> same_env J j j''"
  by (simp add: same_env_def)

text \<open>Deletions are possible at any time, of references that are there.\<close>

definition jni_deletes :: "'j jni \<Rightarrow> ('j, 'o) jvm_view \<Rightarrow> bool" where
  "jni_deletes J V \<longleftrightarrow> (\<forall>j r.
     0 \<notin> vw_live V j \<and>
     (r \<in> vw_locals V j \<longrightarrow> (\<exists>j'. jni_delete_local_ref J r j = Inr j' \<and>
        vw_locals V j' = vw_locals V j - {r} \<and> vw_globals V j' = vw_globals V j \<and>
        vw_pending V j' = vw_pending V j \<and> same_objects V j j' \<and>
        same_elems V j j' \<and> same_env J j j')) \<and>
     (r \<in> vw_globals V j \<longrightarrow> (\<exists>j'. jni_delete_global_ref J r j = Inr j' \<and>
        vw_globals V j' = vw_globals V j - {r} \<and> vw_locals V j' = vw_locals V j \<and>
        vw_pending V j' = vw_pending V j \<and> same_objects V j j' \<and>
        same_elems V j j' \<and> same_env J j j')))"

lemma jni_deletesD:
  assumes "jni_deletes J V"
  shows "0 \<notin> vw_live V j"
    and "r \<in> vw_locals V j \<Longrightarrow> \<exists>j'. jni_delete_local_ref J r j = Inr j' \<and>
      vw_locals V j' = vw_locals V j - {r} \<and> vw_globals V j' = vw_globals V j \<and>
      vw_pending V j' = vw_pending V j \<and> same_objects V j j' \<and>
      same_elems V j j' \<and> same_env J j j'"
    and "r \<in> vw_globals V j \<Longrightarrow> \<exists>j'. jni_delete_global_ref J r j = Inr j' \<and>
      vw_globals V j' = vw_globals V j - {r} \<and> vw_locals V j' = vw_locals V j \<and>
      vw_pending V j' = vw_pending V j \<and> same_objects V j j' \<and>
      same_elems V j j' \<and> same_env J j j'"
  using assms by (auto simp: jni_deletes_def)

section \<open>ManagedLocalRef\<close>

record local_ref =
  lr_env :: nat
  lr_value :: jref

definition lr_empty :: local_ref where
  "lr_empty = \<lparr>lr_env = 0, lr_value = 0\<rparr>"

definition lr_new :: "nat \<Rightarrow> jref \<Rightarrow> local_ref" where
  "lr_new env v = \<lparr>lr_env = env, lr_value = v\<rparr>"

definition lr_destroy :: "'j jni \<Rightarrow> local_ref \<Rightarrow> 'j \<Rightarrow> 'j res" where
  "lr_destroy J h j =
     (if lr_env h \<noteq> 0 \<and> lr_value h \<noteq> 0 then jni_delete_local_ref J (lr_value h) j else Inr j)"

definition lr_move :: "local_ref \<Rightarrow> local_ref \<times> local_ref" where
  "lr_move other = (other, other\<lparr>lr_env := 0, lr_value := 0\<rparr>)"

definition lr_assign ::
    "'j jni \<Rightarrow> bool \<Rightarrow> local_ref \<Rightarrow> local_ref \<Rightarrow> 'j \<Rightarrow> (local_ref \<times> local_ref \<times> 'j) res" where
  "lr_assign J same this other j =
     (if same then Inr (this, other, j)
      else res_map (\<lambda>j. (other, other\<lparr>lr_env := 0, lr_value := 0\<rparr>, j)) (lr_destroy J this j))"

definition lr_bool :: "local_ref \<Rightarrow> bool" where
  "lr_bool h \<longleftrightarrow> lr_value h \<noteq> 0"

definition lr_owned :: "local_ref \<Rightarrow> jref set" where
  "lr_owned h = (if lr_env h \<noteq> 0 \<and> lr_value h \<noteq> 0 then {lr_value h} else {})"

lemma lr_owned_simps [simp]:
  "lr_owned lr_empty = {}" "lr_owned (h\<lparr>lr_env := 0, lr_value := 0\<rparr>) = {}"
  "env \<noteq> 0 \<Longrightarrow> lr_owned (lr_new env v) = {v} - {0}"
  "lr_new env v = lr_new env w \<longleftrightarrow> v = w" "lr_env (lr_new env v) = env"
  "lr_value (lr_new env v) = v" "lr_bool (lr_new env v) \<longleftrightarrow> v \<noteq> 0" "\<not> lr_bool lr_empty"
  by (auto simp: lr_owned_def lr_empty_def lr_new_def lr_bool_def)

lemma lr_destroy_owned:
  assumes "jni_deletes J V" "lr_owned h \<subseteq> vw_locals V j"
  shows "\<exists>j'. lr_destroy J h j = Inr j' \<and> vw_locals V j' = vw_locals V j - lr_owned h \<and>
    vw_globals V j' = vw_globals V j \<and> vw_pending V j' = vw_pending V j \<and> same_objects V j j' \<and>
    same_elems V j j' \<and> same_env J j j'"
proof (cases "lr_env h \<noteq> 0 \<and> lr_value h \<noteq> 0")
  case True
  then have "lr_owned h = {lr_value h}" by (simp add: lr_owned_def)
  with jni_deletesD(2)[OF assms(1), of "lr_value h" j] assms(2) True show ?thesis
    by (auto simp: lr_destroy_def)
next
  case False
  then have "lr_owned h = {}" by (simp add: lr_owned_def)
  with False show ?thesis by (auto simp: lr_destroy_def same_objects_def)
qed

interpretation local_owner: move_only lr_owned "vw_locals V" "\<lambda>_. jni_deletes J V" "\<lambda>_. True"
  "lr_destroy J" lr_move "lr_assign J"
  for J V
proof (unfold_locales, goal_cases)
  case (1 k h)
  then show ?case using lr_destroy_owned[of J V h k] by auto
next
  case (4 k a b)
  then show ?case using lr_destroy_owned[of J V a k] by (auto simp: lr_assign_def)
qed (auto simp: lr_move_def lr_assign_def)

end
