(* ===== verification/Jclass_Cache.thy ===== *)
theory Jclass_Cache
  imports Jni_Refs
begin

text \<open>
  \<^verbatim>\<open>SpanJClassCache\<close>: the global references to the classes of spans and strings and the
  method that creates a span. It owns up to two global references, which it can delete from
  any thread that is attached to the machine.
\<close>

section \<open>The class\<close>

record span_jclass_cache =
  sc_vm :: nat
  sc_span_class :: jref
  sc_string_class :: jref
  sc_span_create :: nat

definition sc_empty :: span_jclass_cache where
  "sc_empty = \<lparr>sc_vm = 0, sc_span_class = 0, sc_string_class = 0, sc_span_create = 0\<rparr>"

definition current_env :: "'j jni \<Rightarrow> nat \<Rightarrow> 'j \<Rightarrow> nat" where
  "current_env J vm j =
     (if vm = 0 then 0 else case jni_get_env J vm j of None \<Rightarrow> 0 | Some env \<Rightarrow> env)"

definition release_global :: "'j jni \<Rightarrow> nat \<Rightarrow> jref \<Rightarrow> 'j \<Rightarrow> 'j res" where
  "release_global J env ref j =
     (if env \<noteq> 0 \<and> ref \<noteq> 0 then jni_delete_global_ref J ref j else Inr j)"

definition sc_release :: "'j jni \<Rightarrow> span_jclass_cache \<Rightarrow> 'j \<Rightarrow> (span_jclass_cache \<times> 'j) res" where
  "sc_release J c j =
     (let env = current_env J (sc_vm c) j
      in res_bind (release_global J env (sc_span_class c) j) (\<lambda>j.
           res_map (\<lambda>j. (c\<lparr>sc_vm := 0, sc_span_class := 0, sc_string_class := 0, sc_span_create := 0\<rparr>, j))
             (release_global J env (sc_string_class c) j)))"

definition sc_destroy :: "'j jni \<Rightarrow> span_jclass_cache \<Rightarrow> 'j \<Rightarrow> 'j res" where
  "sc_destroy J c j = res_map snd (sc_release J c j)"

definition sc_new :: "'j jni \<Rightarrow> nat \<Rightarrow> 'j \<Rightarrow> (span_jclass_cache \<times> 'j) res" where
  "sc_new J env j =
     (if env = 0 then Inr (sc_empty, j)
      else case jni_get_java_vm J env j of
        None \<Rightarrow> Inr (sc_empty, j)
      | Some vm \<Rightarrow>
          let c = sc_empty\<lparr>sc_vm := vm\<rparr>
          in res_bind (jni_find_class J ''com/google/firebase/crashlytics/telemetry/Span'' j)
            (\<lambda>(span_class, j).
              if span_class = 0 then Inr (c, j)
              else res_bind (jni_new_global_ref J span_class j) (\<lambda>(g, j).
                let c = c\<lparr>sc_span_class := g\<rparr>
                in res_bind (jni_delete_local_ref J span_class j) (\<lambda>j.
                  res_bind (jni_find_class J ''java/lang/String'' j) (\<lambda>(string_class, j).
                    if string_class = 0 then Inr (c, j)
                    else res_bind (jni_new_global_ref J string_class j) (\<lambda>(g, j).
                      let c = c\<lparr>sc_string_class := g\<rparr>
                      in res_bind (jni_delete_local_ref J string_class j) (\<lambda>j.
                        res_map (\<lambda>(m, j). (c\<lparr>sc_span_create := m\<rparr>, j))
                          (jni_get_static_method_id J (sc_span_class c) ''createRecoveredSpan''
                            ''(JJJJJLjava/lang/String;[Ljava/lang/String;)Lcom/google/firebase/crashlytics/telemetry/Span;''
                            j))))))))"

definition sc_move :: "span_jclass_cache \<Rightarrow> span_jclass_cache \<times> span_jclass_cache" where
  "sc_move other =
     (other, other\<lparr>sc_vm := 0, sc_span_class := 0, sc_string_class := 0, sc_span_create := 0\<rparr>)"

definition sc_assign ::
    "'j jni \<Rightarrow> bool \<Rightarrow> span_jclass_cache \<Rightarrow> span_jclass_cache \<Rightarrow> 'j \<Rightarrow>
      (span_jclass_cache \<times> span_jclass_cache \<times> 'j) res" where
  "sc_assign J same this other j =
     (if same then Inr (this, other, j)
      else res_map (\<lambda>(_, j). (other,
             other\<lparr>sc_vm := 0, sc_span_class := 0, sc_string_class := 0, sc_span_create := 0\<rparr>, j))
           (sc_release J this j))"

definition sc_is_initialized :: "span_jclass_cache \<Rightarrow> bool" where
  "sc_is_initialized c \<longleftrightarrow>
     sc_vm c \<noteq> 0 \<and> sc_span_class c \<noteq> 0 \<and> sc_string_class c \<noteq> 0 \<and> sc_span_create c \<noteq> 0"

section \<open>Ownership\<close>

definition sc_owned :: "span_jclass_cache \<Rightarrow> jref set" where
  "sc_owned c = {sc_span_class c, sc_string_class c} - {0}"

text \<open>What every constructor establishes: no references without a machine, and two different ones.\<close>

definition sc_valid :: "span_jclass_cache \<Rightarrow> bool" where
  "sc_valid c \<longleftrightarrow> (sc_vm c = 0 \<longrightarrow> sc_span_class c = 0 \<and> sc_string_class c = 0) \<and>
     (sc_span_class c = sc_string_class c \<longrightarrow> sc_span_class c = 0)"

text \<open>The calling thread is attached: \<^verbatim>\<open>GetEnv\<close> succeeds on it.\<close>

definition attached :: "'j jni \<Rightarrow> 'j \<Rightarrow> bool" where
  "attached J j \<longleftrightarrow> (\<forall>vm. vm \<noteq> 0 \<longrightarrow> (\<exists>env. env \<noteq> 0 \<and> jni_get_env J vm j = Some env))"

lemma attached_same_env: "attached J j \<Longrightarrow> same_env J j j' \<Longrightarrow> attached J j'"
  by (simp add: attached_def same_env_def)

lemma sc_empty_simps [simp]:
  "sc_owned (c\<lparr>sc_vm := 0, sc_span_class := 0, sc_string_class := 0, sc_span_create := 0\<rparr>) = {}"
  "sc_valid (c\<lparr>sc_vm := 0, sc_span_class := 0, sc_string_class := 0, sc_span_create := 0\<rparr>)"
  "sc_owned sc_empty = {}" "sc_valid sc_empty" "\<not> sc_is_initialized sc_empty"
  by (simp_all add: sc_owned_def sc_valid_def sc_empty_def sc_is_initialized_def)

lemma release_global_owned:
  assumes "jni_deletes J V" "env \<noteq> 0" "ref \<noteq> 0 \<Longrightarrow> ref \<in> vw_globals V j"
  shows "\<exists>j'. release_global J env ref j = Inr j' \<and> vw_globals V j' = vw_globals V j - ({ref} - {0}) \<and>
    vw_locals V j' = vw_locals V j \<and> vw_pending V j' = vw_pending V j \<and>
    same_env J j j'"
  using jni_deletesD(3)[OF assms(1), of ref j] assms(2,3)
  by (cases "ref = 0") (auto simp: release_global_def)

lemma sc_release_owned:
  assumes del: "jni_deletes J V" and att: "attached J j" and c: "sc_valid c"
    and held: "sc_owned c \<subseteq> vw_globals V j"
  shows "\<exists>c' j'. sc_release J c j = Inr (c', j') \<and> sc_owned c' = {} \<and> sc_valid c' \<and>
    \<not> sc_is_initialized c' \<and> vw_globals V j' = vw_globals V j - sc_owned c \<and>
    vw_locals V j' = vw_locals V j \<and> vw_pending V j' = vw_pending V j \<and>
    same_env J j j'"
proof (cases "sc_vm c = 0")
  case True
  then have "sc_span_class c = 0" "sc_string_class c = 0" using c by (simp_all add: sc_valid_def)
  with True show ?thesis
    by (simp add: sc_release_def release_global_def sc_owned_def sc_is_initialized_def sc_valid_def)
next
  case False
  then obtain env where "env \<noteq> 0" "jni_get_env J (sc_vm c) j = Some env"
    using att unfolding attached_def by blast
  with False have env: "env \<noteq> 0" "current_env J (sc_vm c) j = env" by (simp_all add: current_env_def)
  let ?s = "sc_span_class c" and ?t = "sc_string_class c"
  have own: "x \<in> vw_globals V j" if "x = ?s \<or> x = ?t" "x \<noteq> 0" for x
    using subsetD[OF held, of x] that by (simp add: sc_owned_def)
  have "?s \<in> vw_globals V j" if "?s \<noteq> 0" using own that by simp
  from release_global_owned[OF del env(1) this] obtain j1 where j1: "release_global J env ?s j = Inr j1" "vw_globals V j1 = vw_globals V j - ({?s} - {0})"
    "vw_locals V j1 = vw_locals V j" "vw_pending V j1 = vw_pending V j"
    "same_env J j j1"
    by blast
  have "?t \<in> vw_globals V j1" if "?t \<noteq> 0"
  proof -
    have "?t \<in> vw_globals V j" using own that by simp
    moreover have "?t \<noteq> ?s" using c that by (metis sc_valid_def)
    ultimately show ?thesis using j1(2) by simp
  qed
  from release_global_owned[OF del env(1) this] obtain j2 where j2:
    "release_global J env ?t j1 = Inr j2" "vw_globals V j2 = vw_globals V j1 - ({?t} - {0})"
    "vw_locals V j2 = vw_locals V j1" "vw_pending V j2 = vw_pending V j1"
    "same_env J j1 j2"
    by blast
  have "vw_globals V j2 = vw_globals V j - sc_owned c"
    using j1(2) j2(2) by (auto simp: sc_owned_def)
  moreover have "sc_release J c j =
      Inr (c\<lparr>sc_vm := 0, sc_span_class := 0, sc_string_class := 0, sc_span_create := 0\<rparr>, j2)"
    using j1(1) j2(1) env(2) by (simp add: sc_release_def Let_def)
  moreover have "same_env J j j2" using j1(5) j2(5) by (rule same_env_trans)
  ultimately show ?thesis using j1(3,4) j2(3,4) by (simp add: sc_is_initialized_def)
qed

interpretation global_owner: move_only sc_owned "vw_globals V" "\<lambda>j. jni_deletes J V \<and> attached J j"
  sc_valid "sc_destroy J" sc_move "sc_assign J"
  for J V
proof (unfold_locales, goal_cases)
  case (1 k h)
  then obtain c' j' where "sc_release J h k = Inr (c', j')" "vw_globals V j' = vw_globals V k - sc_owned h"
    "same_env J k j'"
    using sc_release_owned[of J V k h] by blast
  with 1 show ?case by (auto simp: sc_destroy_def intro: attached_same_env)
next
  case (4 k a b)
  then obtain c' j' where "sc_release J a k = Inr (c', j')" "vw_globals V j' = vw_globals V k - sc_owned a"
    "same_env J k j'"
    using sc_release_owned[of J V k a] by blast
  with 4 show ?case by (auto simp: sc_assign_def intro: attached_same_env)
qed (auto simp: sc_assign_def sc_move_def)

section \<open>The constructor\<close>

text \<open>
  Functions on classes, called with no exception pending. A global reference that is refused
  is null; the constructor passes it on to \<^verbatim>\<open>GetStaticMethodID\<close>, so its safety rests on
  references being granted.
\<close>

definition jni_classes :: "'j jni \<Rightarrow> ('j, 'o) jvm_view \<Rightarrow> bool" where
  "jni_classes J V \<longleftrightarrow> (\<forall>j. \<not> vw_pending V j \<longrightarrow>
     (\<forall>name. \<exists>r j'. jni_find_class J name j = Inr (r, j') \<and> returns_local V j r j' \<and>
        same_env J j j') \<and>
     (\<forall>r \<in> vw_live V j. \<exists>g j'. jni_new_global_ref J r j = Inr (g, j') \<and>
        vw_locals V j' = vw_locals V j \<and> (vw_pending V j' \<longrightarrow> g = 0) \<and>
        (if g = 0 then vw_globals V j' = vw_globals V j
         else g \<notin> vw_live V j \<and> vw_globals V j' = insert g (vw_globals V j)) \<and>
        same_env J j j') \<and>
     (\<forall>c \<in> vw_live V j. \<forall>name sig. \<exists>m j'. jni_get_static_method_id J c name sig j = Inr (m, j') \<and>
        same_refs V j j' \<and> (vw_pending V j' \<longleftrightarrow> m = 0) \<and>
        same_env J j j') \<and>
     (\<forall>c \<in> vw_live V j. \<forall>ms. \<exists>n j'. jni_register_natives J c ms j = Inr (n, j') \<and>
        same_refs V j j' \<and> (n = 0 \<longrightarrow> \<not> vw_pending V j') \<and>
        same_env J j j'))"

definition grants_globals :: "'j jni \<Rightarrow> bool" where
  "grants_globals J \<longleftrightarrow> (\<forall>r j g j'. jni_new_global_ref J r j = Inr (g, j') \<longrightarrow> g \<noteq> 0)"

lemma jni_classesD:
  assumes "jni_classes J V" "\<not> vw_pending V j"
  shows "\<exists>r j'. jni_find_class J name j = Inr (r, j') \<and> returns_local V j r j' \<and>
        same_env J j j'"
    and "r \<in> vw_live V j \<Longrightarrow> \<exists>g j'. jni_new_global_ref J r j = Inr (g, j') \<and>
        vw_locals V j' = vw_locals V j \<and> (vw_pending V j' \<longrightarrow> g = 0) \<and>
        (if g = 0 then vw_globals V j' = vw_globals V j
         else g \<notin> vw_live V j \<and> vw_globals V j' = insert g (vw_globals V j)) \<and>
        same_env J j j'"
    and "c \<in> vw_live V j \<Longrightarrow> \<exists>m j'. jni_get_static_method_id J c name sig j = Inr (m, j') \<and>
        same_refs V j j' \<and> (vw_pending V j' \<longleftrightarrow> m = 0) \<and>
        same_env J j j'"
    and "c \<in> vw_live V j \<Longrightarrow> \<exists>n j'. jni_register_natives J c ms j = Inr (n, j') \<and>
        same_refs V j j' \<and> (n = 0 \<longrightarrow> \<not> vw_pending V j') \<and>
        same_env J j j'"
  using assms by (auto simp: jni_classes_def)

lemma returns_localD:
  assumes "returns_local V j r j'"
  shows "r = 0 \<Longrightarrow> vw_locals V j' = vw_locals V j \<and> vw_pending V j'"
    and "r \<noteq> 0 \<Longrightarrow> r \<notin> vw_live V j \<and> vw_locals V j' = insert r (vw_locals V j) \<and> \<not> vw_pending V j'"
    and "vw_globals V j' = vw_globals V j" and "same_objects V j j'"
  using assms by (auto simp: returns_local_def)

text \<open>
  One class made global: found, turned into a global reference, the local one deleted. The
  constructor does this twice.
\<close>

lemma class_to_global:
  assumes del: "jni_deletes J V" and cls: "jni_classes J V" and gr: "grants_globals J"
    and np: "\<not> vw_pending V j"
  shows "\<exists>r j1. jni_find_class J name j = Inr (r, j1) \<and>
    (if r = 0 then vw_locals V j1 = vw_locals V j \<and> vw_globals V j1 = vw_globals V j \<and> same_env J j j1
     else \<exists>g j2 j3. jni_new_global_ref J r j1 = Inr (g, j2) \<and> jni_delete_local_ref J r j2 = Inr j3 \<and>
       g \<noteq> 0 \<and> g \<notin> vw_globals V j \<and> vw_locals V j3 = vw_locals V j \<and>
       vw_globals V j3 = insert g (vw_globals V j) \<and> \<not> vw_pending V j3 \<and> same_env J j j3)"
proof -
  from jni_classesD(1)[OF cls np] obtain r j1 where
    f: "jni_find_class J name j = Inr (r, j1)" "returns_local V j r j1" "same_env J j j1"
    by blast
  show ?thesis
  proof (cases "r = 0")
    case True
    with f returns_localD[OF f(2)] show ?thesis by auto
  next
    case False
    note r = returns_localD(2)[OF f(2) False] and gl = returns_localD(3)[OF f(2)]
    have "r \<in> vw_live V j1" "\<not> vw_pending V j1" using r by (simp_all add: vw_live_def)
    from jni_classesD(2)[OF cls this(2,1)] gr obtain g j2 where
      g: "jni_new_global_ref J r j1 = Inr (g, j2)" "g \<noteq> 0" "vw_locals V j2 = vw_locals V j1"
        "\<not> vw_pending V j2" "g \<notin> vw_live V j1" "vw_globals V j2 = insert g (vw_globals V j1)" "same_env J j1 j2"
      unfolding grants_globals_def by metis
    have "r \<in> vw_locals V j2" using r g(3) by simp
    from jni_deletesD(2)[OF del this] obtain j3 where
      d: "jni_delete_local_ref J r j2 = Inr j3" "vw_locals V j3 = vw_locals V j2 - {r}"
        "vw_globals V j3 = vw_globals V j2" "vw_pending V j3 = vw_pending V j2" "same_env J j2 j3"
      by blast
    have "vw_locals V j3 = vw_locals V j" using d(2) g(3) r by (auto simp: vw_live_def)
    moreover have "same_env J j j3" using f(3) g(7) d(5) same_env_trans by metis
    ultimately show ?thesis using f(1) g d gl False by (auto simp: vw_live_def)
  qed
qed

text \<open>
  The constructor never faults, leaves no local reference behind, and owns exactly the global
  references it made, whether or not it ends up initialized.
\<close>

text \<open>With both classes global the method is looked up and the cache owns what was made.\<close>

lemma sc_complete_owned:
  assumes cls: "jni_classes J V" and vm: "vm \<noteq> 0"
    and g: "g \<noteq> 0" "g \<notin> vw_globals V j" "vw_locals V j3 = vw_locals V j"
      "vw_globals V j3 = insert g (vw_globals V j)" "same_env J j j3"
    and h: "h \<noteq> 0" "h \<notin> vw_globals V j3" "vw_globals V k3 = insert h (vw_globals V j3)"
      "vw_locals V k3 = vw_locals V j3" "\<not> vw_pending V k3" "same_env J j3 k3"
  shows "\<exists>m k4. jni_get_static_method_id J g name sig k3 = Inr (m, k4) \<and>
    (let c = \<lparr>sc_vm = vm, sc_span_class = g, sc_string_class = h, sc_span_create = m\<rparr>
     in sc_valid c \<and> sc_owned c \<inter> vw_globals V j = {} \<and>
       vw_globals V k4 = vw_globals V j \<union> sc_owned c \<and> vw_locals V k4 = vw_locals V j \<and>
       (sc_is_initialized c \<longrightarrow> \<not> vw_pending V k4) \<and> same_env J j k4)"
proof -
  have "g \<in> vw_live V k3" using g(4) h(3) by (simp add: vw_live_def)
  from jni_classesD(3)[OF cls h(5) this] obtain m k4 where
    m: "jni_get_static_method_id J g name sig k3 = Inr (m, k4)" "same_refs V k3 k4"
      "vw_pending V k4 \<longleftrightarrow> m = 0" "same_env J k3 k4"
    by blast
  let ?c = "\<lparr>sc_vm = vm, sc_span_class = g, sc_string_class = h, sc_span_create = m\<rparr>"
  have own: "sc_owned ?c = {g, h}" using g(1) h(1) by (auto simp: sc_owned_def)
  have "g \<noteq> h" "h \<notin> vw_globals V j" using h(2) g(4) by auto
  then have "sc_valid ?c" "sc_owned ?c \<inter> vw_globals V j = {}"
    using vm g(1,2) own by (auto simp: sc_valid_def)
  moreover have "vw_globals V k4 = vw_globals V j \<union> sc_owned ?c" "vw_locals V k4 = vw_locals V j"
    using own m(2) h(3,4) g(3,4) by (auto simp: same_refs_def)
  moreover have "same_env J j k4" using g(5) h(6) m(4) same_env_trans by metis
  ultimately show ?thesis using m(1,3) by (auto simp: sc_is_initialized_def)
qed

lemma sc_new_spec:
  assumes del: "jni_deletes J V" and cls: "jni_classes J V" and gr: "grants_globals J"
    and np: "\<not> vw_pending V j" and env: "\<And>vm. jni_get_java_vm J env j = Some vm \<Longrightarrow> vm \<noteq> 0"
  shows "\<exists>c j'. sc_new J env j = Inr (c, j') \<and> sc_valid c \<and> sc_owned c \<inter> vw_globals V j = {} \<and>
    vw_globals V j' = vw_globals V j \<union> sc_owned c \<and> vw_locals V j' = vw_locals V j \<and>
    (sc_is_initialized c \<longrightarrow> \<not> vw_pending V j') \<and> same_env J j j'"
proof (cases "env = 0 \<or> jni_get_java_vm J env j = None")
  case True
  then show ?thesis by (auto simp: sc_new_def)
next
  case False
  then obtain vm where vm: "env \<noteq> 0" "jni_get_java_vm J env j = Some vm" "vm \<noteq> 0" using env by auto
  note c1 = class_to_global[OF del cls gr np, of "''com/google/firebase/crashlytics/telemetry/Span''"]
  then obtain r j1 where r: "jni_find_class J ''com/google/firebase/crashlytics/telemetry/Span'' j = Inr (r, j1)"
    by blast
  show ?thesis
  proof (cases "r = 0")
    case True
    with c1 r vm show ?thesis
      by (auto simp: sc_new_def sc_empty_def sc_owned_def sc_valid_def sc_is_initialized_def)
  next
    case False
    with c1 r obtain g j2 j3 where
      g: "jni_new_global_ref J r j1 = Inr (g, j2)" "jni_delete_local_ref J r j2 = Inr j3"
        "g \<noteq> 0" "g \<notin> vw_globals V j" "vw_locals V j3 = vw_locals V j"
        "vw_globals V j3 = insert g (vw_globals V j)" "\<not> vw_pending V j3" "same_env J j j3"
      by auto
    note c2 = class_to_global[OF del cls gr g(7), of "''java/lang/String''"]
    then obtain s k1 where s: "jni_find_class J ''java/lang/String'' j3 = Inr (s, k1)" by blast
    show ?thesis
    proof (cases "s = 0")
      case True
      with c2 s g vm r False same_env_trans[OF g(8)] show ?thesis
        by (auto simp: sc_new_def sc_empty_def sc_owned_def sc_valid_def sc_is_initialized_def)
    next
      case s0: False
      with c2 s obtain h k2 k3 where
        h: "jni_new_global_ref J s k1 = Inr (h, k2)" "jni_delete_local_ref J s k2 = Inr k3"
          "h \<noteq> 0" "h \<notin> vw_globals V j3" "vw_locals V k3 = vw_locals V j3"
          "vw_globals V k3 = insert h (vw_globals V j3)" "\<not> vw_pending V k3" "same_env J j3 k3"
        by auto
      from sc_complete_owned[OF cls vm(3) g(3-6,8) h(3,4,6,5,7,8), of "''createRecoveredSpan''"
          "''(JJJJJLjava/lang/String;[Ljava/lang/String;)Lcom/google/firebase/crashlytics/telemetry/Span;''"]
      obtain m k4 where m:
        "jni_get_static_method_id J g ''createRecoveredSpan''
           ''(JJJJJLjava/lang/String;[Ljava/lang/String;)Lcom/google/firebase/crashlytics/telemetry/Span;''
           k3 = Inr (m, k4)"
        "let c = \<lparr>sc_vm = vm, sc_span_class = g, sc_string_class = h, sc_span_create = m\<rparr>
         in sc_valid c \<and> sc_owned c \<inter> vw_globals V j = {} \<and>
           vw_globals V k4 = vw_globals V j \<union> sc_owned c \<and> vw_locals V k4 = vw_locals V j \<and>
           (sc_is_initialized c \<longrightarrow> \<not> vw_pending V k4) \<and> same_env J j k4"
        by blast
      have "sc_new J env j = Inr
          (\<lparr>sc_vm = vm, sc_span_class = g, sc_string_class = h, sc_span_create = m\<rparr>, k4)"
        using vm r False g(1,2) s s0 h(1,2) m(1) by (simp add: sc_new_def sc_empty_def)
      with m(2) show ?thesis by (simp add: Let_def)
    qed
  qed
qed

end
