(* ===== verification/Jni_Strings.thy ===== *)
theory Jni_Strings
  imports Jni_Refs Span_Model
begin

text \<open>
  \<^verbatim>\<open>managed_jstring.h\<close>: strings that cross the interface, each bounded by the size of the field
  it comes from or goes to. \<^verbatim>\<open>NewStringUTF\<close> takes modified UTF-8 only.
\<close>

section \<open>The functions\<close>

definition create_bounded_jstring ::
    "'j jni \<Rightarrow> nat \<Rightarrow> nat \<Rightarrow> bytes \<Rightarrow> 'j \<Rightarrow> (jref \<times> 'j) res" where
  "create_bounded_jstring J MaxLen env str j =
     (if env = 0 then Inr (0, j)
      else if length str < MaxLen then
        res_bind (c_str (str @ [0])) (\<lambda>s. jni_new_string_utf J s j)
      else
        let buf = copy_string MaxLen str (replicate MaxLen 0)
        in res_bind (c_str buf) (\<lambda>s. jni_new_string_utf J s j))"

definition jstring_to_string ::
    "'j jni \<Rightarrow> nat \<Rightarrow> jref \<Rightarrow> nat \<Rightarrow> 'j \<Rightarrow> (bytes \<times> 'j) res" where
  "jstring_to_string J env src max_len j =
     (if src = 0 \<or> env = 0 then Inr ([], j)
      else
        res_bind (jni_get_string_utf_chars J src j) (\<lambda>(utf_chars, j).
          case utf_chars of
            None \<Rightarrow> Inr ([], j)
          | Some utf_chars \<Rightarrow>
              res_bind (jni_get_string_utf_length J src j) (\<lambda>n.
                let len = nat (max n 0)
                in if length utf_chars < min len max_len then Inl Out_Of_Bounds
                   else
                     let result = take (min len max_len) utf_chars
                     in res_map (\<lambda>j. (result, j)) (jni_release_string_utf_chars J src j))))"

text \<open>\<^verbatim>\<open>ManagedJString<MaxLen>\<close>: its constructor from a C++ string and its conversion to one.\<close>

definition new_jstring :: "'j jni \<Rightarrow> nat \<Rightarrow> nat \<Rightarrow> bytes \<Rightarrow> 'j \<Rightarrow> (local_ref \<times> 'j) res" where
  "new_jstring J MaxLen env str j =
     res_map (\<lambda>(v, j). (lr_new env v, j)) (create_bounded_jstring J MaxLen env str j)"

definition jstring_string :: "'j jni \<Rightarrow> nat \<Rightarrow> local_ref \<Rightarrow> 'j \<Rightarrow> (bytes \<times> 'j) res" where
  "jstring_string J MaxLen h j = jstring_to_string J (lr_env h) (lr_value h) MaxLen j"

section \<open>Modified UTF-8\<close>

text \<open>
  Characters of one to three bytes, zero not among them; characters beyond the basic plane
  are two of three bytes each, so the four-byte form does not occur.
\<close>

fun modified_utf8 :: "bytes \<Rightarrow> bool" where
  "modified_utf8 [] \<longleftrightarrow> True"
| "modified_utf8 (a # bs) \<longleftrightarrow>
     (if a < 0x80 then a \<noteq> 0 \<and> modified_utf8 bs
      else if a AND 0xe0 = 0xc0 then
        (case bs of b # rest \<Rightarrow> is_utf8_continuation_byte b \<and> modified_utf8 rest | [] \<Rightarrow> False)
      else if a AND 0xf0 = 0xe0 then
        (case bs of
           b # c # rest \<Rightarrow>
             is_utf8_continuation_byte b \<and> is_utf8_continuation_byte c \<and> modified_utf8 rest
         | _ \<Rightarrow> False)
      else False)"

lemma modified_utf8_no_nul: "modified_utf8 b \<Longrightarrow> 0 \<notin> set b"
  by (induction b rule: modified_utf8.induct)
    (auto simp: is_utf8_continuation_byte_def split: if_splits list.splits)

text \<open>It is made of characters that the truncation respects.\<close>

lemma ascii_no_continuation: "a < 0x80 \<Longrightarrow> \<not> is_utf8_continuation_byte a"
  by (simp add: is_utf8_continuation_byte_iff word_less_nat_alt)

lemma lead_no_continuation:
  "a AND 0xe0 = 0xc0 \<Longrightarrow> \<not> is_utf8_continuation_byte a"
  "a AND 0xf0 = 0xe0 \<Longrightarrow> \<not> is_utf8_continuation_byte a"
proof -
  have *: "(a AND x) AND 0xc0 = (a AND 0xc0)" if "x AND 0xc0 = 0xc0" for x :: byte
    using that by (simp add: and.assoc)
  show "a AND 0xe0 = 0xc0 \<Longrightarrow> \<not> is_utf8_continuation_byte a"
    using *[of "0xe0"] by (auto simp: is_utf8_continuation_byte_def)
  show "a AND 0xf0 = 0xe0 \<Longrightarrow> \<not> is_utf8_continuation_byte a"
    using *[of "0xf0"] by (auto simp: is_utf8_continuation_byte_def)
qed

lemma modified_utf8_chars:
  "modified_utf8 b \<Longrightarrow> \<exists>cs. b = concat cs \<and> list_all utf8_char cs \<and>
     (\<forall>k. modified_utf8 (concat (take k cs)))"
proof (induction b rule: modified_utf8.induct)
  case 1
  then show ?case by (intro exI[of _ "[]"]) simp
next
  case (2 a bs)
  have cons: "\<exists>cs. c @ rest = concat cs \<and> list_all utf8_char cs \<and> (\<forall>k. modified_utf8 (concat (take k cs)))"
    if "utf8_char c" "\<And>x. modified_utf8 x \<Longrightarrow> modified_utf8 (c @ x)"
      "\<exists>cs. rest = concat cs \<and> list_all utf8_char cs \<and> (\<forall>k. modified_utf8 (concat (take k cs)))"
    for c rest
  proof -
    from that(3) obtain cs where cs: "rest = concat cs" "list_all utf8_char cs"
      "\<And>k. modified_utf8 (concat (take k cs))"
      by blast
    have "modified_utf8 (concat (take k (c # cs)))" for k
      using that(2) cs(3) by (cases k) simp_all
    with cs that(1) show ?thesis by (intro exI[of _ "c # cs"]) simp
  qed
  consider (one) "a < 0x80" | (two) "\<not> a < 0x80" "a AND 0xe0 = 0xc0"
    | (three) "\<not> a < 0x80" "a AND 0xe0 \<noteq> 0xc0" "a AND 0xf0 = 0xe0"
    using 2(4) by (auto split: if_splits)
  then show ?case
  proof cases
    case one
    with 2(4) have a: "a \<noteq> 0" "modified_utf8 bs" by simp_all
    have "utf8_char [a]" "\<And>x. modified_utf8 x \<Longrightarrow> modified_utf8 ([a] @ x)"
      using a one by (simp_all add: utf8_char_def ascii_no_continuation)
    from cons[OF this 2(1)[OF one a(2)]] show ?thesis by simp
  next
    case two
    with 2(4) obtain b rest where b: "bs = b # rest" "is_utf8_continuation_byte b" "modified_utf8 rest"
      by (auto split: list.splits)
    have "utf8_char [a, b]" "\<And>x. modified_utf8 x \<Longrightarrow> modified_utf8 ([a, b] @ x)"
      using b two by (simp_all add: utf8_char_def lead_no_continuation)
    from cons[OF this 2(2)[OF two b(1,3)]] b(1) show ?thesis by simp
  next
    case three
    with 2(4) obtain b c rest where b: "bs = b # c # rest" "is_utf8_continuation_byte b"
      "is_utf8_continuation_byte c" "modified_utf8 rest"
      by (auto split: list.splits)
    have "utf8_char [a, b, c]" "\<And>x. modified_utf8 x \<Longrightarrow> modified_utf8 ([a, b, c] @ x)"
      using b three by (simp_all add: utf8_char_def lead_no_continuation)
    from cons[OF this 2(3)[OF three b(1) refl b(4)]] b(1) show ?thesis by simp
  qed
qed

lemma modified_utf8_trunc:
  assumes "0 < N" "modified_utf8 b"
  shows "modified_utf8 (utf8_trunc N b)"
proof -
  from modified_utf8_chars[OF assms(2)] obtain cs where
    cs: "b = concat cs" "list_all utf8_char cs" "\<And>k. modified_utf8 (concat (take k cs))"
    by blast
  obtain k where "utf8_fit (N - 1) cs = take k cs" using utf8_fit_prefix by blast
  with utf8_trunc_chars[OF assms(1) cs(2)] cs(1,3) show ?thesis by simp
qed

section \<open>What the documentation says of strings\<close>

definition jni_strings :: "'j jni \<Rightarrow> ('j, 'o) jvm_view \<Rightarrow> bool" where
  "jni_strings J V \<longleftrightarrow> (\<forall>j.
     (\<not> vw_pending V j \<longrightarrow>
       (\<forall>b. modified_utf8 b \<longrightarrow> (\<exists>r j'. jni_new_string_utf J b j = Inr (r, j') \<and>
          returns_local V j r j' \<and> same_elems V j j' \<and> same_env J j j' \<and>
          (r \<noteq> 0 \<longrightarrow> vw_text V (vw_object V r j') = b))) \<and>
       (\<forall>s \<in> vw_live V j. \<exists>c j'. jni_get_string_utf_chars J s j = Inr (c, j') \<and>
          same_refs V j j' \<and> same_elems V j j' \<and> same_env J j j' \<and> (vw_pending V j' \<longleftrightarrow> c = None) \<and>
          (case c of None \<Rightarrow> True | Some buf \<Rightarrow> prefix (vw_text V (vw_object V s j) @ [0]) buf)) \<and>
       (\<forall>s \<in> vw_live V j.
          jni_get_string_utf_length J s j = Inr (int (length (vw_text V (vw_object V s j)))))) \<and>
     (\<forall>s \<in> vw_live V j. \<exists>j'. jni_release_string_utf_chars J s j = Inr j' \<and>
        same_refs V j j' \<and> same_elems V j j' \<and> same_env J j j' \<and> vw_pending V j' = vw_pending V j))"

lemma jni_stringsD:
  assumes "jni_strings J V"
  shows "\<not> vw_pending V j \<Longrightarrow> modified_utf8 b \<Longrightarrow> \<exists>r j'. jni_new_string_utf J b j = Inr (r, j') \<and>
      returns_local V j r j' \<and> same_elems V j j' \<and> same_env J j j' \<and>
      (r \<noteq> 0 \<longrightarrow> vw_text V (vw_object V r j') = b)"
    and "\<not> vw_pending V j \<Longrightarrow> s \<in> vw_live V j \<Longrightarrow> \<exists>c j'. jni_get_string_utf_chars J s j = Inr (c, j') \<and>
      same_refs V j j' \<and> same_elems V j j' \<and> same_env J j j' \<and> (vw_pending V j' \<longleftrightarrow> c = None) \<and>
      (case c of None \<Rightarrow> True | Some buf \<Rightarrow> prefix (vw_text V (vw_object V s j) @ [0]) buf)"
    and "\<not> vw_pending V j \<Longrightarrow> s \<in> vw_live V j \<Longrightarrow>
      jni_get_string_utf_length J s j = Inr (int (length (vw_text V (vw_object V s j))))"
    and "s \<in> vw_live V j \<Longrightarrow> \<exists>j'. jni_release_string_utf_chars J s j = Inr j' \<and>
      same_refs V j j' \<and> same_elems V j j' \<and> same_env J j j' \<and> vw_pending V j' = vw_pending V j"
  using assms by (auto simp: jni_strings_def)

lemma create_bounded_jstring_spec:
  assumes str: "jni_strings J V" and np: "\<not> vw_pending V j" and env: "env \<noteq> 0" and N: "0 < N"
    and utf: "modified_utf8 s"
  shows "\<exists>r j'. create_bounded_jstring J N env s j = Inr (r, j') \<and> returns_local V j r j' \<and>
    same_elems V j j' \<and> (r \<noteq> 0 \<longrightarrow> vw_text V (vw_object V r j') = utf8_trunc N s)"
proof -
  have nul: "0 \<notin> set s" using utf by (rule modified_utf8_no_nul)
  have "takeWhile (\<lambda>c. c \<noteq> 0) (utf8_trunc N s) = utf8_trunc N s"
    using nul set_mono_prefix[OF prefix_utf8_trunc[of N s]] by (auto simp: takeWhile_eq_all_conv)
  then have "c_str (copy_string N s (replicate N 0)) = Inr (utf8_trunc N s)"
    using c_str_copy_string[OF N, of "replicate N 0" s] by simp
  moreover have "c_str (s @ [0]) = Inr s" using nul by (auto simp: c_str_def takeWhile_append)
  ultimately have "create_bounded_jstring J N env s j = jni_new_string_utf J (utf8_trunc N s) j"
    using env by (simp add: create_bounded_jstring_def utf8_trunc_short)
  with jni_stringsD(1)[OF str np modified_utf8_trunc[OF N utf]] show ?thesis by metis
qed

text \<open>A string read back is the text of the object, cut at a byte.\<close>

lemma jstring_to_string_spec:
  assumes str: "jni_strings J V" and np: "\<not> vw_pending V j" and src: "src = 0 \<or> src \<in> vw_live V j"
  shows "\<exists>s j'. jstring_to_string J env src max_len j = Inr (s, j') \<and> same_refs V j j' \<and>
    same_elems V j j' \<and> same_env J j j' \<and>
    (vw_pending V j' \<longrightarrow> jni_get_string_utf_chars J src j = Inr (None, j')) \<and>
    (if src = 0 \<or> env = 0 then s = [] \<and> \<not> vw_pending V j'
     else if vw_pending V j' then s = []
     else s = take max_len (vw_text V (vw_object V src j)))"
proof (cases "src = 0 \<or> env = 0")
  case True
  with np show ?thesis by (auto simp: jstring_to_string_def same_refs_def same_objects_def)
next
  case False
  then have live: "src \<in> vw_live V j" using src by simp
  let ?t = "vw_text V (vw_object V src j)"
  from jni_stringsD(2)[OF str np live] obtain c j1 where c: "jni_get_string_utf_chars J src j = Inr (c, j1)"
    "same_refs V j j1" "same_elems V j j1" "same_env J j j1" "vw_pending V j1 \<longleftrightarrow> c = None"
    "case c of None \<Rightarrow> True | Some buf \<Rightarrow> prefix (?t @ [0]) buf"
    by blast
  show ?thesis
  proof (cases c)
    case None
    with c False show ?thesis by (simp add: jstring_to_string_def)
  next
    case (Some buf)
    then obtain junk where buf: "buf = ?t @ 0 # junk" using c(6) by (auto simp: prefix_def)
    have np1: "\<not> vw_pending V j1" using c(5) Some by simp
    have live1: "src \<in> vw_live V j1" using live c(2) by (simp add: vw_live_def same_refs_def)
    have obj: "vw_object V src j1 = vw_object V src j"
      using c(2) live live1 by (simp add: same_refs_def same_objects_def)
    from jni_stringsD(4)[OF str live1] obtain j2 where j2: "jni_release_string_utf_chars J src j1 = Inr j2"
      "same_refs V j1 j2" "same_elems V j1 j2" "same_env J j1 j2" "vw_pending V j2 = vw_pending V j1"
      by blast
    have take: "take (min (length ?t) max_len) buf = take max_len ?t"
      "\<not> length buf < min (length ?t) max_len"
      by (simp_all add: buf min_def)
    have len: "jni_get_string_utf_length J src j1 = Inr (int (length ?t))"
      using jni_stringsD(3)[OF str np1 live1] obj by simp
    have "jstring_to_string J env src max_len j = Inr (take max_len ?t, j2)"
      using False c(1) take by (simp only: jstring_to_string_def Some len j2(1) Let_def
          res_bind.simps res_map.simps split_conv option.case max_0L nat_int of_nat_0_le_iff
          max_absorb1 if_False simp_thms)
    moreover have "same_refs V j j2" "same_elems V j j2" "same_env J j j2"
      by (rule same_refs_trans[OF c(2) j2(2)], rule same_elems_trans[OF c(2,3) j2(3)],
          rule same_env_trans[OF c(4) j2(4)])
    moreover have "\<not> vw_pending V j2" using j2(5) np1 by simp
    ultimately show ?thesis
      using False by (intro exI[of _ "take max_len ?t"] exI[of _ j2]) simp
  qed
qed

end
