(* ===== verification/Android_Natives.thy ===== *)
theory Android_Natives
  imports Jclass_Cache Jni_Strings Initialize_Model
begin

text \<open>
  \<^verbatim>\<open>android_span_data.cpp\<close>: the native methods of \<^verbatim>\<open>PersistenceContext\<close> and \<^verbatim>\<open>MutationContext\<close>
  over the process of \<open>Initialize_Model\<close>, the conversion of spans and attributes to Java
  objects and back, and the loading and unloading of the library. A context travels through
  Java as a number, zero for null. Destructors of the managed references are written where
  C++ runs them.
\<close>

section \<open>Constants and tables\<close>

definition max_span_name_len :: nat where "max_span_name_len = 64"
definition max_attribute_key_len :: nat where "max_attribute_key_len = 64"
definition max_attribute_val_len :: nat where "max_attribute_val_len = 128"
definition max_file_path_len :: nat where "max_file_path_len = 4096"

lemmas jni_limits = max_span_name_len_def max_attribute_key_len_def max_attribute_val_len_def

definition persistence_methods :: "(string \<times> string) list" where
  "persistence_methods =
     [(''initializeNative'', ''(Ljava/lang/String;I)J''),
      (''recoverSpansNative'', ''(J)[Lcom/google/firebase/crashlytics/telemetry/Span;''),
      (''shutdownNative'', ''(J)V'')]"

definition mutable_methods :: "(string \<times> string) list" where
  "mutable_methods =
     [(''addSpanNative'', ''(JJJJJJLjava/lang/String;[Ljava/lang/String;)V''),
      (''endSpanNative'', ''(JJ)V''),
      (''setAttributeOnSpanNative'', ''(JJLjava/lang/String;Ljava/lang/String;)V''),
      (''countSpansNative'', ''(J)J'')]"

text \<open>\<^verbatim>\<open>static_cast<jsize>\<close>.\<close>

definition jsize_of :: "nat \<Rightarrow> int" where
  "jsize_of n = sint (of_nat n :: 32 word)"

definition JNI_OK :: int where "JNI_OK = 0"
definition JNI_ERR :: int where "JNI_ERR = - 1"
definition JNI_VERSION_1_6 :: int where "JNI_VERSION_1_6 = 0x00010006"

section \<open>Spans to Java\<close>

text \<open>The loop over the attributes, with the position of the next pair.\<close>

fun write_jni_attributes ::
    "'j jni \<Rightarrow> nat \<Rightarrow> jref \<Rightarrow> attributes_list \<Rightarrow> int \<Rightarrow> 'j \<Rightarrow> 'j res" where
  "write_jni_attributes J env arr [] index j = Inr j"
| "write_jni_attributes J env arr ((key, val) # kvs) index j =
     res_bind (new_jstring J max_attribute_key_len env key j) (\<lambda>(jkey, j).
       res_bind (new_jstring J max_attribute_val_len env val j) (\<lambda>(jval, j).
         res_bind
           (if lr_bool jkey \<and> lr_bool jval then
              res_bind (jni_set_object_array_element J arr index (lr_value jkey) j) (\<lambda>j.
                res_map (\<lambda>j. (index + 2, j))
                  (jni_set_object_array_element J arr (index + 1) (lr_value jval) j))
            else Inr (index, j))
           (\<lambda>(index, j).
             res_bind (lr_destroy J jval j) (\<lambda>j.
               res_bind (lr_destroy J jkey j) (\<lambda>j.
                 write_jni_attributes J env arr kvs index j)))))"

definition span_numbers :: "span \<Rightarrow> u64 list" where
  "span_numbers s =
     [ti_high (sp_trace_id s), ti_low (sp_trace_id s), sp_span_id s, sp_parent_span_id s,
      sp_start_time s]"

definition create_jni_span_object ::
    "'j jni \<Rightarrow> span_jclass_cache \<Rightarrow> nat \<Rightarrow> span \<Rightarrow> 'j \<Rightarrow> (local_ref \<times> 'j) res" where
  "create_jni_span_object J g env s j =
     (if \<not> sc_is_initialized g then Inr (lr_empty, j)
      else
        res_bind (new_jstring J max_span_name_len env (sp_name s) j) (\<lambda>(name, j).
          if \<not> lr_bool name then res_map (\<lambda>j. (lr_empty, j)) (lr_destroy J name j)
          else
            let total_elements = jsize_of (length (sp_attributes s) * 2)
            in res_bind (jni_new_object_array J total_elements (sc_string_class g) j) (\<lambda>(v, j).
                 let attributes = lr_new env v
                 in if \<not> lr_bool attributes then
                      res_bind (lr_destroy J attributes j) (\<lambda>j.
                        res_map (\<lambda>j. (lr_empty, j)) (lr_destroy J name j))
                    else
                      res_bind (write_jni_attributes J env (lr_value attributes) (sp_attributes s) 0 j)
                        (\<lambda>j.
                          res_bind (jni_call_create_span J (sc_span_class g) (sc_span_create g)
                              (span_numbers s) (lr_value name) (lr_value attributes) j) (\<lambda>(v, j).
                            let recovered_span_obj = lr_new env v
                            in res_bind (lr_destroy J attributes j) (\<lambda>j.
                                 res_map (\<lambda>j. (recovered_span_obj, j)) (lr_destroy J name j)))))))"

fun fill_spans_array ::
    "'j jni \<Rightarrow> span_jclass_cache \<Rightarrow> nat \<Rightarrow> jref \<Rightarrow> span list \<Rightarrow> int \<Rightarrow> 'j \<Rightarrow> 'j res" where
  "fill_spans_array J g env arr [] i j = Inr j"
| "fill_spans_array J g env arr (s # ss) i j =
     res_bind (create_jni_span_object J g env s j) (\<lambda>(jspan, j).
       res_bind
         (if lr_bool jspan then
            res_map (\<lambda>j. (i + 1, j)) (jni_set_object_array_element J arr i (lr_value jspan) j)
          else Inr (i, j))
         (\<lambda>(i, j). res_bind (lr_destroy J jspan j) (\<lambda>j. fill_spans_array J g env arr ss i j)))"

definition create_jni_span_objects_array ::
    "'j jni \<Rightarrow> span_jclass_cache \<Rightarrow> nat \<Rightarrow> span list \<Rightarrow> 'j \<Rightarrow> (jref \<times> 'j) res" where
  "create_jni_span_objects_array J g env spans j =
     (if \<not> sc_is_initialized g then Inr (0, j)
      else
        let size = jsize_of (length spans)
        in res_bind (jni_new_object_array J size (sc_span_class g) j) (\<lambda>(spans_array, j).
             if spans_array = 0 then Inr (0, j)
             else res_map (\<lambda>j. (spans_array, j)) (fill_spans_array J g env spans_array spans 0 j)))"

section \<open>Attributes from Java\<close>

text \<open>The loop over the pairs; \<open>n\<close> is the number of pairs left and \<open>i\<close> the index of the value.\<close>

definition parse_pair ::
    "'j jni \<Rightarrow> nat \<Rightarrow> jref \<Rightarrow> int \<Rightarrow> attributes_list \<Rightarrow> 'j \<Rightarrow> (attributes_list \<times> 'j) res" where
  "parse_pair J env arr i attrs j =
     res_bind (jni_get_object_array_element J arr (i - 1) j) (\<lambda>(key, j).
       res_bind (jni_get_object_array_element J arr i j) (\<lambda>(val, j).
         let jkey = lr_new env key; jval = lr_new env val
         in res_bind
              (if lr_bool jkey \<and> lr_bool jval then
                 res_bind (jstring_string J max_attribute_key_len jkey j) (\<lambda>(k, j).
                   res_map (\<lambda>(v, j). (attrs @ [(k, v)], j))
                     (jstring_string J max_attribute_val_len jval j))
               else Inr (attrs, j))
              (\<lambda>(attrs, j).
                res_bind (lr_destroy J jval j) (\<lambda>j.
                  res_map (\<lambda>j. (attrs, j)) (lr_destroy J jkey j)))))"

fun parse_loop ::
    "'j jni \<Rightarrow> nat \<Rightarrow> jref \<Rightarrow> nat \<Rightarrow> int \<Rightarrow> attributes_list \<Rightarrow> 'j \<Rightarrow> (attributes_list \<times> 'j) res" where
  "parse_loop J env arr 0 i attrs j = Inr (attrs, j)"
| "parse_loop J env arr (Suc n) i attrs j =
     res_bind (parse_pair J env arr i attrs j) (\<lambda>(attrs, j).
       parse_loop J env arr n (i + 2) attrs j)"

definition parse_jni_attributes ::
    "'j jni \<Rightarrow> nat \<Rightarrow> jref \<Rightarrow> 'j \<Rightarrow> (attributes_list \<times> 'j) res" where
  "parse_jni_attributes J env attributes j =
     (if attributes = 0 then Inr ([], j)
      else res_bind (jni_get_array_length J attributes j) (\<lambda>len.
             parse_loop J env attributes (nat (len div 2)) 1 [] j))"

section \<open>PersistenceContext\<close>

text \<open>
  The ordinal is widened with its sign. \<open>os\<close> gives the outcomes of the system calls for a
  path, \<open>addr\<close> the address of a new context.
\<close>

definition initialize_native ::
    "'j jni \<Rightarrow> (bytes \<Rightarrow> os_results) \<Rightarrow> nat \<Rightarrow> nat \<Rightarrow> jref \<Rightarrow> 32 word \<Rightarrow> process \<Rightarrow> 'j \<Rightarrow>
      (nat \<times> process \<times> 'j) res" where
  "initialize_native J os addr env file_path size_ordinal pr j =
     (if file_path = 0 then Inr (0, pr, j)
      else
        let mmap_size = scast size_ordinal
        in res_bind (jstring_to_string J env file_path max_file_path_len j) (\<lambda>(path, j).
             res_map (\<lambda>(context_ptr, pr). (context_ptr, pr, j)) (pr_initialize (os path) addr mmap_size pr)))"

definition recover_spans_native ::
    "'j jni \<Rightarrow> span_jclass_cache \<Rightarrow> nat \<Rightarrow> nat \<Rightarrow> process \<Rightarrow> 'j \<Rightarrow> (jref \<times> process \<times> 'j) res" where
  "recover_spans_native J g env context_ptr pr j =
     res_bind (get_recovered_spans context_ptr pr) (\<lambda>(recovered_spans, pr).
       res_map (\<lambda>(arr, j). (arr, pr, j)) (create_jni_span_objects_array J g env recovered_spans j))"

definition shutdown_native :: "nat \<Rightarrow> process \<Rightarrow> process res" where
  "shutdown_native context_ptr pr = res_map snd (release_span_data context_ptr pr)"

section \<open>MutationContext\<close>

text \<open>Each call fetches the writer; null, for a context not yet recovered, ends the call.\<close>

definition add_span ::
    "'j jni \<Rightarrow> nat \<Rightarrow> nat \<Rightarrow> trace_id \<Rightarrow> u64 \<Rightarrow> u64 \<Rightarrow> u64 \<Rightarrow> jref \<Rightarrow> jref \<Rightarrow> process \<Rightarrow> 'j \<Rightarrow>
      (process \<times> 'j) res" where
  "add_span J env context_ptr trace_id span_id parent_span_id start_time name attributes pr j =
     res_bind (get_mutable_span_data context_ptr pr) (\<lambda>w.
       if w = 0 then Inr (pr, j)
       else
         res_bind (jstring_to_string J env name max_span_name_len j) (\<lambda>(name, j).
           res_bind (parse_jni_attributes J env attributes j) (\<lambda>(attributes, j).
             res_bind (make_span trace_id span_id parent_span_id start_time 0 name attributes) (\<lambda>s.
               res_map (\<lambda>pr. (pr, j)) (pr_write w (Op_Add s) pr)))))"

text \<open>\<open>now\<close> is the clock read for the missing end time.\<close>

definition end_span :: "u64 \<Rightarrow> nat \<Rightarrow> u64 \<Rightarrow> process \<Rightarrow> process res" where
  "end_span now context_ptr span_id pr =
     res_bind (get_mutable_span_data context_ptr pr) (\<lambda>w.
       if w = 0 then Inr pr else pr_write w (Op_End now span_id 0) pr)"

definition set_attribute_on_span ::
    "'j jni \<Rightarrow> nat \<Rightarrow> nat \<Rightarrow> u64 \<Rightarrow> jref \<Rightarrow> jref \<Rightarrow> process \<Rightarrow> 'j \<Rightarrow> (process \<times> 'j) res" where
  "set_attribute_on_span J env context_ptr span_id key val pr j =
     res_bind (get_mutable_span_data context_ptr pr) (\<lambda>w.
       if w = 0 then Inr (pr, j)
       else
         res_bind (jstring_to_string J env key max_attribute_key_len j) (\<lambda>(key, j).
           res_bind (jstring_to_string J env val max_attribute_val_len j) (\<lambda>(val, j).
             res_map (\<lambda>pr. (pr, j)) (pr_write w (Op_Set_Attribute span_id key val) pr))))"

definition count_mutable_spans :: "nat \<Rightarrow> process \<Rightarrow> u64 res" where
  "count_mutable_spans context_ptr pr =
     res_bind (get_mutable_span_data context_ptr pr) (\<lambda>w. if w = 0 then Inr 0 else pr_count w pr)"

section \<open>Loading and unloading\<close>

text \<open>\<open>g\<close> is the global cache before the call; the result has the cache after it.\<close>

definition cache_jni_globals ::
    "'j jni \<Rightarrow> nat \<Rightarrow> span_jclass_cache \<Rightarrow> 'j \<Rightarrow> (int \<times> span_jclass_cache \<times> 'j) res" where
  "cache_jni_globals J env g j =
     res_bind (sc_new J env j) (\<lambda>(span_cache, j).
       if \<not> sc_is_initialized span_cache then
         res_map (\<lambda>j. (JNI_ERR, g, j)) (sc_destroy J span_cache j)
       else
         res_bind (sc_assign J False g span_cache j) (\<lambda>(g, span_cache, j).
           res_map (\<lambda>j. (JNI_OK, g, j)) (sc_destroy J span_cache j)))"

text \<open>One table: find the class, register, delete the local reference.\<close>

definition register_table ::
    "'j jni \<Rightarrow> string \<Rightarrow> (string \<times> string) list \<Rightarrow> 'j \<Rightarrow> (int \<times> 'j) res" where
  "register_table J name methods j =
     res_bind (jni_find_class J name j) (\<lambda>(clazz, j).
       if clazz = 0 then Inr (JNI_ERR, j)
       else
         res_bind (jni_register_natives J clazz methods j) (\<lambda>(reg, j).
           res_map (\<lambda>j. (if reg \<noteq> JNI_OK then JNI_ERR else JNI_OK, j))
             (jni_delete_local_ref J clazz j)))"

definition register_natives ::
    "'j jni \<Rightarrow> nat \<Rightarrow> span_jclass_cache \<Rightarrow> 'j \<Rightarrow> (int \<times> span_jclass_cache \<times> 'j) res" where
  "register_natives J env g j =
     res_bind (cache_jni_globals J env g j) (\<lambda>(r, g, j).
       if r \<noteq> JNI_OK then Inr (JNI_ERR, g, j)
       else
         res_bind (register_table J ''com/google/firebase/crashlytics/telemetry/PersistenceContext''
             persistence_methods j) (\<lambda>(r, j).
           if r \<noteq> JNI_OK then Inr (JNI_ERR, g, j)
           else
             res_map (\<lambda>(r, j). (if r \<noteq> JNI_OK then JNI_ERR else JNI_OK, g, j))
               (register_table J ''com/google/firebase/crashlytics/telemetry/MutationContext''
                 mutable_methods j)))"

definition jni_on_load ::
    "'j jni \<Rightarrow> nat \<Rightarrow> span_jclass_cache \<Rightarrow> 'j \<Rightarrow> (int \<times> span_jclass_cache \<times> 'j) res" where
  "jni_on_load J vm g j =
     (case jni_get_env J vm j of
        None \<Rightarrow> Inr (JNI_ERR, g, j)
      | Some env \<Rightarrow>
          res_map (\<lambda>(r, g, j). (if r = JNI_OK then JNI_VERSION_1_6 else JNI_ERR, g, j))
            (register_natives J env g j))"

definition jni_on_unload ::
    "'j jni \<Rightarrow> span_jclass_cache \<Rightarrow> 'j \<Rightarrow> (span_jclass_cache \<times> 'j) res" where
  "jni_on_unload J g j = sc_release J g j"

end
