(* ===== verification/Jni_Frames.thy ===== *)
theory Jni_Frames
  imports Android_Natives
begin

text \<open>
  What a stretch of native code leaves behind: the references it adds, and the arrays it may
  have written. The rules for single calls and their composition, and the assumptions on
  arrays and span objects, for the conversions of \<open>Android_Natives\<close>.
\<close>

section \<open>What the documentation says of arrays and of the creation of spans\<close>

definition jni_arrays :: "'j jni \<Rightarrow> ('j, 'o) jvm_view \<Rightarrow> bool" where
  "jni_arrays J V \<longleftrightarrow> (\<forall>j. \<not> vw_pending V j \<longrightarrow>
     (\<forall>n. \<forall>c \<in> vw_live V j. 0 \<le> n \<longrightarrow> (\<exists>r j'. jni_new_object_array J n c j = Inr (r, j') \<and>
        returns_local V j r j' \<and> same_elems V j j' \<and>
        (r \<noteq> 0 \<longrightarrow> vw_object V r j' \<notin> (\<lambda>s. vw_object V s j) ` vw_live V j \<and>
           vw_elems V (vw_object V r j') j' = replicate (nat n) None))) \<and>
     (\<forall>a \<in> vw_live V j. jni_get_array_length J a j = Inr (int (length (vw_elems V (vw_object V a j) j))) \<and>
       (\<forall>i < length (vw_elems V (vw_object V a j) j).
         (\<exists>r j'. jni_get_object_array_element J a (int i) j = Inr (r, j') \<and> same_elems V j j' \<and>
            (case vw_elems V (vw_object V a j) j ! i of
               None \<Rightarrow> r = 0 \<and> same_refs V j j' \<and> \<not> vw_pending V j'
             | Some x \<Rightarrow> returns_local V j r j' \<and> (r \<noteq> 0 \<longrightarrow> vw_object V r j' = x))) \<and>
         (\<forall>r \<in> vw_live V j. \<exists>j'. jni_set_object_array_element J a (int i) r j = Inr j' \<and>
            same_refs V j j' \<and> \<not> vw_pending V j' \<and>
            (\<forall>s \<in> vw_live V j. vw_elems V (vw_object V s j) j' =
               (if vw_object V s j = vw_object V a j
                then (vw_elems V (vw_object V s j) j)[i := Some (vw_object V r j)]
                else vw_elems V (vw_object V s j) j))))))"

text \<open>The contents of an array of strings.\<close>

definition vw_texts :: "('j, 'o) jvm_view \<Rightarrow> jref \<Rightarrow> 'j \<Rightarrow> bytes option list" where
  "vw_texts V a j = map (map_option (vw_text V)) (vw_elems V (vw_object V a j) j)"

definition jni_creates :: "'j jni \<Rightarrow> ('j, 'o) jvm_view \<Rightarrow> bool" where
  "jni_creates J V \<longleftrightarrow> (\<forall>j m ns. \<forall>c \<in> vw_live V j. \<forall>name \<in> vw_live V j. \<forall>attrs \<in> vw_live V j.
     \<not> vw_pending V j \<longrightarrow> m \<noteq> 0 \<longrightarrow> (\<exists>r j'. jni_call_create_span J c m ns name attrs j = Inr (r, j') \<and>
       returns_local V j r j' \<and> same_elems V j j' \<and>
       (r \<noteq> 0 \<longrightarrow> vw_made_by V (vw_object V r j') =
          (ns, vw_text V (vw_object V name j), vw_texts V attrs j))))"

definition jni_sound :: "'j jni \<Rightarrow> ('j, 'o) jvm_view \<Rightarrow> bool" where
  "jni_sound J V \<longleftrightarrow> jni_deletes J V \<and> jni_classes J V \<and> jni_strings J V \<and> jni_arrays J V \<and>
     jni_creates J V"

text \<open>Memory for strings, arrays, elements and spans, and spans that Java agrees to create.\<close>

definition jni_allocates :: "'j jni \<Rightarrow> ('j, 'o) jvm_view \<Rightarrow> bool" where
  "jni_allocates J V \<longleftrightarrow>
     (\<forall>b j r j'. jni_new_string_utf J b j = Inr (r, j') \<longrightarrow> r \<noteq> 0) \<and>
     (\<forall>s j c j'. jni_get_string_utf_chars J s j = Inr (c, j') \<longrightarrow> c \<noteq> None) \<and>
     (\<forall>n c j r j'. jni_new_object_array J n c j = Inr (r, j') \<longrightarrow> r \<noteq> 0) \<and>
     (\<forall>c m ns n a j r j'. jni_call_create_span J c m ns n a j = Inr (r, j') \<longrightarrow> r \<noteq> 0) \<and>
     (\<forall>a i j j'. \<not> vw_pending V j \<longrightarrow> jni_get_object_array_element J a i j = Inr (0, j') \<longrightarrow>
        \<not> vw_pending V j')"

section \<open>Frames\<close>

text \<open>
  From \<open>j\<close> to \<open>j'\<close> the local references \<open>L\<close> were added, no exception is pending, all older
  references are as they were, and so are the arrays behind them, those in \<open>A\<close> excepted.
\<close>

definition frame :: "('j, 'o) jvm_view \<Rightarrow> 'o set \<Rightarrow> jref set \<Rightarrow> 'j \<Rightarrow> 'j \<Rightarrow> bool" where
  "frame V A L j j' \<longleftrightarrow> vw_locals V j' = vw_locals V j \<union> L \<and> L \<inter> vw_live V j = {} \<and>
     vw_globals V j' = vw_globals V j \<and> \<not> vw_pending V j' \<and>
     (\<forall>r \<in> vw_live V j. vw_object V r j' = vw_object V r j \<and>
        (vw_object V r j \<in> A \<or> vw_elems V (vw_object V r j) j' = vw_elems V (vw_object V r j) j))"

lemma frameD:
  assumes "frame V A L j j'"
  shows "vw_live V j' = vw_live V j \<union> L" and "\<not> vw_pending V j'" and "L \<inter> vw_live V j = {}"
    and "vw_locals V j' = vw_locals V j \<union> L" and "vw_globals V j' = vw_globals V j"
    and "r \<in> vw_live V j \<Longrightarrow> vw_object V r j' = vw_object V r j"
    and "r \<in> vw_live V j \<Longrightarrow> vw_object V r j \<notin> A \<Longrightarrow>
      vw_elems V (vw_object V r j) j' = vw_elems V (vw_object V r j) j"
  using assms by (auto simp: frame_def vw_live_def)

lemma frame_refl: "\<not> vw_pending V j \<Longrightarrow> frame V A {} j j"
  by (simp add: frame_def)

lemma frame_mono: "frame V A L j j' \<Longrightarrow> A \<subseteq> B \<Longrightarrow> frame V B L j j'"
  by (auto simp: frame_def)

text \<open>Arrays that no older reference reaches do not count.\<close>

lemma frame_restrict:
  "frame V A L j j' \<Longrightarrow> (\<And>r. r \<in> vw_live V j \<Longrightarrow> vw_object V r j \<in> A \<Longrightarrow> vw_object V r j \<in> B) \<Longrightarrow>
     frame V B L j j'"
  by (auto simp: frame_def)

lemma frame_trans:
  assumes f: "frame V A L j j1" and g: "frame V A M j1 j2"
  shows "frame V A (L \<union> M) j j2"
  unfolding frame_def
proof (intro conjI ballI)
  show "vw_locals V j2 = vw_locals V j \<union> (L \<union> M)" using frameD(4)[OF f] frameD(4)[OF g] by auto
  show "(L \<union> M) \<inter> vw_live V j = {}" using frameD(1,3)[OF f] frameD(3)[OF g] by auto
  show "vw_globals V j2 = vw_globals V j" using frameD(5)[OF f] frameD(5)[OF g] by simp
  show "\<not> vw_pending V j2" using frameD(2)[OF g] .
  fix r assume r: "r \<in> vw_live V j"
  then have r1: "r \<in> vw_live V j1" using frameD(1)[OF f] by simp
  note o = frameD(6)[OF f r] frameD(6)[OF g r1]
  show "vw_object V r j2 = vw_object V r j" using o by simp
  show "vw_object V r j \<in> A \<or> vw_elems V (vw_object V r j) j2 = vw_elems V (vw_object V r j) j"
    using frameD(7)[OF f r] frameD(7)[OF g r1] o by auto
qed

lemma frame_returns_local:
  assumes "returns_local V j r j'" "r \<noteq> 0" "same_elems V j j'"
  shows "frame V {} {r} j j'"
  using assms returns_localD[OF assms(1)]
  by (auto simp: frame_def same_objects_def vw_live_def same_elems_def)

lemma frame_same_refs:
  assumes "same_refs V j j'" "same_elems V j j'" "\<not> vw_pending V j'"
  shows "frame V {} {} j j'"
  using assms same_refs_live[OF assms(1)]
  by (simp add: frame_def same_refs_def same_objects_def same_elems_def)

text \<open>A managed reference goes out of scope.\<close>

lemma frame_destroy:
  assumes del: "jni_deletes J V" and f: "frame V A L j j1" and env: "env \<noteq> 0" and v: "v = 0 \<or> v \<in> L"
  shows "\<exists>j2. lr_destroy J (lr_new env v) j1 = Inr j2 \<and> frame V A (L - {v}) j j2 \<and>
    (\<forall>r \<in> vw_live V j1 - {v}. vw_object V r j2 = vw_object V r j1) \<and>
    (\<forall>r \<in> vw_live V j1. vw_elems V (vw_object V r j1) j2 = vw_elems V (vw_object V r j1) j1)"
proof -
  have "lr_owned (lr_new env v) \<subseteq> vw_locals V j1" using v frameD(4)[OF f] env by auto
  from lr_destroy_owned[OF del this] obtain j2 where d: "lr_destroy J (lr_new env v) j1 = Inr j2"
    "vw_locals V j2 = vw_locals V j1 - ({v} - {0})" "vw_globals V j2 = vw_globals V j1"
    "vw_pending V j2 = vw_pending V j1" "same_objects V j1 j2" "same_elems V j1 j2"
    using env by auto
  have z: "0 \<notin> vw_live V j1" using jni_deletesD(1)[OF del] .
  have vj: "v \<notin> vw_live V j" using v z frameD(1,3)[OF f] by auto
  then have vg: "v \<notin> vw_globals V j1" using frameD(5)[OF f] by (simp add: vw_live_def)
  have live2: "vw_live V j2 = vw_live V j1 - {v}" using d(2,3) vg z by (auto simp: vw_live_def)
  have obj: "vw_object V r j2 = vw_object V r j1" if "r \<in> vw_live V j1 - {v}" for r
    using d(5) that live2 by (auto simp: same_objects_def)
  have elems: "vw_elems V (vw_object V r j1) j2 = vw_elems V (vw_object V r j1) j1" if "r \<in> vw_live V j1" for r
    using same_elemsD[OF d(6) that] .
  have "frame V A (L - {v}) j j2"
    unfolding frame_def
  proof (intro conjI ballI)
    show "vw_locals V j2 = vw_locals V j \<union> (L - {v})"
      using d(2) frameD(4)[OF f] vj z frameD(1)[OF f] by (auto simp: vw_live_def)
    show "(L - {v}) \<inter> vw_live V j = {}" using frameD(3)[OF f] by auto
    show "vw_globals V j2 = vw_globals V j" using d(3) frameD(5)[OF f] by simp
    show "\<not> vw_pending V j2" using d(4) frameD(2)[OF f] by simp
    fix r assume r: "r \<in> vw_live V j"
    then have r1: "r \<in> vw_live V j1" "r \<noteq> v" using frameD(1)[OF f] vj by auto
    show "vw_object V r j2 = vw_object V r j" using obj[of r] r1 frameD(6)[OF f r] by simp
    show "vw_object V r j \<in> A \<or> vw_elems V (vw_object V r j) j2 = vw_elems V (vw_object V r j) j"
      using elems[OF r1(1)] frameD(6,7)[OF f r] by auto
  qed
  with d(1) obj elems show ?thesis by blast
qed

end
