(* ===== verification/Android_Laws.thy ===== *)
theory Android_Laws
  imports Jni_Frames
begin

text \<open>
  The native methods against their contract: recovered spans become Java objects one by one,
  spans and attributes from Java arrive as if they had not been cut on the way, no reference
  is left behind, and loading and unloading the library balance.
\<close>

section \<open>Strings\<close>

lemma jni_soundD:
  assumes "jni_sound J V"
  shows "jni_deletes J V" "jni_classes J V" "jni_strings J V" "jni_arrays J V" "jni_creates J V"
  using assms by (simp_all add: jni_sound_def)

lemma jni_limits_pos [simp]:
  "0 < max_span_name_len" "0 < max_attribute_key_len" "0 < max_attribute_val_len"
  by (simp_all add: jni_limits)

lemma new_jstring_frame:
  assumes J: "jni_sound J V" and al: "jni_allocates J V" and np: "\<not> vw_pending V j"
    and env: "env \<noteq> 0" and N: "0 < N" and s: "modified_utf8 s"
  shows "\<exists>v j'. new_jstring J N env s j = Inr (lr_new env v, j') \<and> v \<noteq> 0 \<and> frame V {} {v} j j' \<and>
    vw_text V (vw_object V v j') = utf8_trunc N s"
proof -
  from create_bounded_jstring_spec[OF jni_soundD(3)[OF J] np env N s] obtain r j' where
    r: "create_bounded_jstring J N env s j = Inr (r, j')" "returns_local V j r j'" "same_elems V j j'"
      "r \<noteq> 0 \<longrightarrow> vw_text V (vw_object V r j') = utf8_trunc N s"
    by blast
  have "r \<noteq> 0"
    using r(1) al env by (auto simp: create_bounded_jstring_def jni_allocates_def res_bind_Inr_iff
        Let_def split: if_splits)
  with r frame_returns_local[OF r(2) _ r(3)] show ?thesis
    by (intro exI[of _ r] exI[of _ j']) (simp add: new_jstring_def)
qed

text \<open>Two managed references at the end of their scope, in the order of the destructors.\<close>

lemma two_destroyed:
  assumes J: "jni_deletes J V" and f: "frame V A (insert v (insert w L)) j j1" and env: "env \<noteq> 0"
    and vw: "v \<noteq> w" "v \<notin> L" "w \<notin> L"
  shows "\<exists>j2 j3. lr_destroy J (lr_new env w) j1 = Inr j2 \<and> lr_destroy J (lr_new env v) j2 = Inr j3 \<and>
    frame V A L j j3 \<and>
    (\<forall>r \<in> vw_live V j \<union> L. vw_object V r j3 = vw_object V r j1 \<and>
       vw_elems V (vw_object V r j1) j3 = vw_elems V (vw_object V r j1) j1)"
proof -
  from frame_destroy[OF J f env, of w] obtain j2 where d2: "lr_destroy J (lr_new env w) j1 = Inr j2"
    "frame V A (insert v (insert w L) - {w}) j j2"
    "\<forall>r \<in> vw_live V j1 - {w}. vw_object V r j2 = vw_object V r j1"
    "\<forall>r \<in> vw_live V j1. vw_elems V (vw_object V r j1) j2 = vw_elems V (vw_object V r j1) j1"
    by auto
  have l2: "insert v (insert w L) - {w} = insert v L" using vw by auto
  from frame_destroy[OF J d2(2)[unfolded l2] env, of v] obtain j3 where d3:
    "lr_destroy J (lr_new env v) j2 = Inr j3" "frame V A (insert v L - {v}) j j3"
    "\<forall>r \<in> vw_live V j2 - {v}. vw_object V r j3 = vw_object V r j2"
    "\<forall>r \<in> vw_live V j2. vw_elems V (vw_object V r j2) j3 = vw_elems V (vw_object V r j2) j2"
    by auto
  have l3: "insert v L - {v} = L" using vw by auto
  have "vw_object V r j3 = vw_object V r j1 \<and>
      vw_elems V (vw_object V r j1) j3 = vw_elems V (vw_object V r j1) j1" if "r \<in> vw_live V j \<union> L" for r
  proof -
    have "r \<in> vw_live V j1 - {w}" "r \<in> vw_live V j2 - {v}"
      using that vw frameD(1,3)[OF f] frameD(1)[OF d2(2)[unfolded l2]] by auto
    with d2(3,4) d3(3,4) show ?thesis by (metis DiffD1)
  qed
  with d2(1) d3(1) d3(2)[unfolded l3] show ?thesis by blast
qed

section \<open>Attributes to Java\<close>

definition jni_texts :: "attributes_list \<Rightarrow> bytes option list" where
  "jni_texts kvs = concat (map (\<lambda>(k, v). [Some (utf8_trunc max_attribute_key_len k),
     Some (utf8_trunc max_attribute_val_len v)]) kvs)"

lemma length_jni_texts [simp]: "length (jni_texts kvs) = 2 * length kvs"
  by (induction kvs) (auto simp: jni_texts_def)

lemma jni_texts_Cons:
  "jni_texts ((k, v) # kvs) = Some (utf8_trunc max_attribute_key_len k) #
     Some (utf8_trunc max_attribute_val_len v) # jni_texts kvs"
  by (simp add: jni_texts_def)

text \<open>Setting one element, seen through a frame.\<close>

lemma set_element_frame:
  assumes J: "jni_sound J V" and f: "frame V {A} L j j1" and a: "a \<in> vw_live V j1" "vw_object V a j1 = A"
    and r: "r \<in> vw_live V j1" and i: "i < length (vw_elems V A j1)"
  shows "\<exists>j2. jni_set_object_array_element J a (int i) r j1 = Inr j2 \<and> frame V {A} L j j2 \<and>
    same_refs V j1 j2 \<and> vw_elems V A j2 = (vw_elems V A j1)[i := Some (vw_object V r j1)]"
proof -
  from jni_soundD(4)[OF J] frameD(2)[OF f] a r i obtain j2 where s:
    "jni_set_object_array_element J a (int i) r j1 = Inr j2" "same_refs V j1 j2" "\<not> vw_pending V j2"
    "\<forall>s \<in> vw_live V j1. vw_elems V (vw_object V s j1) j2 =
       (if vw_object V s j1 = vw_object V a j1
        then (vw_elems V (vw_object V s j1) j1)[i := Some (vw_object V r j1)]
        else vw_elems V (vw_object V s j1) j1)"
    unfolding jni_arrays_def by blast
  have "frame V {A} {} j1 j2"
    using s(2-4) a(2) same_refs_live[OF s(2)]
    by (auto simp: frame_def same_refs_def same_objects_def)
  from frame_trans[OF f this] s a show ?thesis by auto
qed

lemma pair_strings:
  assumes J: "jni_sound J V" and al: "jni_allocates J V" and np: "\<not> vw_pending V j"
    and env: "env \<noteq> 0" and utf: "modified_utf8 k" "modified_utf8 v"
  shows "\<exists>rk rv j1 j2. new_jstring J max_attribute_key_len env k j = Inr (lr_new env rk, j1) \<and>
    new_jstring J max_attribute_val_len env v j1 = Inr (lr_new env rv, j2) \<and>
    rk \<noteq> 0 \<and> rv \<noteq> 0 \<and> rk \<noteq> rv \<and> frame V {} {rk, rv} j j2 \<and>
    vw_text V (vw_object V rk j2) = utf8_trunc max_attribute_key_len k \<and>
    vw_text V (vw_object V rv j2) = utf8_trunc max_attribute_val_len v"
proof -
  from new_jstring_frame[OF J al np env jni_limits_pos(2) utf(1)] obtain rk j1 where
    rk: "new_jstring J max_attribute_key_len env k j = Inr (lr_new env rk, j1)" "rk \<noteq> 0"
      "frame V {} {rk} j j1" "vw_text V (vw_object V rk j1) = utf8_trunc max_attribute_key_len k"
    by blast
  from new_jstring_frame[OF J al frameD(2)[OF rk(3)] env jni_limits_pos(3) utf(2)] obtain rv j2 where
    rv: "new_jstring J max_attribute_val_len env v j1 = Inr (lr_new env rv, j2)" "rv \<noteq> 0"
      "frame V {} {rv} j1 j2" "vw_text V (vw_object V rv j2) = utf8_trunc max_attribute_val_len v"
    by blast
  have "frame V {} {rk, rv} j j2" using frame_trans[OF rk(3) rv(3)] by (simp add: insert_commute)
  moreover have "vw_object V rk j2 = vw_object V rk j1"
    using frameD(6)[OF rv(3), of rk] frameD(1)[OF rk(3)] by simp
  moreover have "rk \<noteq> rv" using frameD(1)[OF rk(3)] frameD(3)[OF rv(3)] by auto
  ultimately show ?thesis using rk rv by auto
qed

lemma pair_stored:
  assumes J: "jni_sound J V" and f: "frame V {A} L j j1" and a: "a \<in> vw_live V j" "vw_object V a j = A"
    and r: "r \<in> L" "s \<in> L" and i: "Suc i < length (vw_elems V A j1)"
  shows "\<exists>j2 j3. jni_set_object_array_element J a (int i) r j1 = Inr j2 \<and>
    jni_set_object_array_element J a (int i + 1) s j2 = Inr j3 \<and> frame V {A} L j j3 \<and>
    vw_elems V A j3 = (vw_elems V A j1)[i := Some (vw_object V r j1), Suc i := Some (vw_object V s j1)]"
proof -
  have a1: "a \<in> vw_live V j1" "vw_object V a j1 = A" and r1: "r \<in> vw_live V j1" "s \<in> vw_live V j1"
    using a r frameD(1,6)[OF f] by auto
  have i1: "i < length (vw_elems V A j1)" using i by simp
  from set_element_frame[OF J f a1 r1(1) i1] obtain j2 where
    s2: "jni_set_object_array_element J a (int i) r j1 = Inr j2" "frame V {A} L j j2" "same_refs V j1 j2"
      "vw_elems V A j2 = (vw_elems V A j1)[i := Some (vw_object V r j1)]"
    by blast
  have keep: "x \<in> vw_live V j2 \<and> vw_object V x j2 = vw_object V x j1" if "x \<in> vw_live V j1" for x
    using s2(3) that same_refs_live[OF s2(3)] by (simp add: same_refs_def same_objects_def)
  have i2: "Suc i < length (vw_elems V A j2)" using i s2(4) by simp
  from set_element_frame[OF J s2(2) _ _ _ i2, of a s] keep a1 r1(2) obtain j3 where
    "jni_set_object_array_element J a (int (Suc i)) s j2 = Inr j3" "frame V {A} L j j3"
    "vw_elems V A j3 = (vw_elems V A j2)[Suc i := Some (vw_object V s j2)]"
    by auto
  with s2 keep[OF r1(2)] show ?thesis by (auto simp: add.commute)
qed

lemma write_jni_attributes_frame:
  assumes J: "jni_sound J V" and al: "jni_allocates J V" and env: "env \<noteq> 0"
  shows "\<not> vw_pending V j \<Longrightarrow> a \<in> vw_live V j \<Longrightarrow> vw_object V a j = A \<Longrightarrow>
    i + 2 * length kvs = length (vw_elems V A j) \<Longrightarrow>
    list_all (\<lambda>(k, v). modified_utf8 k \<and> modified_utf8 v) kvs \<Longrightarrow>
    \<exists>j'. write_jni_attributes J env a kvs (int i) j = Inr j' \<and> frame V {A} {} j j' \<and>
      map (map_option (vw_text V)) (vw_elems V A j') =
        map (map_option (vw_text V)) (take i (vw_elems V A j)) @ jni_texts kvs"
proof (induction kvs arbitrary: i j)
  case Nil
  then show ?case by (auto simp: frame_refl jni_texts_def)
next
  case (Cons kv kvs)
  obtain k v where kv: "kv = (k, v)" by fastforce
  note a = Cons.prems(2,3)
  have utf: "modified_utf8 k" "modified_utf8 v" using Cons.prems(5) kv by simp_all
  from pair_strings[OF J al Cons.prems(1) env utf] obtain rk rv j1 j2 where
    p: "new_jstring J max_attribute_key_len env k j = Inr (lr_new env rk, j1)"
      "new_jstring J max_attribute_val_len env v j1 = Inr (lr_new env rv, j2)"
      "rk \<noteq> 0" "rv \<noteq> 0" "rk \<noteq> rv" "frame V {} {rk, rv} j j2"
      "vw_text V (vw_object V rk j2) = utf8_trunc max_attribute_key_len k"
      "vw_text V (vw_object V rv j2) = utf8_trunc max_attribute_val_len v"
    by blast
  have e2: "vw_elems V A j2 = vw_elems V A j" using frameD(7)[OF p(6), of a] a by simp
  have f2: "frame V {A} {rk, rv} j j2" using frame_mono[OF p(6)] by simp
  have i2: "Suc i < length (vw_elems V A j2)" using Cons.prems(4) e2 by simp
  from pair_stored[OF J f2 a _ _ i2, of rk rv] obtain j3 j4 where
    s: "jni_set_object_array_element J a (int i) rk j2 = Inr j3"
      "jni_set_object_array_element J a (int i + 1) rv j3 = Inr j4" "frame V {A} {rk, rv} j j4"
      "vw_elems V A j4 = (vw_elems V A j2)[i := Some (vw_object V rk j2), Suc i := Some (vw_object V rv j2)]"
    by auto
  from two_destroyed[OF jni_soundD(1)[OF J] s(3) env p(5)] obtain j5 j6 where
    d: "lr_destroy J (lr_new env rv) j4 = Inr j5" "lr_destroy J (lr_new env rk) j5 = Inr j6"
      "frame V {A} {} j j6"
      "\<forall>r \<in> vw_live V j. vw_object V r j6 = vw_object V r j4 \<and>
         vw_elems V (vw_object V r j4) j6 = vw_elems V (vw_object V r j4) j4"
    by auto
  have a6: "a \<in> vw_live V j6" "vw_object V a j6 = A" using a frameD(1,6)[OF d(3)] by auto
  have e6: "vw_elems V A j6 = (vw_elems V A j)[i := Some (vw_object V rk j2), Suc i := Some (vw_object V rv j2)]"
    using d(4) a a6(2) s(4) e2 by force
  have len: "(i + 2) + 2 * length kvs = length (vw_elems V A j6)" using Cons.prems(4) e6 by simp
  have "list_all (\<lambda>(k, v). modified_utf8 k \<and> modified_utf8 v) kvs" using Cons.prems(5) by simp
  from Cons.IH[OF frameD(2)[OF d(3)] a6 len this] obtain j7 where
    r: "write_jni_attributes J env a kvs (int (i + 2)) j6 = Inr j7" "frame V {A} {} j6 j7"
      "map (map_option (vw_text V)) (vw_elems V A j7) =
         map (map_option (vw_text V)) (take (i + 2) (vw_elems V A j6)) @ jni_texts kvs"
    by blast
  have "write_jni_attributes J env a (kv # kvs) (int i) j = Inr j7"
    using p(1-4) s(1,2) d(1,2) r(1) kv by (simp add: add.commute)
  moreover have "take (i + 2) (vw_elems V A j6) =
      take i (vw_elems V A j) @ [Some (vw_object V rk j2), Some (vw_object V rv j2)]"
    using Cons.prems(4) unfolding e6 by (simp add: take_Suc_conv_app_nth)
  ultimately show ?case
    using frame_trans[OF d(3) r(2)] r(3) p(7,8) kv by (auto simp: jni_texts_Cons)
qed

section \<open>Spans to Java\<close>

text \<open>What a span has to be for \<^verbatim>\<open>NewStringUTF\<close>, and the arguments its Java object is made from.\<close>

definition span_utf8 :: "span \<Rightarrow> bool" where
  "span_utf8 s \<longleftrightarrow> modified_utf8 (sp_name s) \<and> length (sp_attributes s) \<le> 128 \<and>
     list_all (\<lambda>(k, v). modified_utf8 k \<and> modified_utf8 v) (sp_attributes s)"

definition jni_span :: "span \<Rightarrow> u64 list \<times> bytes \<times> bytes option list" where
  "jni_span s = (span_numbers s, utf8_trunc max_span_name_len (sp_name s), jni_texts (sp_attributes s))"

lemma jsize_of_small: "n < 2 ^ 31 \<Longrightarrow> jsize_of n = int n"
  unfolding jsize_of_def by (simp add: signed_of_nat signed_take_bit_int_eq_self)

text \<open>The cache is loaded: both classes are live everywhere.\<close>

definition cache_live :: "('j, 'o) jvm_view \<Rightarrow> span_jclass_cache \<Rightarrow> 'j \<Rightarrow> bool" where
  "cache_live V g j \<longleftrightarrow> sc_is_initialized g \<and> sc_owned g \<subseteq> vw_globals V j"

lemma cache_liveD:
  assumes "cache_live V g j" "frame V A L j j'"
  shows "sc_span_class g \<in> vw_live V j'" "sc_string_class g \<in> vw_live V j'" "sc_span_create g \<noteq> 0"
    and "cache_live V g j'"
proof -
  have g: "sc_is_initialized g" "sc_owned g \<subseteq> vw_globals V j'"
    using assms(1) frameD(5)[OF assms(2)] by (simp_all add: cache_live_def)
  then have "sc_span_class g \<in> sc_owned g" "sc_string_class g \<in> sc_owned g"
    by (simp_all add: sc_is_initialized_def sc_owned_def)
  with g show "sc_span_class g \<in> vw_live V j'" "sc_string_class g \<in> vw_live V j'"
    "sc_span_create g \<noteq> 0" "cache_live V g j'"
    by (auto simp: vw_live_def sc_is_initialized_def cache_live_def)
qed

lemma new_object_array_frame:
  assumes J: "jni_sound J V" and al: "jni_allocates J V" and np: "\<not> vw_pending V j"
    and c: "c \<in> vw_live V j" and n: "n < 2 ^ 31"
  shows "\<exists>a j'. jni_new_object_array J (jsize_of n) c j = Inr (a, j') \<and> a \<noteq> 0 \<and> frame V {} {a} j j' \<and>
    vw_object V a j' \<notin> (\<lambda>s. vw_object V s j) ` vw_live V j \<and>
    vw_elems V (vw_object V a j') j' = replicate n None"
proof -
  from jni_soundD(4)[OF J] np c of_nat_0_le_iff[of n] have "\<exists>a j'. jni_new_object_array J (int n) c j = Inr (a, j') \<and>
      returns_local V j a j' \<and> same_elems V j j' \<and>
      (a \<noteq> 0 \<longrightarrow> vw_object V a j' \<notin> (\<lambda>s. vw_object V s j) ` vw_live V j \<and>
         vw_elems V (vw_object V a j') j' = replicate (nat (int n)) None)"
    unfolding jni_arrays_def by blast
  then obtain a j' where a: "jni_new_object_array J (int n) c j = Inr (a, j')" "returns_local V j a j'"
    "same_elems V j j'" "a \<noteq> 0 \<longrightarrow> vw_object V a j' \<notin> (\<lambda>s. vw_object V s j) ` vw_live V j \<and>
         vw_elems V (vw_object V a j') j' = replicate n None"
    by auto
  have "a \<noteq> 0" using al a(1) unfolding jni_allocates_def by blast
  with a frame_returns_local[OF a(2) _ a(3)] jsize_of_small[OF n] show ?thesis by auto
qed

text \<open>One span: a single new reference, to an object made from the span.\<close>

text \<open>The name and the array of attributes, made and filled.\<close>

lemma span_parts_frame:
  assumes J: "jni_sound J V" and al: "jni_allocates J V" and np: "\<not> vw_pending V j"
    and env: "env \<noteq> 0" and g: "cache_live V g j" and s: "span_utf8 s"
  shows "\<exists>n j1 a j2 j3. new_jstring J max_span_name_len env (sp_name s) j = Inr (lr_new env n, j1) \<and> n \<noteq> 0 \<and>
    jni_new_object_array J (jsize_of (length (sp_attributes s) * 2)) (sc_string_class g) j1 = Inr (a, j2) \<and>
    a \<noteq> 0 \<and> a \<noteq> n \<and> write_jni_attributes J env a (sp_attributes s) 0 j2 = Inr j3 \<and>
    frame V {vw_object V a j3} {n, a} j j3 \<and>
    vw_object V a j3 \<notin> (\<lambda>r. vw_object V r j) ` vw_live V j \<and>
    vw_text V (vw_object V n j3) = utf8_trunc max_span_name_len (sp_name s) \<and>
    map (map_option (vw_text V)) (vw_elems V (vw_object V a j3) j3) = jni_texts (sp_attributes s)"
proof -
  have utf: "modified_utf8 (sp_name s)" "length (sp_attributes s) * 2 < 2 ^ 31"
    "list_all (\<lambda>(k, v). modified_utf8 k \<and> modified_utf8 v) (sp_attributes s)"
    using s by (simp_all add: span_utf8_def)
  from new_jstring_frame[OF J al np env jni_limits_pos(1) utf(1)] obtain n j1 where
    n: "new_jstring J max_span_name_len env (sp_name s) j = Inr (lr_new env n, j1)" "n \<noteq> 0"
      "frame V {} {n} j j1" "vw_text V (vw_object V n j1) = utf8_trunc max_span_name_len (sp_name s)"
    by blast
  note g1 = cache_liveD[OF g n(3)]
  from new_object_array_frame[OF J al frameD(2)[OF n(3)] g1(2) utf(2)] obtain a j2 where
    a: "jni_new_object_array J (jsize_of (length (sp_attributes s) * 2)) (sc_string_class g) j1 = Inr (a, j2)"
      "a \<noteq> 0" "frame V {} {a} j1 j2" "vw_object V a j2 \<notin> (\<lambda>r. vw_object V r j1) ` vw_live V j1"
      "vw_elems V (vw_object V a j2) j2 = replicate (length (sp_attributes s) * 2) None"
    by blast
  let ?A = "vw_object V a j2"
  have f2: "frame V {} {n, a} j j2" using frame_trans[OF n(3) a(3)] by (simp add: insert_commute)
  have na: "a \<noteq> n" using frameD(1)[OF n(3)] frameD(3)[OF a(3)] by auto
  have a2: "a \<in> vw_live V j2" "0 + 2 * length (sp_attributes s) = length (vw_elems V ?A j2)"
    using frameD(1)[OF f2] a(5) by simp_all
  from write_jni_attributes_frame[OF J al env frameD(2)[OF f2] a2(1) refl a2(2) utf(3)] obtain j3 where
    w: "write_jni_attributes J env a (sp_attributes s) 0 j2 = Inr j3" "frame V {?A} {} j2 j3"
      "map (map_option (vw_text V)) (vw_elems V ?A j3) = jni_texts (sp_attributes s)"
    by auto
  have f3: "frame V {?A} {n, a} j j3" using frame_trans[OF frame_mono[OF f2] w(2)] by simp
  have o3: "vw_object V n j3 = vw_object V n j1" "vw_object V a j3 = ?A"
    using frameD(6)[OF w(2), of n] frameD(6)[OF a(3), of n] frameD(6)[OF w(2), of a]
      frameD(1)[OF n(3)] frameD(1)[OF f2] by simp_all
  have "?A \<notin> (\<lambda>r. vw_object V r j) ` vw_live V j"
  proof
    assume "?A \<in> (\<lambda>r. vw_object V r j) ` vw_live V j"
    then obtain x where "x \<in> vw_live V j" "vw_object V x j = ?A" by auto
    then have "vw_object V x j1 = ?A" "x \<in> vw_live V j1" using frameD(1,6)[OF n(3)] by auto
    with a(4) show False by (metis imageI)
  qed
  with n(1,2,4) a(1,2) na w(1,3) f3 o3 show ?thesis
    by (intro exI[of _ n] exI[of _ j1] exI[of _ a] exI[of _ j2] exI[of _ j3]) simp
qed

lemma create_jni_span_object_frame:
  assumes J: "jni_sound J V" and al: "jni_allocates J V" and np: "\<not> vw_pending V j"
    and env: "env \<noteq> 0" and g: "cache_live V g j" and s: "span_utf8 s"
  shows "\<exists>r j'. create_jni_span_object J g env s j = Inr (lr_new env r, j') \<and> r \<noteq> 0 \<and>
    frame V {} {r} j j' \<and> vw_made_by V (vw_object V r j') = jni_span s"
proof -
  note del = jni_soundD(1)[OF J]
  from span_parts_frame[OF J al np env g s] obtain n j1 a j2 j3 where
    p: "new_jstring J max_span_name_len env (sp_name s) j = Inr (lr_new env n, j1)" "n \<noteq> 0"
      "jni_new_object_array J (jsize_of (length (sp_attributes s) * 2)) (sc_string_class g) j1 = Inr (a, j2)"
      "a \<noteq> 0" "a \<noteq> n" "write_jni_attributes J env a (sp_attributes s) 0 j2 = Inr j3"
    and f3: "frame V {vw_object V a j3} {n, a} j j3"
    and v: "vw_object V a j3 \<notin> (\<lambda>r. vw_object V r j) ` vw_live V j"
      "vw_text V (vw_object V n j3) = utf8_trunc max_span_name_len (sp_name s)"
      "map (map_option (vw_text V)) (vw_elems V (vw_object V a j3) j3) = jni_texts (sp_attributes s)"
    by blast
  have live3: "n \<in> vw_live V j3" "a \<in> vw_live V j3" using frameD(1)[OF f3] by simp_all
  note g3 = cache_liveD[OF g f3]
  from jni_soundD(5)[OF J] g3(1,3) live3 frameD(2)[OF f3] obtain r j4 where
    r: "jni_call_create_span J (sc_span_class g) (sc_span_create g) (span_numbers s) n a j3 = Inr (r, j4)"
      "returns_local V j3 r j4" "same_elems V j3 j4"
      "r \<noteq> 0 \<longrightarrow> vw_made_by V (vw_object V r j4) =
        (span_numbers s, vw_text V (vw_object V n j3), vw_texts V a j3)"
    unfolding jni_creates_def by blast
  have r0: "r \<noteq> 0" using al r(1) unfolding jni_allocates_def by blast
  note fr = frame_returns_local[OF r(2) r0 r(3)]
  have "frame V {vw_object V a j3} (insert n (insert a {r})) j j4"
    using frame_trans[OF f3 frame_mono[OF fr]] by (simp add: insert_commute)
  then have f4: "frame V {} (insert n (insert a {r})) j j4"
    by (rule frame_restrict) (use v(1) in \<open>metis imageI singletonD\<close>)
  have rn: "n \<notin> {r}" "a \<notin> {r}" using frameD(3)[OF fr] live3 by auto
  from two_destroyed[OF del f4 env p(5)[symmetric] rn] obtain j5 j6 where
    d: "lr_destroy J (lr_new env a) j4 = Inr j5" "lr_destroy J (lr_new env n) j5 = Inr j6"
      "frame V {} {r} j j6" "vw_object V r j6 = vw_object V r j4"
    by auto
  have "create_jni_span_object J g env s j = Inr (lr_new env r, j6)"
    using g p(1-4,6) r(1) d(1,2)
    by (simp add: create_jni_span_object_def cache_live_def Let_def)
  moreover have "vw_made_by V (vw_object V r j6) = jni_span s"
    using r(4) r0 d(4) v(2,3) by (simp add: jni_span_def vw_texts_def)
  ultimately show ?thesis using r0 d(3) by blast
qed

text \<open>The loop over the spans fills the array from position \<open>i\<close> on.\<close>

lemma fill_spans_array_frame:
  assumes J: "jni_sound J V" and al: "jni_allocates J V" and env: "env \<noteq> 0"
  shows "\<not> vw_pending V j \<Longrightarrow> a \<in> vw_live V j \<Longrightarrow> vw_object V a j = A \<Longrightarrow> cache_live V g j \<Longrightarrow>
    i + length ss \<le> length (vw_elems V A j) \<Longrightarrow> list_all span_utf8 ss \<Longrightarrow>
    \<exists>obs j'. fill_spans_array J g env a ss (int i) j = Inr j' \<and> frame V {A} {} j j' \<and>
      map (vw_made_by V) obs = map jni_span ss \<and>
      vw_elems V A j' = take i (vw_elems V A j) @ map Some obs @ drop (i + length ss) (vw_elems V A j)"
proof (induction ss arbitrary: i j)
  case Nil
  then show ?case by (intro exI[of _ "[]"] exI[of _ j]) (simp add: frame_refl)
next
  case (Cons s ss)
  note np = Cons.prems(1) and a = Cons.prems(2,3) and g = Cons.prems(4)
  have s: "span_utf8 s" using Cons.prems(6) by simp
  from create_jni_span_object_frame[OF J al np env g s] obtain r j1 where
    c: "create_jni_span_object J g env s j = Inr (lr_new env r, j1)" "r \<noteq> 0" "frame V {} {r} j j1"
      "vw_made_by V (vw_object V r j1) = jni_span s"
    by blast
  have e1: "vw_elems V A j1 = vw_elems V A j" using frameD(7)[OF c(3), of a] a by simp
  have a1: "a \<in> vw_live V j1" "vw_object V a j1 = A" and r1: "r \<in> vw_live V j1"
    using frameD(1,6)[OF c(3)] a by auto
  have "i < length (vw_elems V A j1)" using Cons.prems(5) e1 by simp
  from set_element_frame[OF J frame_mono[OF c(3)] a1 r1 this] obtain j2 where
    s2: "jni_set_object_array_element J a (int i) r j1 = Inr j2" "frame V {A} {r} j j2"
      "vw_elems V A j2 = (vw_elems V A j)[i := Some (vw_object V r j1)]"
    using e1 by auto
  have a2: "a \<in> vw_live V j2" "vw_object V a j2 = A" using frameD(1,6)[OF s2(2)] a by auto
  from frame_destroy[OF jni_soundD(1)[OF J] s2(2) env, of r] obtain j3 where
    d: "lr_destroy J (lr_new env r) j2 = Inr j3" "frame V {A} {} j j3"
      "vw_elems V A j3 = vw_elems V A j2"
    using a2 by auto
  have a3: "a \<in> vw_live V j3" "vw_object V a j3 = A" using frameD(1,6)[OF d(2)] a by auto
  have "Suc i + length ss \<le> length (vw_elems V A j3)" "list_all span_utf8 ss"
    using Cons.prems(5,6) d(3) s2(3) by simp_all
  from Cons.IH[OF frameD(2)[OF d(2)] a3 cache_liveD(4)[OF g d(2)] this] obtain obs j4 where
    r: "fill_spans_array J g env a ss (int (Suc i)) j3 = Inr j4" "frame V {A} {} j3 j4"
      "map (vw_made_by V) obs = map jni_span ss"
      "vw_elems V A j4 = take (Suc i) (vw_elems V A j3) @ map Some obs @
        drop (Suc i + length ss) (vw_elems V A j3)"
    by blast
  have run: "fill_spans_array J g env a (s # ss) (int i) j = Inr j4"
    using c(1,2) s2(1) d(1) r(1) by (simp add: add.commute)
  have "vw_elems V A j4 = take i (vw_elems V A j) @ map Some (vw_object V r j1 # obs) @
      drop (i + length (s # ss)) (vw_elems V A j)"
    using r(4) d(3) s2(3) Cons.prems(5) by (simp add: take_Suc_conv_app_nth)
  moreover have "map (vw_made_by V) (vw_object V r j1 # obs) = map jni_span (s # ss)"
    using r(3) c(4) by simp
  ultimately show ?case using run frame_trans[OF d(2) r(2)] by (metis Un_empty_left)
qed

lemma create_jni_span_objects_array_frame:
  assumes J: "jni_sound J V" and al: "jni_allocates J V" and np: "\<not> vw_pending V j"
    and env: "env \<noteq> 0" and g: "cache_live V g j" and ss: "list_all span_utf8 ss" "length ss < 2 ^ 31"
  shows "\<exists>a j' obs. create_jni_span_objects_array J g env ss j = Inr (a, j') \<and> a \<noteq> 0 \<and>
    frame V {} {a} j j' \<and> vw_elems V (vw_object V a j') j' = map Some obs \<and>
    map (vw_made_by V) obs = map jni_span ss"
proof -
  note g0 = cache_liveD[OF g frame_refl[OF np]]
  from new_object_array_frame[OF J al np g0(1) ss(2)] obtain a j1 where
    a: "jni_new_object_array J (jsize_of (length ss)) (sc_span_class g) j = Inr (a, j1)" "a \<noteq> 0"
      "frame V {} {a} j j1" "vw_object V a j1 \<notin> (\<lambda>s. vw_object V s j) ` vw_live V j"
      "vw_elems V (vw_object V a j1) j1 = replicate (length ss) None"
    by blast
  let ?A = "vw_object V a j1"
  have a1: "a \<in> vw_live V j1" "0 + length ss \<le> length (vw_elems V ?A j1)"
    using frameD(1)[OF a(3)] a(5) by simp_all
  from fill_spans_array_frame[OF J al env frameD(2)[OF a(3)] a1(1) refl cache_liveD(4)[OF g a(3)] a1(2) ss(1)]
  obtain obs j2 where
    f: "fill_spans_array J g env a ss 0 j1 = Inr j2" "frame V {?A} {} j1 j2"
      "map (vw_made_by V) obs = map jni_span ss" "vw_elems V ?A j2 = map Some obs"
    using a(5) by auto
  have "frame V {?A} {a} j j2" using frame_trans[OF frame_mono[OF a(3)] f(2)] by simp
  then have "frame V {} {a} j j2"
    by (rule frame_restrict) (use a(4) in \<open>metis imageI singletonD\<close>)
  moreover have "vw_object V a j2 = ?A" using frameD(6)[OF f(2) a1(1)] .
  moreover have "create_jni_span_objects_array J g env ss j = Inr (a, j2)"
    using g a(1,2) f(1) by (simp add: create_jni_span_objects_array_def cache_live_def Let_def)
  ultimately show ?thesis using a(2) f(3,4) by (intro exI[of _ a] exI[of _ j2] exI[of _ obs]) simp
qed

section \<open>Strings from Java\<close>

lemma jstring_to_string_frame:
  assumes J: "jni_sound J V" and al: "jni_allocates J V" and np: "\<not> vw_pending V j"
    and env: "env \<noteq> 0" and r: "r = 0 \<or> r \<in> vw_live V j"
  shows "\<exists>j'. jstring_to_string J env r n j =
      Inr (if r = 0 then [] else take n (vw_text V (vw_object V r j)), j') \<and> frame V {} {} j j'"
proof -
  from jstring_to_string_spec[OF jni_soundD(3)[OF J] np r, of env n] obtain s j' where
    s: "jstring_to_string J env r n j = Inr (s, j')" "same_refs V j j'" "same_elems V j j'"
      "vw_pending V j' \<longrightarrow> jni_get_string_utf_chars J r j = Inr (None, j')"
      "if r = 0 \<or> env = 0 then s = [] \<and> \<not> vw_pending V j'
       else if vw_pending V j' then s = [] else s = take n (vw_text V (vw_object V r j))"
    by blast
  have "c \<noteq> None" if "jni_get_string_utf_chars J r j = Inr (c, j')" for c
    using al that unfolding jni_allocates_def by metis
  then have "\<not> vw_pending V j'" using s(4) by auto
  with s env frame_same_refs[OF s(2,3)] show ?thesis by auto
qed

text \<open>The pairs of an array of strings; a pair with a null is skipped, and so is a last single string.\<close>

fun text_pairs :: "bytes option list \<Rightarrow> attributes_list" where
  "text_pairs (Some k # Some v # xs) = (k, v) # text_pairs xs"
| "text_pairs (_ # _ # xs) = text_pairs xs"
| "text_pairs _ = []"

definition cut_pairs :: "attributes_list \<Rightarrow> attributes_list" where
  "cut_pairs = map (\<lambda>(k, v). (take max_attribute_key_len k, take max_attribute_val_len v))"

text \<open>One element of an array of strings, in a managed reference.\<close>

lemma get_element_frame:
  assumes J: "jni_sound J V" and al: "jni_allocates J V" and np: "\<not> vw_pending V j"
    and a: "a \<in> vw_live V j" and i: "i < length (vw_elems V (vw_object V a j) j)"
  shows "\<exists>r j'. jni_get_object_array_element J a (int i) j = Inr (r, j') \<and>
    frame V {} (if r = 0 then {} else {r}) j j' \<and>
    (case vw_elems V (vw_object V a j) j ! i of None \<Rightarrow> r = 0 | Some x \<Rightarrow> r \<noteq> 0 \<and> vw_object V r j' = x)"
proof -
  from jni_soundD(4)[OF J] np a i obtain r j' where
    r: "jni_get_object_array_element J a (int i) j = Inr (r, j')" "same_elems V j j'"
      "case vw_elems V (vw_object V a j) j ! i of
         None \<Rightarrow> r = 0 \<and> same_refs V j j' \<and> \<not> vw_pending V j'
       | Some x \<Rightarrow> returns_local V j r j' \<and> (r \<noteq> 0 \<longrightarrow> vw_object V r j' = x)"
    unfolding jni_arrays_def by blast
  show ?thesis
  proof (cases "vw_elems V (vw_object V a j) j ! i")
    case None
    with r frame_same_refs[of V j j'] show ?thesis by simp
  next
    case (Some x)
    then have ret: "returns_local V j r j'" "r \<noteq> 0 \<longrightarrow> vw_object V r j' = x" using r(3) by simp_all
    have "r \<noteq> 0"
    proof
      assume "r = 0"
      then have "\<not> vw_pending V j'" using al np r(1) by (auto simp: jni_allocates_def)
      with returns_localD(1)[OF ret(1)] \<open>r = 0\<close> show False by simp
    qed
    with frame_returns_local[OF ret(1) _ r(2)] ret(2) r(1) Some show ?thesis by simp
  qed
qed

lemma frame_texts: "frame V {} L j j' \<Longrightarrow> a \<in> vw_live V j \<Longrightarrow> vw_texts V a j' = vw_texts V a j"
  using frameD(6)[of V "{}" L j j' a] frameD(7)[of V "{}" L j j' a] by (simp add: vw_texts_def)

text \<open>The conversion of one pair, when both references are there.\<close>

lemma pair_read:
  assumes J: "jni_sound J V" and al: "jni_allocates J V" and np: "\<not> vw_pending V j"
    and env: "env \<noteq> 0" and r: "rk = 0 \<or> rk \<in> vw_live V j" "rv = 0 \<or> rv \<in> vw_live V j"
  shows "\<exists>j'. (if lr_bool (lr_new env rk) \<and> lr_bool (lr_new env rv) then
      res_bind (jstring_string J max_attribute_key_len (lr_new env rk) j) (\<lambda>(k, j).
        res_map (\<lambda>(v, j). (attrs @ [(k, v)], j)) (jstring_string J max_attribute_val_len (lr_new env rv) j))
      else Inr (attrs, j)) =
    Inr (attrs @ (if rk \<noteq> 0 \<and> rv \<noteq> 0 then cut_pairs [(vw_text V (vw_object V rk j), vw_text V (vw_object V rv j))]
      else []), j') \<and> frame V {} {} j j'"
proof (cases "rk \<noteq> 0 \<and> rv \<noteq> 0")
  case True
  from jstring_to_string_frame[OF J al np env r(1), of max_attribute_key_len] True obtain j1 where
    k: "jstring_to_string J env rk max_attribute_key_len j =
        Inr (take max_attribute_key_len (vw_text V (vw_object V rk j)), j1)" "frame V {} {} j j1"
    by auto
  have "rv = 0 \<or> rv \<in> vw_live V j1" using r(2) frameD(1)[OF k(2)] by simp
  from jstring_to_string_frame[OF J al frameD(2)[OF k(2)] env this, of max_attribute_val_len] True obtain j2 where
    v: "jstring_to_string J env rv max_attribute_val_len j1 =
        Inr (take max_attribute_val_len (vw_text V (vw_object V rv j1)), j2)" "frame V {} {} j1 j2"
    by auto
  have "vw_object V rv j1 = vw_object V rv j" using frameD(6)[OF k(2)] r(2) True by simp
  with True k v frame_trans[OF k(2) v(2)] show ?thesis by (simp add: jstring_string_def cut_pairs_def)
qed (use frame_refl[OF np] in auto)

text \<open>One pair: two elements, two strings, two releases.\<close>

lemma parse_pair_frame:
  assumes J: "jni_sound J V" and al: "jni_allocates J V" and env: "env \<noteq> 0"
    and np: "\<not> vw_pending V j" and a: "a \<in> vw_live V j" and i: "Suc i < length (vw_texts V a j)"
  shows "\<exists>j'. parse_pair J env a (int (Suc i)) attrs j =
      Inr (attrs @ cut_pairs (text_pairs (take 2 (drop i (vw_texts V a j)))), j') \<and> frame V {} {} j j'"
proof -
  let ?E = "vw_elems V (vw_object V a j) j"
  have i: "i < length ?E" "Suc i < length ?E" using i by (simp_all add: vw_texts_def)
  from get_element_frame[OF J al np a i(1)] obtain rk j1 where
    k: "jni_get_object_array_element J a (int i) j = Inr (rk, j1)"
      "frame V {} (if rk = 0 then {} else {rk}) j j1"
      "case ?E ! i of None \<Rightarrow> rk = 0 | Some x \<Rightarrow> rk \<noteq> 0 \<and> vw_object V rk j1 = x"
    by blast
  have a1: "a \<in> vw_live V j1" "vw_elems V (vw_object V a j1) j1 = ?E"
    using frameD(1,6,7)[OF k(2)] a by auto
  from get_element_frame[OF J al frameD(2)[OF k(2)] a1(1), of "Suc i"] i(2) a1(2) obtain rv j2 where
    v: "jni_get_object_array_element J a (int (Suc i)) j1 = Inr (rv, j2)"
      "frame V {} (if rv = 0 then {} else {rv}) j1 j2"
      "case ?E ! Suc i of None \<Rightarrow> rv = 0 | Some x \<Rightarrow> rv \<noteq> 0 \<and> vw_object V rv j2 = x"
    by auto
  let ?K = "if rk = 0 then {} else {rk}" and ?W = "if rv = 0 then {} else {rv}"
  have f2: "frame V {} (?K \<union> ?W) j j2" using frame_trans[OF k(2) v(2)] .
  have live2: "rk = 0 \<or> rk \<in> vw_live V j2" "rv = 0 \<or> rv \<in> vw_live V j2"
    using frameD(1)[OF f2] by auto
  let ?new = "if rk \<noteq> 0 \<and> rv \<noteq> 0 then [(vw_text V (vw_object V rk j2), vw_text V (vw_object V rv j2))] else []"
  from pair_read[OF J al frameD(2)[OF f2] env live2, of attrs] obtain j3 where
    p: "(if lr_bool (lr_new env rk) \<and> lr_bool (lr_new env rv) then
        res_bind (jstring_string J max_attribute_key_len (lr_new env rk) j2) (\<lambda>(k, j).
          res_map (\<lambda>(v, j). (attrs @ [(k, v)], j)) (jstring_string J max_attribute_val_len (lr_new env rv) j))
        else Inr (attrs, j2)) = Inr (attrs @ cut_pairs ?new, j3)" "frame V {} {} j2 j3"
    by (cases "rk \<noteq> 0 \<and> rv \<noteq> 0") (auto simp: cut_pairs_def)
  have f3: "frame V {} (?K \<union> ?W) j j3" using frame_trans[OF f2 p(2)] by simp
  from frame_destroy[OF jni_soundD(1)[OF J] f3 env, of rv] obtain j4 where
    d4: "lr_destroy J (lr_new env rv) j3 = Inr j4" "frame V {} ((?K \<union> ?W) - {rv}) j j4"
    by (cases "rv = 0") auto
  have "rk \<noteq> 0 \<Longrightarrow> rk \<noteq> rv"
    using frameD(1)[OF k(2)] frameD(3)[OF v(2)] by (cases "rv = 0") auto
  then have "rk = 0 \<or> rk \<in> (?K \<union> ?W) - {rv}" by auto
  from frame_destroy[OF jni_soundD(1)[OF J] d4(2) env this] obtain j5 where
    d5: "lr_destroy J (lr_new env rk) j4 = Inr j5" "frame V {} ((?K \<union> ?W) - {rv} - {rk}) j j5"
    by blast
  have "(?K \<union> ?W) - {rv} - {rk} = {}" by auto
  with d5(2) have f5: "frame V {} {} j j5" by simp
  have obj: "rk \<noteq> 0 \<Longrightarrow> vw_object V rk j2 = vw_object V rk j1"
    using frameD(6)[OF v(2), of rk] frameD(1)[OF k(2)] by simp
  have "take 2 (drop i (vw_texts V a j)) =
      [map_option (vw_text V) (?E ! i), map_option (vw_text V) (?E ! Suc i)]"
    using i by (simp add: vw_texts_def Cons_nth_drop_Suc[symmetric] numeral_2_eq_2)
  moreover have "text_pairs [map_option (vw_text V) (?E ! i), map_option (vw_text V) (?E ! Suc i)] = ?new"
    using k(3) v(3) obj by (cases "?E ! i"; cases "?E ! Suc i") auto
  ultimately show ?thesis
    using k(1) v(1) p(1) d4(1) d5(1) f5 by (simp add: parse_pair_def Let_def)
qed

lemma text_pairs_append: "even (length xs) \<Longrightarrow> text_pairs (xs @ ys) = text_pairs xs @ text_pairs ys"
  by (induction xs rule: text_pairs.induct) auto

lemma parse_loop_frame:
  assumes J: "jni_sound J V" and al: "jni_allocates J V" and env: "env \<noteq> 0"
  shows "\<not> vw_pending V j \<Longrightarrow> a \<in> vw_live V j \<Longrightarrow> i + 2 * n \<le> length (vw_texts V a j) \<Longrightarrow>
    \<exists>j'. parse_loop J env a n (int (Suc i)) attrs j =
      Inr (attrs @ cut_pairs (text_pairs (take (2 * n) (drop i (vw_texts V a j)))), j') \<and> frame V {} {} j j'"
proof (induction n arbitrary: i j attrs)
  case 0
  then show ?case by (auto simp: cut_pairs_def frame_refl)
next
  case (Suc n)
  let ?T = "vw_texts V a j"
  let ?new = "cut_pairs (text_pairs (take 2 (drop i ?T)))"
  from parse_pair_frame[OF J al env Suc.prems(1,2), of i attrs] Suc.prems(3) obtain j5 where
    p: "parse_pair J env a (int (Suc i)) attrs j = Inr (attrs @ ?new, j5)" "frame V {} {} j j5"
    by auto
  have a5: "a \<in> vw_live V j5" "vw_texts V a j5 = ?T"
    using frameD(1)[OF p(2)] Suc.prems(2) frame_texts[OF p(2) Suc.prems(2)] by simp_all
  have "(i + 2) + 2 * n \<le> length (vw_texts V a j5)" using Suc.prems(3) a5(2) by simp
  from Suc.IH[OF frameD(2)[OF p(2)] a5(1) this, of "attrs @ ?new"] obtain j6 where
    r: "parse_loop J env a n (int (Suc (i + 2))) (attrs @ ?new) j5 =
        Inr ((attrs @ ?new) @ cut_pairs (text_pairs (take (2 * n) (drop (i + 2) ?T))), j6)"
      "frame V {} {} j5 j6"
    using a5(2) by auto
  have two: "2 * Suc n = 2 + 2 * n" by simp
  have i2: "drop 2 (drop i ?T) = drop (i + 2) ?T"
    by (simp only: drop_drop add.commute[of i 2])
  have "take (2 * Suc n) (drop i ?T) = take 2 (drop i ?T) @ take (2 * n) (drop (i + 2) ?T)"
    unfolding two i2[symmetric] by (rule take_add)
  moreover have "length (take 2 (drop i ?T)) = 2" using Suc.prems(3) by simp
  then have "even (length (take 2 (drop i ?T)))" by (simp only: even_numeral)
  ultimately have t: "cut_pairs (text_pairs (take (2 * Suc n) (drop i ?T))) =
      ?new @ cut_pairs (text_pairs (take (2 * n) (drop (i + 2) ?T)))"
    by (simp only: text_pairs_append) (simp add: cut_pairs_def)
  with p(1) r frame_trans[OF p(2) r(2)] show ?case by (auto simp: add.commute)
qed

lemma text_pairs_even: "text_pairs (take (2 * (length xs div 2)) xs) = text_pairs xs"
  by (induction xs rule: text_pairs.induct) auto

lemma parse_jni_attributes_frame:
  assumes J: "jni_sound J V" and al: "jni_allocates J V" and np: "\<not> vw_pending V j"
    and env: "env \<noteq> 0" and a: "a = 0 \<or> a \<in> vw_live V j"
  shows "\<exists>j'. parse_jni_attributes J env a j =
    Inr (if a = 0 then [] else cut_pairs (text_pairs (vw_texts V a j)), j') \<and> frame V {} {} j j'"
proof (cases "a = 0")
  case True
  then show ?thesis using frame_refl[OF np] by (auto simp: parse_jni_attributes_def)
next
  case False
  then have live: "a \<in> vw_live V j" using a by simp
  let ?T = "vw_texts V a j"
  have len: "jni_get_array_length J a j = Inr (int (length ?T))"
    using jni_soundD(4)[OF J] np live by (simp add: jni_arrays_def vw_texts_def)
  have "0 + 2 * (length ?T div 2) \<le> length ?T" by simp
  from parse_loop_frame[OF J al env np live this, of "[]"] obtain j' where
    "parse_loop J env a (length ?T div 2) 1 [] j = Inr (cut_pairs (text_pairs ?T), j')" "frame V {} {} j j'"
    by (auto simp: text_pairs_even)
  moreover have "nat (int (length ?T) div 2) = length ?T div 2" by (simp add: nat_div_distrib)
  ultimately show ?thesis using False len by (simp add: parse_jni_attributes_def)
qed

end
