(* ===== verification/Native_Laws.thy ===== *)
theory Native_Laws
  imports Android_Laws Process_Laws
begin

text \<open>
  The native methods as wholes: the cut a string takes at the interface is absorbed by the
  cut it takes on the way into its field, loading and unloading the library balance, and the
  two ways in which the bindings can break the rules of the interface.
\<close>

section \<open>Two cuts are one\<close>

lemma copy_string_take: "0 < N \<Longrightarrow> copy_string N (take N s) dest = copy_string N s dest"
  using get_utf8_length_less[of N s]
  by (simp add: copy_string_def mem_cpy_def get_utf8_length_take min_def)

lemma copy_filled_take: "0 < N \<Longrightarrow> copy_filled N (take N s) dest = copy_filled N s dest"
  using get_utf8_length_less[of N s]
  by (simp add: copy_filled_def mem_cpy_def get_utf8_length_take min_def)

lemma key_equals_take: "0 < N \<Longrightarrow> key_equals N (take N s) buf = key_equals N s buf"
  by (simp add: key_equals_eq get_utf8_length_take utf8_trunc_take)

text \<open>The limits of the bindings are the sizes of the fields.\<close>

lemma jni_limits_eq:
  "max_span_name_len = span_name_size" "max_attribute_key_len = attr_key_size"
  "max_attribute_val_len = attr_value_size"
  by (simp_all add: jni_limits span_name_size_def attr_key_size_def attr_value_size_def)

definition cut_span :: "span \<Rightarrow> span" where
  "cut_span s = s\<lparr>sp_name := take max_span_name_len (sp_name s), sp_attributes := cut_pairs (sp_attributes s)\<rparr>"

lemma raw_attribute_of_take:
  "raw_attribute_of (take attr_key_size k, take attr_value_size v) = raw_attribute_of (k, v)"
  by (simp add: raw_attribute_of_def set_raw_attribute_eq copy_string_take)

lemma to_raw_span_cut: "to_raw_span sz (cut_span s) = to_raw_span sz s"
proof -
  have "map raw_attribute_of (take n (cut_pairs kvs)) = map raw_attribute_of (take n kvs)" for n kvs
    by (auto simp: cut_pairs_def take_map jni_limits_eq raw_attribute_of_take)
  moreover have "length (cut_pairs kvs) = length kvs" for kvs by (simp add: cut_pairs_def)
  ultimately show ?thesis
    unfolding to_raw_span_eq by (simp add: cut_span_def jni_limits_eq copy_string_take)
qed

lemma pr_write_cong:
  assumes "ref_step op = ref_step op'"
  shows "pr_write w op pr = pr_write w op' pr"
  unfolding pr_write_def assms ..

lemma pr_write_add_cut: "pr_write w (Op_Add (cut_span s)) pr = pr_write w (Op_Add s) pr"
proof -
  have id: "sp_span_id (cut_span s) = sp_span_id s" by (simp add: cut_span_def)
  have stores: "add_stores sz (cut_span s) = add_stores sz s" for sz
    unfolding add_stores_def to_raw_span_cut ..
  have "rsd_add sz (cut_span s) = rsd_add sz s" for sz
    unfolding rsd_add_def stores ..
  then have "impl_add (cut_span s) x = impl_add s x" for x
    by (simp add: impl_add_def)
  then have "ref_add (cut_span s) = ref_add s"
    by (intro ext) (simp add: ref_add_def id)
  then show ?thesis by (intro pr_write_cong) simp
qed

lemma pr_write_set_cut:
  "pr_write w (Op_Set_Attribute i (take max_attribute_key_len k) (take max_attribute_val_len v)) pr =
   pr_write w (Op_Set_Attribute i k v) pr"
proof -
  have "find_attribute (take attr_key_size k) n raws a = find_attribute k n raws a" for n raws a
    by (induction n arbitrary: raws a; case_tac raws) (simp_all add: key_equals_take)
  then have stores: "set_attribute_stores sz a (take attr_key_size k) (take attr_value_size v) r =
      set_attribute_stores sz a k v r" for sz a r
    unfolding set_attribute_stores_def update_attribute_stores_def append_attribute_stores_def
      copy_filled_take[OF field_sizes_pos(1)] copy_filled_take[OF field_sizes_pos(2)]
    by simp
  have "rsd_set_attribute_on_span sz a (take attr_key_size k) (take attr_value_size v) =
      rsd_set_attribute_on_span sz a k v" for sz a
    unfolding rsd_set_attribute_on_span_def stores ..
  then have impl: "impl_set_attribute_on_span a (take attr_key_size k) (take attr_value_size v) x =
      impl_set_attribute_on_span a k v x" for a x
    by (simp add: impl_set_attribute_on_span_def)
  have "ref_set_attribute_on_span i (take attr_key_size k) (take attr_value_size v) =
      ref_set_attribute_on_span i k v"
    by (intro ext) (simp only: ref_set_attribute_on_span_def impl)
  then show ?thesis by (intro pr_write_cong) (simp_all add: jni_limits_eq)
qed

section \<open>Spans and attributes from Java\<close>

text \<open>The text of a string reference; null is the empty string.\<close>

definition java_text :: "('j, 'o) jvm_view \<Rightarrow> jref \<Rightarrow> 'j \<Rightarrow> bytes" where
  "java_text V r j = (if r = 0 then [] else vw_text V (vw_object V r j))"

definition java_pairs :: "('j, 'o) jvm_view \<Rightarrow> jref \<Rightarrow> 'j \<Rightarrow> attributes_list" where
  "java_pairs V a j = (if a = 0 then [] else text_pairs (vw_texts V a j))"

lemma add_span_native:
  assumes J: "jni_sound J V" and al: "jni_allocates J V" and np: "\<not> vw_pending V j"
    and env: "env \<noteq> 0" and refs: "name = 0 \<or> name \<in> vw_live V j" "attrs = 0 \<or> attrs \<in> vw_live V j"
    and w: "get_mutable_span_data p pr = Inr p" "p \<noteq> 0" and i: "span_id \<noteq> 0"
  shows "\<exists>j'. frame V {} {} j j' \<and>
    add_span J env p trace_id span_id parent_span_id start_time name attrs pr j =
      res_map (\<lambda>pr. (pr, j')) (pr_write p (Op_Add
        \<lparr>sp_trace_id = trace_id, sp_span_id = span_id, sp_parent_span_id = parent_span_id,
         sp_start_time = start_time, sp_end_time = 0, sp_name = java_text V name j,
         sp_attributes = java_pairs V attrs j\<rparr>) pr)"
proof -
  let ?s = "\<lparr>sp_trace_id = trace_id, sp_span_id = span_id, sp_parent_span_id = parent_span_id,
         sp_start_time = start_time, sp_end_time = 0, sp_name = java_text V name j,
         sp_attributes = java_pairs V attrs j\<rparr>"
  from jstring_to_string_frame[OF J al np env refs(1), of max_span_name_len] obtain j1 where
    n: "jstring_to_string J env name max_span_name_len j = Inr (take max_span_name_len (java_text V name j), j1)"
      "frame V {} {} j j1"
    by (auto simp: java_text_def)
  have a1: "attrs = 0 \<or> attrs \<in> vw_live V j1" using refs(2) frameD(1)[OF n(2)] by simp
  from parse_jni_attributes_frame[OF J al frameD(2)[OF n(2)] env a1] obtain j2 where
    a: "parse_jni_attributes J env attrs j1 = Inr (cut_pairs (java_pairs V attrs j1), j2)" "frame V {} {} j1 j2"
    by (auto simp: java_pairs_def cut_pairs_def)
  have "java_pairs V attrs j1 = java_pairs V attrs j"
    using frame_texts[OF n(2)] refs(2) by (auto simp: java_pairs_def)
  then have "add_span J env p trace_id span_id parent_span_id start_time name attrs pr j =
      res_map (\<lambda>pr. (pr, j2)) (pr_write p (Op_Add (cut_span ?s)) pr)"
    using w i n(1) a(1) by (simp add: add_span_def make_span_def cut_span_def)
  with frame_trans[OF n(2) a(2)] show ?thesis by (auto simp: pr_write_add_cut)
qed

lemma set_attribute_native:
  assumes J: "jni_sound J V" and al: "jni_allocates J V" and np: "\<not> vw_pending V j"
    and env: "env \<noteq> 0" and refs: "key = 0 \<or> key \<in> vw_live V j" "val = 0 \<or> val \<in> vw_live V j"
    and w: "get_mutable_span_data p pr = Inr p" "p \<noteq> 0"
  shows "\<exists>j'. frame V {} {} j j' \<and>
    set_attribute_on_span J env p span_id key val pr j =
      res_map (\<lambda>pr. (pr, j'))
        (pr_write p (Op_Set_Attribute span_id (java_text V key j) (java_text V val j)) pr)"
proof -
  from jstring_to_string_frame[OF J al np env refs(1), of max_attribute_key_len] obtain j1 where
    k: "jstring_to_string J env key max_attribute_key_len j = Inr (take max_attribute_key_len (java_text V key j), j1)"
      "frame V {} {} j j1"
    by (auto simp: java_text_def)
  have v1: "val = 0 \<or> val \<in> vw_live V j1" using refs(2) frameD(1)[OF k(2)] by simp
  from jstring_to_string_frame[OF J al frameD(2)[OF k(2)] env v1, of max_attribute_val_len] obtain j2 where
    v: "jstring_to_string J env val max_attribute_val_len j1 = Inr (take max_attribute_val_len (java_text V val j1), j2)"
      "frame V {} {} j1 j2"
    by (auto simp: java_text_def)
  have "java_text V val j1 = java_text V val j"
    using frameD(6)[OF k(2)] refs(2) by (auto simp: java_text_def)
  then have "set_attribute_on_span J env p span_id key val pr j =
      res_map (\<lambda>pr. (pr, j2)) (pr_write p (Op_Set_Attribute span_id (java_text V key j) (java_text V val j)) pr)"
    using w k(1) v(1) by (simp add: set_attribute_on_span_def pr_write_set_cut)
  with frame_trans[OF k(2) v(2)] show ?thesis by auto
qed

section \<open>Loading and unloading\<close>

text \<open>
  The environment of the calling thread, and what it knows of its machine.
\<close>

definition jni_machine :: "'j jni \<Rightarrow> bool" where
  "jni_machine J \<longleftrightarrow> (\<forall>env j vm. jni_get_java_vm J env j = Some vm \<longrightarrow> vm \<noteq> 0)"

lemma cache_jni_globals_spec:
  assumes J: "jni_deletes J V" "jni_classes J V" "grants_globals J" "jni_machine J"
    and np: "\<not> vw_pending V j" and att: "attached J j"
    and g: "sc_valid g" "sc_owned g \<subseteq> vw_globals V j"
  shows "\<exists>r g' j'. cache_jni_globals J env g j = Inr (r, g', j') \<and> sc_valid g' \<and>
    vw_locals V j' = vw_locals V j \<and> vw_globals V j' = (vw_globals V j - sc_owned g) \<union> sc_owned g' \<and>
    same_env J j j' \<and>
    (if r = JNI_OK then sc_is_initialized g' \<and> \<not> vw_pending V j' else r = JNI_ERR \<and> g' = g)"
proof -
  from sc_new_spec[OF J(1-3) np, of env] J(4) obtain c j1 where
    c: "sc_new J env j = Inr (c, j1)" "sc_valid c" "sc_owned c \<inter> vw_globals V j = {}"
      "vw_globals V j1 = vw_globals V j \<union> sc_owned c" "vw_locals V j1 = vw_locals V j"
      "sc_is_initialized c \<longrightarrow> \<not> vw_pending V j1" "same_env J j j1"
    unfolding jni_machine_def by blast
  note att1 = attached_same_env[OF att c(7)]
  show ?thesis
  proof (cases "sc_is_initialized c")
    case False
    from sc_release_owned[OF J(1) att1 c(2)] c(4) obtain c' j2 where
      r: "sc_release J c j1 = Inr (c', j2)" "vw_globals V j2 = vw_globals V j1 - sc_owned c"
        "vw_locals V j2 = vw_locals V j1" "same_env J j1 j2"
      by auto
    have "vw_globals V j2 = (vw_globals V j - sc_owned g) \<union> sc_owned g" using r(2) c(3,4) g(2) by auto
    with False c r g(1) same_env_trans[OF c(7) r(4)] show ?thesis
      by (simp add: cache_jni_globals_def sc_destroy_def JNI_OK_def JNI_ERR_def)
  next
    case True
    have "sc_owned g \<subseteq> vw_globals V j1" using g(2) c(4) by auto
    from sc_release_owned[OF J(1) att1 g(1) this] obtain g0 j2 where
      r: "sc_release J g j1 = Inr (g0, j2)" "vw_globals V j2 = vw_globals V j1 - sc_owned g"
        "vw_locals V j2 = vw_locals V j1" "vw_pending V j2 = vw_pending V j1" "same_env J j1 j2"
      by blast
    let ?rest = "c\<lparr>sc_vm := 0, sc_span_class := 0, sc_string_class := 0, sc_span_create := 0\<rparr>"
    have a: "sc_assign J False g c j1 = Inr (c, ?rest, j2)" using r(1) by (simp add: sc_assign_def)
    have d: "sc_destroy J ?rest j2 = Inr j2"
      by (simp add: sc_destroy_def sc_release_def release_global_def Let_def)
    have "vw_globals V j2 = (vw_globals V j - sc_owned g) \<union> sc_owned c" using r(2) c(3,4) g(2) by auto
    with True c(1,2,5,6) a d r(3,4) same_env_trans[OF c(7) r(5)] show ?thesis
      by (simp add: cache_jni_globals_def JNI_OK_def)
  qed
qed

lemma register_table_spec:
  assumes J: "jni_deletes J V" "jni_classes J V" and np: "\<not> vw_pending V j"
  shows "\<exists>r j'. register_table J name ms j = Inr (r, j') \<and> vw_locals V j' = vw_locals V j \<and>
    vw_globals V j' = vw_globals V j \<and> same_env J j j' \<and>
    (if r = JNI_OK then \<not> vw_pending V j' else r = JNI_ERR)"
proof -
  from jni_classesD(1)[OF J(2) np] obtain c j1 where
    c: "jni_find_class J name j = Inr (c, j1)" "returns_local V j c j1" "same_env J j j1"
    by blast
  show ?thesis
  proof (cases "c = 0")
    case True
    with c returns_localD[OF c(2)] show ?thesis
      by (simp add: register_table_def JNI_OK_def JNI_ERR_def)
  next
    case False
    note cl = returns_localD(2)[OF c(2) False] and gl = returns_localD(3)[OF c(2)]
    have "c \<in> vw_live V j1" "\<not> vw_pending V j1" using cl by (simp_all add: vw_live_def)
    from jni_classesD(4)[OF J(2) this(2,1)] obtain n j2 where
      r: "jni_register_natives J c ms j1 = Inr (n, j2)" "same_refs V j1 j2" "n = 0 \<longrightarrow> \<not> vw_pending V j2"
        "same_env J j1 j2"
      by blast
    have "c \<in> vw_locals V j2" using r(2) cl by (simp add: same_refs_def)
    from jni_deletesD(2)[OF J(1) this] obtain j3 where
      d: "jni_delete_local_ref J c j2 = Inr j3" "vw_locals V j3 = vw_locals V j2 - {c}"
        "vw_globals V j3 = vw_globals V j2" "vw_pending V j3 = vw_pending V j2" "same_env J j2 j3"
      by blast
    have "vw_locals V j3 = vw_locals V j" using d(2) r(2) cl by (auto simp: same_refs_def vw_live_def)
    moreover have "vw_globals V j3 = vw_globals V j" using d(3) r(2) gl by (simp add: same_refs_def)
    moreover have "same_env J j j3" using c(3) r(4) d(5) same_env_trans by metis
    moreover have "register_table J name ms j = Inr (if n \<noteq> JNI_OK then JNI_ERR else JNI_OK, j3)"
      using c(1) False r(1) d(1) by (simp add: register_table_def)
    ultimately show ?thesis using r(3) d(4) by (auto simp: JNI_OK_def JNI_ERR_def)
  qed
qed

lemma jni_on_load_spec:
  assumes J: "jni_deletes J V" "jni_classes J V" "grants_globals J" "jni_machine J"
    and np: "\<not> vw_pending V j" and att: "attached J j" and env: "jni_get_env J vm j = Some env"
    and g: "sc_valid g" "sc_owned g \<subseteq> vw_globals V j"
  shows "\<exists>r g' j'. jni_on_load J vm g j = Inr (r, g', j') \<and> sc_valid g' \<and> attached J j' \<and>
    vw_locals V j' = vw_locals V j \<and> vw_globals V j' = (vw_globals V j - sc_owned g) \<union> sc_owned g' \<and>
    (if r = JNI_VERSION_1_6 then sc_is_initialized g' else r = JNI_ERR)"
proof -
  from cache_jni_globals_spec[OF J np att g, of env] obtain r1 g1 j1 where
    c: "cache_jni_globals J env g j = Inr (r1, g1, j1)" "sc_valid g1" "vw_locals V j1 = vw_locals V j"
      "vw_globals V j1 = (vw_globals V j - sc_owned g) \<union> sc_owned g1" "same_env J j j1"
      "if r1 = JNI_OK then sc_is_initialized g1 \<and> \<not> vw_pending V j1 else r1 = JNI_ERR \<and> g1 = g"
    by blast
  have att': "attached J k" if "same_env J j1 k" for k
    using attached_same_env[OF att same_env_trans[OF c(5) that]] .
  have codes: "JNI_OK = 0" "JNI_ERR = - 1" "JNI_VERSION_1_6 = 65542"
    by (simp_all add: JNI_OK_def JNI_ERR_def JNI_VERSION_1_6_def)
  show ?thesis
  proof (cases "r1 = JNI_OK")
    case False
    with c env att'[of j1] codes show ?thesis by (simp add: jni_on_load_def register_natives_def)
  next
    case True
    then have np1: "\<not> vw_pending V j1" "sc_is_initialized g1" using c(6) by simp_all
    let ?t1 = "register_table J ''com/google/firebase/crashlytics/telemetry/PersistenceContext'' persistence_methods"
    let ?t2 = "register_table J ''com/google/firebase/crashlytics/telemetry/MutationContext'' mutable_methods"
    obtain r2 j2 where t1: "?t1 j1 = Inr (r2, j2)" "vw_locals V j2 = vw_locals V j1"
      "vw_globals V j2 = vw_globals V j1" "same_env J j1 j2"
      "if r2 = JNI_OK then \<not> vw_pending V j2 else r2 = JNI_ERR"
      using register_table_spec[OF J(1,2) np1(1)] by blast
    show ?thesis
    proof (cases "r2 = JNI_OK")
      case r2: False
      with True c t1 env att'[of j2] codes show ?thesis
        by (simp add: jni_on_load_def register_natives_def)
    next
      case r2: True
      then have np2: "\<not> vw_pending V j2" using t1(5) by simp
      obtain r3 j3 where t2: "?t2 j2 = Inr (r3, j3)" "vw_locals V j3 = vw_locals V j2"
        "vw_globals V j3 = vw_globals V j2" "same_env J j2 j3"
        using register_table_spec[OF J(1,2) np2] by blast
      with True r2 c t1 env np1(2) att'[OF same_env_trans[OF t1(4) t2(4)]] codes show ?thesis
        by (auto simp: jni_on_load_def register_natives_def)
    qed
  qed
qed

text \<open>On a thread that is not attached nothing is loaded, and nothing is released.\<close>

lemma jni_on_load_detached: "jni_get_env J vm j = None \<Longrightarrow> jni_on_load J vm g j = Inr (JNI_ERR, g, j)"
  by (simp add: jni_on_load_def)

lemma jni_on_unload_detached:
  "jni_get_env J (sc_vm g) j = None \<Longrightarrow> \<exists>g'. jni_on_unload J g j = Inr (g', j) \<and> \<not> sc_is_initialized g'"
  by (auto simp: jni_on_unload_def sc_release_def current_env_def release_global_def Let_def
      sc_is_initialized_def)

section \<open>Global references that are refused\<close>

text \<open>
  A machine that checks its calls, as with \<^verbatim>\<open>-Xcheck:jni\<close>: no lookup with an exception pending,
  none in a null class. It knows the classes, but has no global reference left to give.
\<close>

definition checks_lookups :: "'j jni \<Rightarrow> ('j, 'o) jvm_view \<Rightarrow> bool" where
  "checks_lookups J V \<longleftrightarrow>
     (\<forall>name j. vw_pending V j \<longrightarrow> (\<exists>e. jni_find_class J name j = Inl e)) \<and>
     (\<forall>name sig j. \<exists>e. jni_get_static_method_id J 0 name sig j = Inl e)"

definition knows_classes :: "'j jni \<Rightarrow> bool" where
  "knows_classes J \<longleftrightarrow> (\<forall>name j r j'. jni_find_class J name j = Inr (r, j') \<longrightarrow> r \<noteq> 0)"

definition refuses_globals :: "'j jni \<Rightarrow> bool" where
  "refuses_globals J \<longleftrightarrow> (\<forall>r j g j'. jni_new_global_ref J r j = Inr (g, j') \<longrightarrow> g = 0)"

text \<open>One class: the null reference is kept, and the exception too if there is one.\<close>

lemma class_refused:
  assumes J: "jni_deletes J V" "jni_classes J V" "knows_classes J" "refuses_globals J"
    and np: "\<not> vw_pending V j"
  shows "\<exists>r j1 j2 j3. jni_find_class J name j = Inr (r, j1) \<and> r \<noteq> 0 \<and>
    jni_new_global_ref J r j1 = Inr (0, j2) \<and> jni_delete_local_ref J r j2 = Inr j3"
proof -
  from jni_classesD(1)[OF J(2) np] obtain r j1 where
    f: "jni_find_class J name j = Inr (r, j1)" "returns_local V j r j1"
    by blast
  then have r: "r \<noteq> 0" using J(3) unfolding knows_classes_def by blast
  note l = returns_localD(2)[OF f(2) r]
  have "r \<in> vw_live V j1" "\<not> vw_pending V j1" using l by (simp_all add: vw_live_def)
  from jni_classesD(2)[OF J(2) this(2,1)] obtain g j2 where
    g: "jni_new_global_ref J r j1 = Inr (g, j2)" "vw_locals V j2 = vw_locals V j1"
    by blast
  then have "g = 0" using J(4) unfolding refuses_globals_def by blast
  moreover have "r \<in> vw_locals V j2" using l g(2) by simp
  ultimately show ?thesis using f(1) r g(1) jni_deletesD(2)[OF J(1)] by blast
qed

lemma sc_new_refused:
  assumes J: "jni_deletes J V" "jni_classes J V" "knows_classes J" "refuses_globals J" "checks_lookups J V"
    and np: "\<not> vw_pending V j" and env: "env \<noteq> 0" "jni_get_java_vm J env j = Some vm"
  shows "\<exists>e. sc_new J env j = Inl e"
proof -
  from class_refused[OF J(1-4) np] obtain r j1 j2 j3 where
    c: "jni_find_class J ''com/google/firebase/crashlytics/telemetry/Span'' j = Inr (r, j1)" "r \<noteq> 0"
      "jni_new_global_ref J r j1 = Inr (0, j2)" "jni_delete_local_ref J r j2 = Inr j3"
    by blast
  show ?thesis
  proof (cases "vw_pending V j3")
    case True
    then obtain e where "jni_find_class J ''java/lang/String'' j3 = Inl e"
      using J(5) unfolding checks_lookups_def by blast
    with c env show ?thesis by (simp add: sc_new_def)
  next
    case False
    from class_refused[OF J(1-4) False] obtain s k1 k2 k3 where
      s: "jni_find_class J ''java/lang/String'' j3 = Inr (s, k1)" "s \<noteq> 0"
        "jni_new_global_ref J s k1 = Inr (0, k2)" "jni_delete_local_ref J s k2 = Inr k3"
      by blast
    obtain e where "jni_get_static_method_id J 0 ''createRecoveredSpan''
        ''(JJJJJLjava/lang/String;[Ljava/lang/String;)Lcom/google/firebase/crashlytics/telemetry/Span;'' k3 = Inl e"
      using J(5) unfolding checks_lookups_def by blast
    with c s env show ?thesis by (simp add: sc_new_def sc_empty_def)
  qed
qed

section \<open>Exceptions left pending\<close>

text \<open>
  A machine that checks: with an exception pending it refuses to make a string.
\<close>

definition refuses_pending :: "'j jni \<Rightarrow> ('j, 'o) jvm_view \<Rightarrow> bool" where
  "refuses_pending J V \<longleftrightarrow>
     (\<forall>b j. vw_pending V j \<longrightarrow> (\<exists>e. jni_new_string_utf J b j = Inl e))"

lemma create_bounded_refused:
  assumes "refuses_pending J V" "vw_pending V j" "env \<noteq> 0" "0 < N"
  shows "\<exists>e. create_bounded_jstring J N env s j = Inl e"
proof -
  have "c_str (copy_string N s (replicate N 0)) = Inr (takeWhile (\<lambda>c. c \<noteq> 0) (utf8_trunc N s))"
    using c_str_copy_string[OF assms(4), of "replicate N 0" s] by simp
  moreover have "\<exists>t. c_str (s @ [0]) = Inr t" by (simp add: c_str_def)
  ultimately have "\<exists>t. create_bounded_jstring J N env s j = jni_new_string_utf J t j"
    using assms(3) by (auto simp: create_bounded_jstring_def)
  with assms(1,2) show ?thesis unfolding refuses_pending_def by metis
qed

text \<open>
  A string that cannot be made, for lack of memory say: the call returns null and leaves an
  exception pending.
\<close>

definition refuses_string :: "'j jni \<Rightarrow> ('j, 'o) jvm_view \<Rightarrow> bytes \<Rightarrow> bool" where
  "refuses_string J V b \<longleftrightarrow>
     (\<forall>j. \<not> vw_pending V j \<longrightarrow> (\<exists>j'. jni_new_string_utf J b j = Inr (0, j') \<and> vw_pending V j'))"

lemma create_bounded_no_string:
  assumes "refuses_string J V (utf8_trunc N s)" "\<not> vw_pending V j" "env \<noteq> 0" "0 < N" "0 \<notin> set s"
  shows "\<exists>j'. create_bounded_jstring J N env s j = Inr (0, j') \<and> vw_pending V j'"
proof -
  have z: "0 \<notin> set (utf8_trunc N s)" using assms(5) set_take_subset by (fastforce simp: utf8_trunc_def)
  then have "takeWhile (\<lambda>c. c \<noteq> 0) (utf8_trunc N s) = utf8_trunc N s"
    by (metis (mono_tags, lifting) takeWhile_eq_all_conv)
  then have "c_str (copy_string N s (replicate N 0)) = Inr (utf8_trunc N s)"
    using c_str_copy_string[OF assms(4), of "replicate N 0" s] by simp
  moreover have "c_str (s @ [0]) = Inr s"
    proof -
    have "takeWhile (\<lambda>c. c \<noteq> 0) (s @ [0]) = s"
      using assms(5) by (induction s) auto
    then show ?thesis by (simp add: c_str_def)
  qed
  moreover have "utf8_trunc N s = s" if "length s < N" using that by (rule utf8_trunc_short)
  ultimately have "create_bounded_jstring J N env s j = jni_new_string_utf J (utf8_trunc N s) j"
    using assms(3) by (simp add: create_bounded_jstring_def)
  with assms(1,2) show ?thesis by (simp add: refuses_string_def)
qed

text \<open>
  The name is the first thing a span asks for: with an exception pending the span cannot be
  made; a name that cannot be made ends its span and leaves the exception to the next one.
\<close>

lemma create_span_pending:
  assumes "refuses_pending J V" "vw_pending V j" "env \<noteq> 0" "sc_is_initialized g"
  shows "\<exists>e. create_jni_span_object J g env s j = Inl e"
  using create_bounded_refused[OF assms(1-3), of max_span_name_len "sp_name s"] assms(4)
  by (auto simp: create_jni_span_object_def new_jstring_def)

lemma create_span_no_name:
  assumes "refuses_string J V (utf8_trunc max_span_name_len (sp_name s))" "0 \<notin> set (sp_name s)"
    "\<not> vw_pending V j" "env \<noteq> 0" "sc_is_initialized g"
  shows "\<exists>j'. create_jni_span_object J g env s j = Inr (lr_empty, j') \<and> vw_pending V j'"
proof -
  have "lr_destroy J (lr_new env 0) k = Inr k" for k by (simp add: lr_destroy_def)
  with create_bounded_no_string[OF assms(1,3,4) _ assms(2)] assms(5) show ?thesis
    by (auto simp: create_jni_span_object_def new_jstring_def)
qed

lemma fill_after_failed_name:
  assumes r: "refuses_pending J V" and env: "env \<noteq> 0" and g: "sc_is_initialized g"
    and fail: "refuses_string J V (utf8_trunc max_span_name_len (sp_name s))" "0 \<notin> set (sp_name s)"
  shows "\<exists>e. fill_spans_array J g env arr (pre @ s # s' # ss) i j = Inl e"
proof (induction pre arbitrary: i j)
  case Nil
  have z: "lr_destroy J lr_empty k = Inr k" for k by (simp add: lr_destroy_def lr_empty_def)
  show ?case
  proof (cases "vw_pending V j")
    case True
    from create_span_pending[OF r this env g, of s] show ?thesis by auto
  next
    case False
    from create_span_no_name[OF fail this env g] obtain j' where
      j': "create_jni_span_object J g env s j = Inr (lr_empty, j')" "vw_pending V j'"
      by blast
    from create_span_pending[OF r j'(2) env g, of s'] j'(1) z show ?thesis by auto
  qed
next
  case (Cons p pre)
  have bind: "\<exists>e. res_bind m f = Inl e" if "\<And>x. \<exists>e. f x = Inl e" for m :: "'x res" and f :: "'x \<Rightarrow> 'y res"
    using that by (cases m) auto
  show ?case by (auto simp only: append_Cons fill_spans_array.simps split_beta intro!: bind Cons.IH)
qed

section \<open>There and back\<close>

lemma kept_modified_utf8: "modified_utf8 s \<Longrightarrow> kept_text N s = utf8_trunc N s"
  using modified_utf8_no_nul[of s] set_mono_prefix[OF prefix_utf8_trunc[of N s]]
  by (auto simp: kept_text_def takeWhile_eq_all_conv)

text \<open>Attributes of modified UTF-8 stay so through the fields, and the way back cuts nothing more.\<close>

lemma clip_attributes_java:
  assumes "list_all (\<lambda>(k, v). modified_utf8 k \<and> modified_utf8 v) kvs"
  shows "list_all (\<lambda>(k, v). modified_utf8 k \<and> modified_utf8 v) (clip_attributes sz kvs)"
    and "jni_texts (clip_attributes sz kvs) =
      jni_texts (filter (\<lambda>(k, v). utf8_trunc attr_value_size v \<noteq> []) (take (max_attributes (mmap_config sz)) kvs))"
proof -
  let ?f = "\<lambda>(k, v). (kept_text attr_key_size k, kept_text attr_value_size v)"
  have ok: "list_all (\<lambda>(k, v). modified_utf8 k \<and> modified_utf8 v) (filter (\<lambda>kv. snd kv \<noteq> []) (map ?f xs)) \<and>
      jni_texts (filter (\<lambda>kv. snd kv \<noteq> []) (map ?f xs)) =
        jni_texts (filter (\<lambda>(k, v). utf8_trunc attr_value_size v \<noteq> []) xs)"
    if "list_all (\<lambda>(k, v). modified_utf8 k \<and> modified_utf8 v) xs" for xs
    using that
    by (induction xs) (auto simp: kept_modified_utf8 modified_utf8_trunc jni_texts_Cons jni_limits_eq
        utf8_trunc_idem jni_texts_def)
  have "list_all (\<lambda>(k, v). modified_utf8 k \<and> modified_utf8 v) (take n kvs)" for n
    using assms by (auto simp: list_all_iff dest: in_set_takeD)
  from ok[OF this] show
    "list_all (\<lambda>(k, v). modified_utf8 k \<and> modified_utf8 v) (clip_attributes sz kvs)"
    "jni_texts (clip_attributes sz kvs) =
      jni_texts (filter (\<lambda>(k, v). utf8_trunc attr_value_size v \<noteq> []) (take (max_attributes (mmap_config sz)) kvs))"
    by (simp_all add: clip_attributes_def)
qed

lemma java_round_trip:
  assumes "modified_utf8 (sp_name s)"
    and "list_all (\<lambda>(k, v). modified_utf8 k \<and> modified_utf8 v) (sp_attributes s)"
  shows "span_utf8 (clip_span sz s)"
    and "jni_span (clip_span sz s) = (span_numbers s, utf8_trunc span_name_size (sp_name s),
      jni_texts (filter (\<lambda>(k, v). utf8_trunc attr_value_size v \<noteq> [])
        (take (max_attributes (mmap_config sz)) (sp_attributes s))))"
proof -
  have "length (clip_attributes sz kvs) \<le> 128" for kvs
    using max_attributes_bounds(2)[of sz] by (auto simp: clip_attributes_def intro: order.trans[OF length_filter_le])
  then show "span_utf8 (clip_span sz s)"
    using assms clip_attributes_java(1)[OF assms(2)]
    by (simp add: span_utf8_def clip_span_def kept_modified_utf8 modified_utf8_trunc)
  show "jni_span (clip_span sz s) = (span_numbers s, utf8_trunc span_name_size (sp_name s),
      jni_texts (filter (\<lambda>(k, v). utf8_trunc attr_value_size v \<noteq> [])
        (take (max_attributes (mmap_config sz)) (sp_attributes s))))"
    using assms(1) clip_attributes_java(2)[OF assms(2)]
    by (simp add: jni_span_def clip_span_def span_numbers_def kept_modified_utf8 jni_limits_eq utf8_trunc_idem)
qed

end
