(* ===== verification/Sample_Jvm.thy ===== *)
theory Sample_Jvm
  imports Native_Laws
begin

text \<open>
  A concrete virtual machine that meets the documented rules, for the properties of the
  bindings: tables of local and global references (odd and even numbers), arrays, and a
  predicate that says which strings cannot be allocated.
\<close>

section \<open>The machine\<close>

datatype java_object =
    Java_Class string
  | Java_String bytes
  | Java_Array nat
  | Java_Span "u64 list \<times> bytes \<times> bytes option list"

record machine =
  m_locals :: "(nat \<times> java_object) list"
  m_globals :: "(nat \<times> java_object) list"
  m_arrays :: "(java_object \<times> java_object option list) list"
  m_pending :: bool

definition m_new :: "nat list \<Rightarrow> nat" where
  "m_new ns = Suc (sum_list ns)"

lemma m_new_fresh: "m_new ns \<notin> set ns"
proof
  assume "m_new ns \<in> set ns"
  then have "m_new ns \<le> sum_list ns" by (simp add: member_le_sum_list)
  then show False by (simp add: m_new_def)
qed

definition m_object :: "jref \<Rightarrow> machine \<Rightarrow> java_object" where
  "m_object r j =
     (case map_of (if odd r then m_locals j else m_globals j) (r div 2) of
        None \<Rightarrow> Java_Array 0 | Some x \<Rightarrow> x)"

fun m_text :: "java_object \<Rightarrow> bytes" where
  "m_text (Java_String b) = b"
| "m_text _ = []"

fun m_made_by :: "java_object \<Rightarrow> u64 list \<times> bytes \<times> bytes option list" where
  "m_made_by (Java_Span x) = x"
| "m_made_by _ = ([], [], [])"

fun m_array_id :: "java_object \<Rightarrow> nat" where
  "m_array_id (Java_Array n) = n"
| "m_array_id _ = 0"

definition m_elems :: "java_object \<Rightarrow> machine \<Rightarrow> java_object option list" where
  "m_elems x j = (case map_of (m_arrays j) x of None \<Rightarrow> [] | Some e \<Rightarrow> e)"

definition m_live :: "jref \<Rightarrow> machine \<Rightarrow> bool" where
  "m_live r j \<longleftrightarrow> r \<noteq> 0 \<and> r div 2 \<in> fst ` set (if odd r then m_locals j else m_globals j)"

text \<open>A new local reference to an object.\<close>

definition m_local :: "java_object \<Rightarrow> machine \<Rightarrow> jref \<times> machine" where
  "m_local x j =
     (let n = m_new (map fst (m_locals j))
      in (2 * n + 1, j\<lparr>m_locals := (n, x) # m_locals j\<rparr>))"

definition m_new_array :: "int \<Rightarrow> machine \<Rightarrow> jref \<times> machine" where
  "m_new_array n j =
     (let a = Java_Array (m_new (map (\<lambda>p. m_array_id (snd p)) (m_locals j @ m_globals j)))
      in m_local a (j\<lparr>m_arrays := (a, replicate (nat n) None) # m_arrays j\<rparr>))"

definition m_guard :: "machine \<Rightarrow> jref list \<Rightarrow> 'a \<Rightarrow> 'a res" where
  "m_guard j rs y = (if \<not> m_pending j \<and> list_all (\<lambda>r. m_live r j) rs then Inr y else Inl Use_After_Free)"

definition sample_jni :: "(bytes \<Rightarrow> bool) \<Rightarrow> machine jni" where
  "sample_jni refused =
     \<lparr>jni_get_env = (\<lambda>vm j. Some 1),
      jni_get_java_vm = (\<lambda>env j. Some 1),
      jni_find_class = (\<lambda>name j. m_guard j [] (m_local (Java_Class name) j)),
      jni_new_global_ref = (\<lambda>r j.
        let n = m_new (map fst (m_globals j))
        in m_guard j [r] (2 * n, j\<lparr>m_globals := (n, m_object r j) # m_globals j\<rparr>)),
      jni_delete_global_ref = (\<lambda>r j.
        if m_live r j \<and> even r then Inr (j\<lparr>m_globals := filter (\<lambda>p. fst p \<noteq> r div 2) (m_globals j)\<rparr>)
        else Inl Use_After_Free),
      jni_delete_local_ref = (\<lambda>r j.
        if m_live r j \<and> odd r then Inr (j\<lparr>m_locals := filter (\<lambda>p. fst p \<noteq> r div 2) (m_locals j)\<rparr>)
        else Inl Use_After_Free),
      jni_get_static_method_id = (\<lambda>c name sig j. m_guard j [c] (1, j)),
      jni_register_natives = (\<lambda>c ms j. m_guard j [c] (0, j)),
      jni_new_string_utf = (\<lambda>b j.
        m_guard j [] (if refused b then (0, j\<lparr>m_pending := True\<rparr>) else m_local (Java_String b) j)),
      jni_get_string_utf_chars = (\<lambda>r j. m_guard j [r] (Some (m_text (m_object r j) @ [0]), j)),
      jni_get_string_utf_length = (\<lambda>r j. m_guard j [r] (int (length (m_text (m_object r j))))),
      jni_release_string_utf_chars = (\<lambda>r j. if m_live r j then Inr j else Inl Use_After_Free),
      jni_new_object_array = (\<lambda>n c j. m_guard j [c] (m_new_array n j)),
      jni_get_array_length = (\<lambda>a j. m_guard j [a] (int (length (m_elems (m_object a j) j)))),
      jni_get_object_array_element = (\<lambda>a i j.
        m_guard j [a] (case m_elems (m_object a j) j ! nat i of None \<Rightarrow> (0, j) | Some x \<Rightarrow> m_local x j)),
      jni_set_object_array_element = (\<lambda>a i r j.
        m_guard j [a, r] (j\<lparr>m_arrays := (m_object a j,
          (m_elems (m_object a j) j)[nat i := Some (m_object r j)]) # m_arrays j\<rparr>)),
      jni_call_create_span = (\<lambda>c m ns name a j.
        m_guard j [c, name, a] (m_local (Java_Span (ns, m_text (m_object name j),
          map (map_option m_text) (m_elems (m_object a j) j))) j))\<rparr>"

definition sample_view :: "(machine, java_object) jvm_view" where
  "sample_view =
     \<lparr>vw_locals = (\<lambda>j. {r. m_live r j \<and> odd r}),
      vw_globals = (\<lambda>j. {r. m_live r j \<and> even r}),
      vw_pending = m_pending,
      vw_object = m_object,
      vw_text = m_text,
      vw_elems = m_elems,
      vw_made_by = m_made_by\<rparr>"

section \<open>It follows the rules\<close>

lemma sample_live [simp]: "vw_live sample_view j = {r. m_live r j}"
  by (auto simp: vw_live_def sample_view_def)

lemma sample_view_simps [simp]:
  "r \<in> vw_locals sample_view j \<longleftrightarrow> m_live r j \<and> odd r"
  "r \<in> vw_globals sample_view j \<longleftrightarrow> m_live r j \<and> even r"
  "vw_pending sample_view = m_pending" "vw_object sample_view = m_object"
  "vw_text sample_view = m_text" "vw_elems sample_view = m_elems"
  "vw_made_by sample_view = m_made_by"
  by (simp_all add: sample_view_def)

lemma m_local_new:
  assumes "m_local x j = (r, j')"
  shows "\<not> m_live r j" "odd r" "r \<noteq> 0" "m_live s j' \<longleftrightarrow> s = r \<or> m_live s j"
    "m_object r j' = x" "m_live s j \<Longrightarrow> m_object s j' = m_object s j"
    "m_elems y j' = m_elems y j" "m_pending j' = m_pending j" "m_globals j' = m_globals j"
    "m_arrays j' = m_arrays j"
proof -
  let ?n = "m_new (map fst (m_locals j))"
  have r: "r = 2 * ?n + 1" "j' = j\<lparr>m_locals := (?n, x) # m_locals j\<rparr>"
    using assms by (auto simp: m_local_def Let_def)
  have n: "?n \<notin> fst ` set (m_locals j)" using m_new_fresh[of "map fst (m_locals j)"] by simp
  have d: "r div 2 = ?n" "odd r" using r(1) by simp_all
  have r0: "0 < r" using r(1) by simp
  then show "odd r" "r \<noteq> 0" using d(2) by simp_all
  show nl: "\<not> m_live r j" using d n by (simp add: m_live_def)
  have eq: "s = r" if "odd s" "s div 2 = ?n" for s
    using that r(1) by (metis odd_two_times_div_two_succ)
  show "m_live s j' \<longleftrightarrow> s = r \<or> m_live s j"
    using r(2) d eq[of s] r0 by (auto simp: m_live_def)
  show "m_object r j' = x" using r(2) d by (simp add: m_object_def)
  show "m_object s j' = m_object s j" if "m_live s j"
  proof -
    have "s \<noteq> r" using nl that by auto
    then have "odd s \<longrightarrow> s div 2 \<noteq> ?n" using eq by auto
    then show ?thesis using r(2) by (simp add: m_object_def)
  qed
  show "m_elems y j' = m_elems y j" "m_pending j' = m_pending j" "m_globals j' = m_globals j"
    "m_arrays j' = m_arrays j"
    using r(2) by (simp_all add: m_elems_def)
qed

lemma m_local_returns:
  assumes "m_local x j = (r, j')" "\<not> m_pending j"
  shows "returns_local sample_view j r j'" "same_elems sample_view j j'" "m_object r j' = x"
  using m_local_new[OF assms(1)] assms(2)
  by (auto simp: returns_local_def same_objects_def same_elems_def set_eq_iff)

lemma map_of_filter_key: "map_of (filter (\<lambda>p. fst p \<noteq> k) ps) x = (if x = k then None else map_of ps x)"
  by (induction ps) auto

lemma sample_deletes: "jni_deletes (sample_jni refused) sample_view"
  unfolding jni_deletes_def
proof (intro allI conjI impI)
  fix j r
  show "0 \<notin> vw_live sample_view j" by (simp add: m_live_def)
  let ?l = "j\<lparr>m_locals := filter (\<lambda>p. fst p \<noteq> r div 2) (m_locals j)\<rparr>"
  let ?g = "j\<lparr>m_globals := filter (\<lambda>p. fst p \<noteq> r div 2) (m_globals j)\<rparr>"
  have half: "s div 2 = r div 2 \<longleftrightarrow> s = r" if "odd s = odd r" for s
    using that by (metis dvd_mult_div_cancel odd_two_times_div_two_succ)
  have live_l: "m_live s ?l \<longleftrightarrow> m_live s j \<and> s \<noteq> r" if "odd r" for s
    using that half[of s] by (auto simp: m_live_def)
  have live_g: "m_live s ?g \<longleftrightarrow> m_live s j \<and> s \<noteq> r" if "even r" for s
    using that half[of s] by (auto simp: m_live_def)
  have obj_l: "m_object s ?l = m_object s j" if "odd r" "s \<noteq> r" for s
    using that half[of s] by (simp add: m_object_def map_of_filter_key)
  have obj_g: "m_object s ?g = m_object s j" if "even r" "s \<noteq> r" for s
    using that half[of s] by (simp add: m_object_def map_of_filter_key)
  have elems: "m_elems x ?l = m_elems x j" "m_elems x ?g = m_elems x j" for x
    by (simp_all add: m_elems_def)
  show "\<exists>j'. jni_delete_local_ref (sample_jni refused) r j = Inr j' \<and>
      vw_locals sample_view j' = vw_locals sample_view j - {r} \<and>
      vw_globals sample_view j' = vw_globals sample_view j \<and>
      vw_pending sample_view j' = vw_pending sample_view j \<and> same_objects sample_view j j' \<and>
      same_elems sample_view j j' \<and> same_env (sample_jni refused) j j'"
    if "r \<in> vw_locals sample_view j"
    using that live_l obj_l elems
    by (intro exI[of _ ?l])
      (auto simp: sample_jni_def same_objects_def same_elems_def same_env_def set_eq_iff)
  show "\<exists>j'. jni_delete_global_ref (sample_jni refused) r j = Inr j' \<and>
      vw_globals sample_view j' = vw_globals sample_view j - {r} \<and>
      vw_locals sample_view j' = vw_locals sample_view j \<and>
      vw_pending sample_view j' = vw_pending sample_view j \<and> same_objects sample_view j j' \<and>
      same_elems sample_view j j' \<and> same_env (sample_jni refused) j j'"
    if "r \<in> vw_globals sample_view j"
    using that live_g obj_g elems
    by (intro exI[of _ ?g])
      (auto simp: sample_jni_def same_objects_def same_elems_def same_env_def set_eq_iff)
qed

lemma sample_classes: "jni_classes (sample_jni refused) sample_view"
  unfolding jni_classes_def
proof (intro allI impI conjI ballI)
  fix j :: machine
  assume np: "\<not> vw_pending sample_view j"
  have env: "same_env (sample_jni refused) j j'" for j' by (simp add: same_env_def sample_jni_def)
  show "\<exists>r j'. jni_find_class (sample_jni refused) name j = Inr (r, j') \<and>
      returns_local sample_view j r j' \<and> same_env (sample_jni refused) j j'" for name
    using m_local_returns(1)[of "Java_Class name" j] np env
    by (cases "m_local (Java_Class name) j") (auto simp: sample_jni_def m_guard_def)
  fix r
  assume r: "r \<in> vw_live sample_view j"
  let ?n = "m_new (map fst (m_globals j))"
  let ?j = "j\<lparr>m_globals := (?n, m_object r j) # m_globals j\<rparr>"
  have n: "?n \<notin> fst ` set (m_globals j)" "0 < ?n"
    using m_new_fresh[of "map fst (m_globals j)"] by (simp_all add: m_new_def)
  have "\<not> m_live (2 * ?n) j" using n by (simp add: m_live_def)
  moreover have "m_live s ?j \<longleftrightarrow> s = 2 * ?n \<or> m_live s j" for s
    using n by (auto simp: m_live_def)
  ultimately show "\<exists>g j'. jni_new_global_ref (sample_jni refused) r j = Inr (g, j') \<and>
      vw_locals sample_view j' = vw_locals sample_view j \<and> (vw_pending sample_view j' \<longrightarrow> g = 0) \<and>
      (if g = 0 then vw_globals sample_view j' = vw_globals sample_view j
       else g \<notin> vw_live sample_view j \<and> vw_globals sample_view j' = insert g (vw_globals sample_view j)) \<and>
      same_env (sample_jni refused) j j'"
    using r np env n(2)
    by (intro exI[of _ "2 * ?n"] exI[of _ ?j])
      (auto simp: sample_jni_def m_guard_def Let_def set_eq_iff)
next
  fix j :: machine and c name sig
  assume "\<not> vw_pending sample_view j" "c \<in> vw_live sample_view j"
  then show "\<exists>m j'. jni_get_static_method_id (sample_jni refused) c name sig j = Inr (m, j') \<and>
      same_refs sample_view j j' \<and> (vw_pending sample_view j' \<longleftrightarrow> m = 0) \<and> same_env (sample_jni refused) j j'"
    by (simp add: sample_jni_def m_guard_def)
next
  fix j :: machine and c ms
  assume "\<not> vw_pending sample_view j" "c \<in> vw_live sample_view j"
  then show "\<exists>n j'. jni_register_natives (sample_jni refused) c ms j = Inr (n, j') \<and>
      same_refs sample_view j j' \<and> (n = 0 \<longrightarrow> \<not> vw_pending sample_view j') \<and> same_env (sample_jni refused) j j'"
    by (simp add: sample_jni_def m_guard_def)
qed

lemma sample_strings: "jni_strings (sample_jni refused) sample_view"
  unfolding jni_strings_def
proof (intro allI impI conjI ballI)
  fix j :: machine and b
  assume np: "\<not> vw_pending sample_view j"
  have env: "same_env (sample_jni refused) j j'" for j' by (simp add: same_env_def sample_jni_def)
  show "\<exists>r j'. jni_new_string_utf (sample_jni refused) b j = Inr (r, j') \<and>
      returns_local sample_view j r j' \<and> same_elems sample_view j j' \<and> same_env (sample_jni refused) j j' \<and>
      (r \<noteq> 0 \<longrightarrow> vw_text sample_view (vw_object sample_view r j') = b)"
  proof (cases "refused b")
    case True
    then show ?thesis
      using np env by (intro exI[of _ 0] exI[of _ "j\<lparr>m_pending := True\<rparr>"])
        (auto simp: sample_jni_def m_guard_def returns_local_def same_objects_def same_elems_def
          m_object_def m_elems_def m_live_def set_eq_iff)
  next
    case False
    then show ?thesis
      using m_local_returns[of "Java_String b" j] np env
      by (cases "m_local (Java_String b) j") (auto simp: sample_jni_def m_guard_def)
  qed
next
  fix j :: machine and s
  assume "\<not> vw_pending sample_view j" "s \<in> vw_live sample_view j"
  then show "\<exists>c j'. jni_get_string_utf_chars (sample_jni refused) s j = Inr (c, j') \<and>
      same_refs sample_view j j' \<and> same_elems sample_view j j' \<and> same_env (sample_jni refused) j j' \<and>
      (vw_pending sample_view j' \<longleftrightarrow> c = None) \<and>
      (case c of None \<Rightarrow> True | Some buf \<Rightarrow> prefix (vw_text sample_view (vw_object sample_view s j) @ [0]) buf)"
    by (simp add: sample_jni_def m_guard_def)
next
  fix j :: machine and s
  assume "\<not> vw_pending sample_view j" "s \<in> vw_live sample_view j"
  then show "jni_get_string_utf_length (sample_jni refused) s j =
      Inr (int (length (vw_text sample_view (vw_object sample_view s j))))"
    by (simp add: sample_jni_def m_guard_def)
next
  fix j :: machine and s
  assume "s \<in> vw_live sample_view j"
  then show "\<exists>j'. jni_release_string_utf_chars (sample_jni refused) s j = Inr j' \<and>
      same_refs sample_view j j' \<and> same_elems sample_view j j' \<and> same_env (sample_jni refused) j j' \<and>
      vw_pending sample_view j' = vw_pending sample_view j"
    by (simp add: sample_jni_def)
qed

lemma m_new_array_returns:
  assumes "m_new_array n j = (r, j')" "\<not> m_pending j"
  shows "returns_local sample_view j r j'" "same_elems sample_view j j'"
    "m_object r j' \<notin> (\<lambda>s. m_object s j) ` {s. m_live s j}" "m_elems (m_object r j') j' = replicate (nat n) None"
    "r \<noteq> 0"
proof -
  let ?ids = "map (\<lambda>p. m_array_id (snd p)) (m_locals j @ m_globals j)"
  let ?a = "Java_Array (m_new ?ids)"
  let ?j = "j\<lparr>m_arrays := (?a, replicate (nat n) None) # m_arrays j\<rparr>"
  have l: "m_local ?a ?j = (r, j')" using assms(1) by (simp add: m_new_array_def Let_def)
  note new = m_local_new[OF l]
  have live: "m_live s ?j \<longleftrightarrow> m_live s j" "m_object s ?j = m_object s j" for s
    by (simp_all add: m_live_def m_object_def)
  have fresh: "m_object s j \<noteq> ?a" if "m_live s j" for s
  proof -
    let ?t = "if odd s then m_locals j else m_globals j"
    from that obtain x where "map_of ?t (s div 2) = Some x"
      by (cases "map_of ?t (s div 2)") (auto simp: m_live_def map_of_eq_None_iff)
    then have "m_object s j = x" "(s div 2, x) \<in> set ?t" by (auto simp: m_object_def dest: map_of_SomeD)
    then have x: "m_object s j = x" "(s div 2, x) \<in> set (m_locals j @ m_globals j)"
      by (simp_all split: if_splits)
    then have "m_array_id (snd (s div 2, x)) \<in> set ?ids" unfolding set_map by (intro imageI)
    then have "m_array_id (m_object s j) \<in> set ?ids" using x(1) by simp
    then show ?thesis using m_new_fresh[of ?ids] by (metis m_array_id.simps(1))
  qed
  show "returns_local sample_view j r j'"
    using m_local_returns(1)[OF l] assms(2) live by (auto simp: returns_local_def same_objects_def set_eq_iff)
  show "same_elems sample_view j j'"
    using fresh new(7) by (auto simp: same_elems_def m_elems_def)
  show "m_elems (m_object r j') j' = replicate (nat n) None"
    using new(5,7) by (simp add: m_elems_def)
  show "m_object r j' \<notin> (\<lambda>s. m_object s j) ` {s. m_live s j}"
    using fresh unfolding new(5) by force
  show "r \<noteq> 0" using new(3) .
qed

lemma sample_arrays: "jni_arrays (sample_jni refused) sample_view"
  unfolding jni_arrays_def
proof (intro allI impI conjI ballI)
  fix j :: machine and n :: int and c
  assume "\<not> vw_pending sample_view j" "c \<in> vw_live sample_view j" "0 \<le> n"
  then show "\<exists>r j'. jni_new_object_array (sample_jni refused) n c j = Inr (r, j') \<and>
      returns_local sample_view j r j' \<and> same_elems sample_view j j' \<and>
      (r \<noteq> 0 \<longrightarrow> vw_object sample_view r j' \<notin> (\<lambda>s. vw_object sample_view s j) ` vw_live sample_view j \<and>
         vw_elems sample_view (vw_object sample_view r j') j' = replicate (nat n) None)"
    using m_new_array_returns[of n j]
    by (cases "m_new_array n j") (simp add: sample_jni_def m_guard_def)
next
  fix j :: machine and a
  assume "\<not> vw_pending sample_view j" "a \<in> vw_live sample_view j"
  then show "jni_get_array_length (sample_jni refused) a j =
      Inr (int (length (vw_elems sample_view (vw_object sample_view a j) j)))"
    by (simp add: sample_jni_def m_guard_def)
next
  fix j :: machine and a i
  assume "\<not> vw_pending sample_view j" "a \<in> vw_live sample_view j"
    "i < length (vw_elems sample_view (vw_object sample_view a j) j)"
  then show "\<exists>r j'. jni_get_object_array_element (sample_jni refused) a (int i) j = Inr (r, j') \<and>
      same_elems sample_view j j' \<and>
      (case vw_elems sample_view (vw_object sample_view a j) j ! i of
         None \<Rightarrow> r = 0 \<and> same_refs sample_view j j' \<and> \<not> vw_pending sample_view j'
       | Some x \<Rightarrow> returns_local sample_view j r j' \<and> (r \<noteq> 0 \<longrightarrow> vw_object sample_view r j' = x))"
    using m_local_returns[of "the (m_elems (m_object a j) j ! i)" j]
    by (cases "m_elems (m_object a j) j ! i"; cases "m_local (the (m_elems (m_object a j) j ! i)) j")
      (auto simp: sample_jni_def m_guard_def)
next
  fix j :: machine and a i r
  let ?j = "j\<lparr>m_arrays := (m_object a j, (m_elems (m_object a j) j)[i := Some (m_object r j)]) # m_arrays j\<rparr>"
  assume "\<not> vw_pending sample_view j" "a \<in> vw_live sample_view j" "r \<in> vw_live sample_view j"
  then show "\<exists>j'. jni_set_object_array_element (sample_jni refused) a (int i) r j = Inr j' \<and>
      same_refs sample_view j j' \<and> \<not> vw_pending sample_view j' \<and>
      (\<forall>s \<in> vw_live sample_view j. vw_elems sample_view (vw_object sample_view s j) j' =
         (if vw_object sample_view s j = vw_object sample_view a j
          then (vw_elems sample_view (vw_object sample_view s j) j)[i := Some (vw_object sample_view r j)]
          else vw_elems sample_view (vw_object sample_view s j) j))"
    by (intro exI[of _ ?j]) (auto simp: sample_jni_def m_guard_def same_refs_def same_objects_def
        m_elems_def m_object_def m_live_def set_eq_iff)
qed

lemma sample_creates: "jni_creates (sample_jni refused) sample_view"
  unfolding jni_creates_def
proof (intro allI ballI impI)
  fix j :: machine and m ns c name a
  let ?x = "Java_Span (ns, m_text (m_object name j), map (map_option m_text) (m_elems (m_object a j) j))"
  assume "c \<in> vw_live sample_view j" "name \<in> vw_live sample_view j" "a \<in> vw_live sample_view j"
    "\<not> vw_pending sample_view j"
  moreover obtain r j' where "m_local ?x j = (r, j')" by fastforce
  moreover from this calculation have "returns_local sample_view j r j'" "same_elems sample_view j j'"
    "m_object r j' = ?x"
    using m_local_returns[of ?x j r j'] by simp_all
  ultimately show "\<exists>r j'. jni_call_create_span (sample_jni refused) c m ns name a j = Inr (r, j') \<and>
      returns_local sample_view j r j' \<and> same_elems sample_view j j' \<and>
      (r \<noteq> 0 \<longrightarrow> vw_made_by sample_view (vw_object sample_view r j') =
         (ns, vw_text sample_view (vw_object sample_view name j), vw_texts sample_view a j))"
    by (intro exI[of _ r] exI[of _ j']) (simp add: sample_jni_def m_guard_def vw_texts_def)
qed

lemma sample_sound [simp]: "jni_sound (sample_jni refused) sample_view"
  by (simp add: jni_sound_def sample_deletes sample_classes sample_strings sample_arrays sample_creates)

lemma sample_machine [simp]:
  "grants_globals (sample_jni refused)" "jni_machine (sample_jni refused)" "attached (sample_jni refused) j"
  by (auto simp: grants_globals_def jni_machine_def attached_def sample_jni_def m_guard_def m_new_def
      Let_def split: if_splits)

lemma sample_allocates [simp]: "jni_allocates (sample_jni (\<lambda>_. False)) sample_view"
proof -
  have l: "r \<noteq> 0" if "m_local x j = (r, j')" for x j r j' using m_local_new(3)[OF that] .
  have a: "r \<noteq> 0" if "m_new_array n j = (r, j')" for n j r j'
    using that l by (auto simp: m_new_array_def Let_def)
  show ?thesis
    unfolding jni_allocates_def
    by (intro conjI allI impI)
      (auto simp: sample_jni_def m_guard_def split: if_splits option.splits dest: l a)
qed

lemma sample_refuses [simp]: "refuses_pending (sample_jni refused) sample_view"
  by (simp add: refuses_pending_def sample_jni_def m_guard_def)

text \<open>The same machine with its table of global references full.\<close>

definition full_jni :: "machine jni" where
  "full_jni = (sample_jni (\<lambda>_. False))\<lparr>jni_new_global_ref := \<lambda>r j. m_guard j [r] (0, j)\<rparr>"

lemma full_jni_simps [simp]:
  "jni_get_env full_jni = jni_get_env (sample_jni (\<lambda>_. False))"
  "jni_get_java_vm full_jni = jni_get_java_vm (sample_jni (\<lambda>_. False))"
  "jni_find_class full_jni = jni_find_class (sample_jni (\<lambda>_. False))"
  "jni_new_global_ref full_jni = (\<lambda>r j. m_guard j [r] (0, j))"
  "jni_delete_global_ref full_jni = jni_delete_global_ref (sample_jni (\<lambda>_. False))"
  "jni_delete_local_ref full_jni = jni_delete_local_ref (sample_jni (\<lambda>_. False))"
  "jni_get_static_method_id full_jni = jni_get_static_method_id (sample_jni (\<lambda>_. False))"
  "jni_register_natives full_jni = jni_register_natives (sample_jni (\<lambda>_. False))"
  by (simp_all add: full_jni_def)

lemma full_env: "same_env full_jni = same_env (sample_jni (\<lambda>_. False))"
  by (intro ext) (simp add: same_env_def)

lemma full_deletes: "jni_deletes full_jni sample_view"
  using sample_deletes[of "\<lambda>_. False"] by (simp add: jni_deletes_def full_env)

lemma full_classes: "jni_classes full_jni sample_view"
proof -
  have "same_env (sample_jni (\<lambda>_. False)) j j" for j by (simp add: same_env_def)
  then show ?thesis
    using sample_classes[of "\<lambda>_. False"] by (auto simp: jni_classes_def full_env m_guard_def)
qed

lemma full_refuses:
  "knows_classes full_jni" "refuses_globals full_jni" "checks_lookups full_jni sample_view"
proof -
  show "knows_classes full_jni"
    using m_local_new(3) by (fastforce simp: knows_classes_def sample_jni_def m_guard_def split: if_splits)
  show "refuses_globals full_jni" by (auto simp: refuses_globals_def m_guard_def split: if_splits)
  show "checks_lookups full_jni sample_view"
    by (simp add: checks_lookups_def sample_jni_def m_guard_def m_live_def)
qed

section \<open>States\<close>

text \<open>A loaded cache; Java holds the strings \<open>n\<close>, \<open>k\<close>, \<open>v\<close> and the array of \<open>k\<close> and \<open>v\<close>.\<close>

definition sample_cache :: span_jclass_cache where
  "sample_cache = \<lparr>sc_vm = 1, sc_span_class = 2, sc_string_class = 4, sc_span_create = 1\<rparr>"

definition sample_jvm :: machine where
  "sample_jvm =
     \<lparr>m_locals = [(0, Java_String [0x6e]), (1, Java_String [0x6b]), (2, Java_String [0x76]), (3, Java_Array 1)],
      m_globals = [(1, Java_Class ''Span''), (2, Java_Class ''String'')],
      m_arrays = [(Java_Array 1, [Some (Java_String [0x6b]), Some (Java_String [0x76])])],
      m_pending = False\<rparr>"

lemma sample_jvm_simps [simp]:
  "\<not> m_pending sample_jvm"
  "m_live 1 sample_jvm" "m_live (Suc 0) sample_jvm" "m_live 3 sample_jvm" "m_live 5 sample_jvm" "m_live 7 sample_jvm"
  "m_object 1 sample_jvm = Java_String [0x6e]" "m_object (Suc 0) sample_jvm = Java_String [0x6e]" "m_object 3 sample_jvm = Java_String [0x6b]"
  "m_object 5 sample_jvm = Java_String [0x76]" "m_object 7 sample_jvm = Java_Array 1"
  "m_elems (Java_Array 1) sample_jvm = [Some (Java_String [0x6b]), Some (Java_String [0x76])]"
  "m_elems (Java_Array (Suc 0)) sample_jvm = [Some (Java_String [0x6b]), Some (Java_String [0x76])]"
  by (simp_all add: sample_jvm_def m_live_def m_object_def m_elems_def)

lemma sample_cache_live [simp]: "cache_live sample_view sample_cache sample_jvm"
  by (auto simp: cache_live_def sample_cache_def sc_is_initialized_def sc_owned_def sample_jvm_def m_live_def)

end
