(* ===== verification/Java_Sessions.thy ===== *)
theory Java_Sessions
  imports Native_Laws Process_Laws Crash_Words
begin

text \<open>
  Sessions driven from Java: the strings of every call are modified UTF-8. The live spans of
  the specification keep that through every call, truncated fields and updated attributes
  included, so the next process can make Java objects of all of them. The exception is a value
  that a crash has cut inside a character.
\<close>

section \<open>Text in the store\<close>

abbreviation pairs_utf8 :: "attributes_list \<Rightarrow> bool" where
  "pairs_utf8 kvs \<equiv> list_all (\<lambda>(k, v). modified_utf8 k \<and> modified_utf8 v) kvs"

fun java_op :: "mutable_op \<Rightarrow> bool" where
  "java_op (Op_Add s) \<longleftrightarrow> modified_utf8 (sp_name s) \<and> pairs_utf8 (sp_attributes s)"
| "java_op (Op_Set_Attribute span_id key val) \<longleftrightarrow> modified_utf8 key \<and> modified_utf8 val"
| "java_op _ \<longleftrightarrow> True"

definition java_raw :: "mmap_size \<Rightarrow> raw_span \<Rightarrow> bool" where
  "java_raw sz r \<longleftrightarrow>
     clean_raw_span sz r \<and> modified_utf8 (text_of (raw_name r)) \<and> pairs_utf8 (stored_attributes r)"

lemma java_to_raw_span:
  assumes "java_op (Op_Add s)"
  shows "java_raw sz (to_raw_span sz s)"
proof -
  let ?n = "min (length (sp_attributes s)) (max_attributes (mmap_config sz))"
  have n: "unat (of_nat ?n :: u64) = ?n"
    using max_attributes_bounds(2)[of sz] by (simp add: min_def)
  have name: "text_of (raw_name (to_raw_span sz s)) = utf8_trunc span_name_size (sp_name s)"
    using assms text_of_c_str[OF name_field.put_read, of "replicate span_name_size 0" "sp_name s"]
    by (simp add: to_raw_span_eq kept_modified_utf8[unfolded kept_text_def])
  have "stored_attributes (to_raw_span sz s) =
      map (\<lambda>kv. attribute_text (raw_attribute_of kv)) (take ?n (sp_attributes s))"
    by (simp add: stored_attributes_def to_raw_span_eq n del: min_less_iff_conj)
  moreover have "modified_utf8 k \<Longrightarrow> modified_utf8 v \<Longrightarrow> attribute_text (raw_attribute_of (k, v)) =
      (utf8_trunc attr_key_size k, utf8_trunc attr_value_size v)" for k v
    using text_of_c_str[OF c_str_raw_attribute_of(1), of k v] text_of_c_str[OF c_str_raw_attribute_of(2), of k v]
    by (simp add: attribute_text_def kept_modified_utf8[unfolded kept_text_def])
  ultimately have "pairs_utf8 (stored_attributes (to_raw_span sz s))"
    using assms by (auto simp: list_all_iff modified_utf8_trunc dest!: in_set_takeD bspec)
  then show ?thesis using assms by (simp add: java_raw_def name modified_utf8_trunc)
qed

lemma pairs_utf8_upsert:
  assumes "pairs_utf8 kvs" "modified_utf8 k" "modified_utf8 v"
  shows "pairs_utf8 (upsert limit k v kvs)"
proof -
  have "pairs_utf8 kvs'" if "update_first k v kvs = Some kvs'" for kvs'
    using that assms by (induction k v kvs arbitrary: kvs' rule: update_first.induct) (auto split: if_splits)
  then show ?thesis using assms by (auto simp: upsert_def split: option.split)
qed

lemma java_with_attribute:
  assumes "java_raw sz r" "modified_utf8 key" "modified_utf8 val"
  shows "java_raw sz (with_attribute sz key val r)"
proof -
  have name: "raw_name (with_attribute sz key val r) = raw_name r"
    by (simp add: with_attribute_def Let_def upd_attr_def split: option.splits)
  have "pairs_utf8 (stored_attributes (with_attribute sz key val r))"
    using assms modified_utf8_no_nul[OF assms(2)] unfolding java_raw_def
    by (simp add: stored_with_attribute pairs_utf8_upsert modified_utf8_trunc kept_modified_utf8)
  then show ?thesis using assms(1) by (simp add: java_raw_def name clean_with_attribute)
qed

section \<open>Sessions\<close>

lemma java_spec_step:
  assumes "java_op op" "list_all (java_raw sz) rs"
  shows "list_all (java_raw sz) (spec_step sz op rs)"
proof (cases op)
  case (Op_Add s)
  then show ?thesis
    using assms java_to_raw_span[of s sz] by (cases rs) (auto simp: spec_add_def)
next
  case (Op_Remove i)
  then show ?thesis using assms by (auto simp: spec_remove_def list_all_iff)
next
  case (Op_End now i t)
  have "java_raw sz (r\<lparr>raw_end_time := x\<rparr>)" if "java_raw sz r" for r x
    using that by (simp add: java_raw_def clean_raw_span_def wf_raw_span_def stored_attributes_def)
  then show ?thesis using assms Op_End by (auto simp: spec_modify_def list_all_iff)
next
  case (Op_Set_Attribute i k v)
  then show ?thesis using assms java_with_attribute by (auto simp: spec_modify_def list_all_iff)
qed

lemma java_spec_run:
  "list_all java_op ops \<Longrightarrow> list_all (java_raw sz) rs \<Longrightarrow> list_all (java_raw sz) (spec_run sz ops rs)"
  by (induction ops arbitrary: rs) (simp_all add: java_spec_step)

text \<open>The list of live spans never outgrows the size class.\<close>

lemma spec_step_bounded:
  "length rs \<le> max_spans (mmap_config sz) \<Longrightarrow> length (spec_step sz op rs) \<le> max_spans (mmap_config sz)"
  using max_spans_bounds(1)[of sz]
  by (cases op) (auto simp: spec_add_def spec_remove_def spec_modify_def intro: order.trans[OF length_filter_le])

lemma spec_run_bounded:
  "length rs \<le> max_spans (mmap_config sz) \<Longrightarrow> length (spec_run sz ops rs) \<le> max_spans (mmap_config sz)"
  by (induction ops arbitrary: rs) (simp_all add: spec_step_bounded)

lemma java_raw_span:
  assumes "java_raw sz r" "span_of_raw r = Inr s"
  shows "span_utf8 s"
proof -
  have c: "clean_raw_span sz r" using assms(1) by (simp add: java_raw_def)
  have "length (stored_attributes r) \<le> 128"
    using c max_attributes_bounds(2)[of sz] by (simp add: stored_attributes_def clean_raw_span_def min_le_iff_disj)
  then have "length (sp_attributes s) \<le> 128"
    unfolding span_of_raw_attributes(1)[OF c assms(2)] by (rule order.trans[OF length_filter_le])
  moreover have "sp_name s = text_of (raw_name r)"
    using assms(2) by (auto simp: span_of_raw_def res_bind_Inr_iff dest: text_of_c_str)
  moreover have "pairs_utf8 (sp_attributes s)"
    using assms(1) unfolding span_of_raw_attributes(1)[OF c assms(2)] java_raw_def by (auto simp: list_all_iff)
  ultimately show ?thesis using assms(1) by (simp add: span_utf8_def java_raw_def)
qed

lemma java_recovered:
  assumes "list_all (java_raw sz) rs" "list_all2 (\<lambda>r s. span_of_raw r = Inr s) rs ss"
  shows "list_all span_utf8 ss"
  using assms(2,1) by (induction rule: list_all2_induct) (auto dest: java_raw_span)

text \<open>A context over readable spans of Java, and the list of objects made of them.\<close>

lemma java_objects:
  assumes init: "initialize_span_data os target (pr_kernel q) = Inr (Some c, k')" "\<not> cx_is_recovered c"
    and rs: "list_all2 (\<lambda>r s. span_of_raw r = Inr s) rs (cx_recovered_spans c)" "list_all (java_raw sz) rs"
      "length rs \<le> max_spans (mmap_config sz)"
    and p: "p \<noteq> 0"
    and jvm: "jni_sound J V" "jni_allocates J V" "\<not> vw_pending V j" "env \<noteq> 0" "cache_live V g j"
  shows "\<exists>q1 a q2 j' obs. pr_initialize os p target q = Inr (p, q1) \<and>
    recover_spans_native J g env p q1 j = Inr (a, q2, j') \<and> frame V {} {a} j j' \<and>
    vw_elems V (vw_object V a j') j' = map Some obs \<and>
    list_all2 (\<lambda>r x. \<exists>s. span_of_raw r = Inr s \<and> vw_made_by V x = jni_span s) rs obs"
proof -
  let ?q1 = "q\<lparr>pr_kernel := k', pr_contexts := (pr_contexts q)(p \<mapsto> c),
    pr_writers := (pr_writers q)(p \<mapsto> Map.empty)\<rparr>"
  have q1: "pr_initialize os p target q = Inr (p, ?q1)" using init(1) by (simp add: pr_initialize_def)
  have utf: "list_all span_utf8 (cx_recovered_spans c)" using rs(2,1) by (rule java_recovered)
  have "length (cx_recovered_spans c) < 2 ^ 31"
    using list_all2_lengthD[OF rs(1)] rs(3) max_spans_bounds(2)[of sz] by simp
  from create_jni_span_objects_array_frame[OF jvm utf this] obtain a j' obs where
    o: "create_jni_span_objects_array J g env (cx_recovered_spans c) j = Inr (a, j')"
      "frame V {} {a} j j'" "vw_elems V (vw_object V a j') j' = map Some obs"
      "map (vw_made_by V) obs = map jni_span (cx_recovered_spans c)"
    by blast
  let ?q2 = "?q1\<lparr>pr_contexts := (pr_contexts ?q1)(p \<mapsto> c\<lparr>cx_is_recovered := True, cx_recovered_spans := []\<rparr>)\<rparr>"
  have "get_recovered_spans p ?q1 = Inr (cx_recovered_spans c, ?q2)"
    using init(2) p by (simp add: get_recovered_spans_def)
  then have r: "recover_spans_native J g env p ?q1 j = Inr (a, ?q2, j')"
    using o(1) by (simp add: recover_spans_native_def)
  have "list_all2 (\<lambda>r x. \<exists>s. span_of_raw r = Inr s \<and> vw_made_by V x = jni_span s) rs obs"
  proof (rule list_all2_all_nthI)
    have len: "length obs = length (cx_recovered_spans c)" using map_eq_imp_length_eq[OF o(4)] .
    show "length rs = length obs" using list_all2_lengthD[OF rs(1)] len by simp
    fix n assume "n < length rs"
    then have "span_of_raw (rs ! n) = Inr (cx_recovered_spans c ! n)"
      "vw_made_by V (obs ! n) = jni_span (cx_recovered_spans c ! n)"
      using list_all2_nthD[OF rs(1)] list_all2_lengthD[OF rs(1)] len arg_cong[OF o(4), of "\<lambda>xs. xs ! n"]
      by simp_all
    then show "\<exists>s. span_of_raw (rs ! n) = Inr s \<and> vw_made_by V (obs ! n) = jni_span s" by blast
  qed
  then show ?thesis
    by (intro exI[of _ ?q1] exI[of _ a] exI[of _ ?q2] exI[of _ j'] exI[of _ obs] conjI q1 r o(2,3))
qed

text \<open>A session, the next start, and its list of Java objects.\<close>

lemma java_restart:
  assumes "call_ok (Api_Initialize os addr (mmap_size_code sz)) (new_process contents)"
    and "pr_initialize os addr (mmap_size_code sz) (new_process contents) = Inr (addr, pr1)"
    and ops: "list_all valid_op ops" "length ops < 2 ^ 64" "list_all java_op ops"
    and run: "api_run (Api_Recover addr # map (Api_Write addr) ops) pr1 = Inr pr2"
    and next_start: "k_file (pr_kernel q) = k_file (pr_kernel pr2)" "os_page_size os' = os_page_size os"
      "os_sound os' (pr_kernel q)" "calls_succeed os' target (pr_kernel q)" "p \<noteq> 0"
    and jvm: "jni_sound J V" "jni_allocates J V" "\<not> vw_pending V j" "env \<noteq> 0" "cache_live V g j"
  shows "\<exists>q1 rs a q2 j' obs. pr_initialize os' p target q = Inr (p, q1) \<and>
    mset rs = mset (spec_run sz ops []) \<and>
    recover_spans_native J g env p q1 j = Inr (a, q2, j') \<and> frame V {} {a} j j' \<and>
    vw_elems V (vw_object V a j') j' = map Some obs \<and>
    list_all2 (\<lambda>r x. \<exists>s. span_of_raw r = Inr s \<and> vw_made_by V x = jni_span s) rs obs"
proof -
  from session_restart[OF assms(1,2) ops(1,2) run next_start(1-4)] obtain c k' rs where
    i: "initialize_span_data os' target (pr_kernel q) = Inr (Some c, k')" "\<not> cx_is_recovered c"
      "list_all2 (\<lambda>r s. span_of_raw r = Inr s) rs (cx_recovered_spans c)" "mset rs = mset (spec_run sz ops [])"
    by blast
  have set: "set rs = set (spec_run sz ops [])" using i(4) by (rule mset_eq_setD)
  have "list_all (java_raw sz) rs" using java_spec_run[OF ops(3), of sz "[]"] set by (simp add: list_all_iff)
  moreover have "length rs \<le> max_spans (mmap_config sz)"
    using spec_run_bounded[of "[]" sz ops] mset_eq_length[OF i(4)] by simp
  ultimately show ?thesis
    using java_objects[OF i(1-3) _ _ next_start(5) jvm] i(4) by blast
qed

section \<open>Crashes of a session\<close>

text \<open>
  Unless the call that dies is writing an attribute, every span it leaves is a span of the
  specification before or after a call of Java, so that it has only whole characters.
\<close>

lemma survives_java:
  assumes s: "survives sz op before found" and op: "java_op op" "\<And>i k v. op \<noteq> Op_Set_Attribute i k v"
    and before: "list_all (java_raw sz) before"
  shows "list_all (java_raw sz) found"
proof -
  have "\<not> half_written sz op before r" for r using op(2) by (cases op) auto
  then show ?thesis
    using s before java_spec_step[OF op(1) before] by (auto simp: survives_def list_all_iff)
qed

lemma torn_ops_java:
  assumes "op' \<in> set (torn_ops op before)" "java_op op" "\<And>i k v. op \<noteq> Op_Set_Attribute i k v"
  shows "java_op op' \<and> (\<forall>i k v. op' \<noteq> Op_Set_Attribute i k v)"
  using assms by (cases op) (auto split: if_splits)

lemma java_crash:
  assumes ops: "list_all valid_op (ops @ [op])" "length ops + 1 < 2 ^ 64" "list_all java_op (ops @ [op])"
      "\<And>i k v. op \<noteq> Op_Set_Attribute i k v"
    and run: "mut_run ops (fresh_writer sz) = Inr m"
    and crash: "crash_image32 sz (op_stores sz op m) (mut_layout m) l"
    and img: "k_file (pr_kernel q) = enc_layout l @ pad"
      "get_page_size (os_page_size os) \<le> length (k_file (pr_kernel q))"
    and os: "os_sound os (pr_kernel q)" "calls_succeed os target (pr_kernel q)" "p \<noteq> 0"
    and jvm: "jni_sound J V" "jni_allocates J V" "\<not> vw_pending V j" "env \<noteq> 0" "cache_live V g j"
  shows "\<exists>q1 a q2 j' obs. pr_initialize os p target q = Inr (p, q1) \<and>
    recover_spans_native J g env p q1 j = Inr (a, q2, j') \<and> frame V {} {a} j j' \<and>
    vw_elems V (vw_object V a j') j' = map Some obs \<and>
    list_all2 (\<lambda>r x. \<exists>s. span_of_raw r = Inr s \<and> vw_made_by V x = jni_span s) (recoverable l) obs \<and>
    (\<exists>op' \<in> set (torn_ops op (spec_run sz ops [])). survives sz op' (spec_run sz ops []) (recoverable l))"
proof -
  from restart_recovers32[OF ops(1,2) run crash img os(1,2)] obtain c k' op' where
    c: "initialize_span_data os target (pr_kernel q) = Inr (Some c, k')" "\<not> cx_is_recovered c"
      "list_all2 (\<lambda>r s. span_of_raw r = Inr s) (recoverable l) (cx_recovered_spans c)"
    and op': "op' \<in> set (torn_ops op (spec_run sz ops []))" "survives sz op' (spec_run sz ops []) (recoverable l)"
    by (auto simp: fresh_context_def)
  have "list_all (java_raw sz) (spec_run sz ops [])" using ops(3) by (intro java_spec_run) simp_all
  moreover have "java_op op'" "\<And>i k v. op' \<noteq> Op_Set_Attribute i k v"
    using torn_ops_java[OF op'(1) _ ops(4)] ops(3) by simp_all
  ultimately have raw: "list_all (java_raw sz) (recoverable l)"
    using survives_java[OF op'(2)] by blast
  from mut_run_refines[of sz "fresh_writer sz" ops] ops(1,2) run have
    "mut_inv sz m" "unat (mut_counter m) \<le> length ops"
    by auto
  then have "recovers sz l" using crash_run32[OF _ _ crash] ops(2) by simp
  then have "length (recoverable l) \<le> max_spans (mmap_config sz)"
    by (auto simp: recovers_def recoverable_def active_def intro: order.trans[OF length_filter_le])
  from java_objects[OF c raw this os(3) jvm] op' show ?thesis by blast
qed

section \<open>Text cut by a crash\<close>

lemma modified_utf8_suffix: "modified_utf8 x \<Longrightarrow> modified_utf8 (x @ z) \<Longrightarrow> modified_utf8 z"
proof (induction x rule: modified_utf8.induct)
  case (2 a bs)
  consider "a < 0x80" | (two) "\<not> a < 0x80" "a AND 0xe0 = 0xc0"
    | (three) "\<not> a < 0x80" "a AND 0xe0 \<noteq> 0xc0" "a AND 0xf0 = 0xe0"
    using 2(4) by (auto split: if_splits)
  then show ?case
  proof cases
    case two
    then obtain b rest where "bs = b # rest" "modified_utf8 rest" "modified_utf8 (rest @ z)"
      using 2(4,5) by (cases bs) simp_all
    with 2(2)[OF two] show ?thesis by simp
  next
    case three
    then obtain b c rest where "bs = b # c # rest" "modified_utf8 rest" "modified_utf8 (rest @ z)"
      using 2(4,5) by (auto split: list.splits)
    with 2(3)[OF three] show ?thesis by simp
  qed (use 2 in simp)
qed simp

text \<open>Cut before a continuation byte a text is not modified UTF-8.\<close>

lemma modified_utf8_cut:
  assumes "modified_utf8 t" "k < length t" "is_utf8_continuation_byte (t ! k)"
  shows "\<not> modified_utf8 (take k t)"
proof
  assume "modified_utf8 (take k t)"
  moreover have "t = take k t @ t ! k # drop (Suc k) t" using assms(2) by (rule id_take_nth_drop)
  ultimately have "modified_utf8 (t ! k # drop (Suc k) t)" using assms(1) modified_utf8_suffix by metis
  with assms(3) show False
    using ascii_no_continuation[of "t ! k"] lead_no_continuation[of "t ! k"] by (auto split: if_splits)
qed

lemma crash_unreadable:
  fixes i :: index_t
  assumes d: "rsd_inv sz d" and i: "unat i < length (rsd_slots d)" and val: "modified_utf8 val"
    and q: "first_index (\<lambda>a. key_equals attr_key_size key (attr_key a))
      (take (unat (raw_attr_count (slot_span (rd_layout d) (unat i))))
        (raw_attributes (slot_span (rd_layout d) (unat i)))) = Some q"
    and k: "k < length (utf8_trunc attr_value_size val)" "is_utf8_continuation_byte (val ! k)"
  shows "\<exists>j ss l s. set_attribute_stores sz (unat i) key val (slot_span (rd_layout d) (unat i)) = Inr (j, ss) \<and>
    crash_image sz ss (rd_layout d) l \<and> slot_mark l (unat i) = slot_mark (rd_layout d) (unat i) \<and>
    span_of_raw (slot_span l (unat i)) = Inr s \<and> \<not> span_utf8 s"
proof -
  let ?l = "rd_layout d" and ?r = "slot_span (rd_layout d) (unat i)"
  let ?t = "utf8_trunc attr_value_size val" and ?u = "upd_attr q (\<lambda>a. a\<lparr>attr_value := cut_value k val\<rparr>) ?r"
  have clean: "clean_raw_span sz ?r" using rsd_slot(5)[OF d i] .
  have c: "q < unat (raw_attr_count ?r)" "q < length (raw_attributes ?r)"
    "unat (raw_attr_count ?r) \<le> length (raw_attributes ?r)" "clean_attribute (raw_attributes ?r ! q)"
    using clean first_index_Some[OF q] by (simp_all add: clean_raw_span_def wf_raw_span_def list_all_length)
  have n: "unat i < length (ml_marked_spans ?l)"
    using rsd_slot(2)[OF d i] d by (simp add: rsd_inv_def layout_inv_def wf_layout_def)
  have nz: "0 \<notin> set val" using val by (rule modified_utf8_no_nul)
  have ss: "set_attribute_stores sz (unat i) key val ?r =
      Inr (of_nat q, update_attribute_stores (unat i) q val (raw_attributes ?r ! q))"
    using q c(3) by (simp add: set_attribute_stores_def find_attribute_eq)
  from crash_update_cut[OF n c(2,4) nz, of sz k] obtain l where
    l: "crash_image sz (update_attribute_stores (unat i) q val (raw_attributes ?r ! q)) ?l l"
      "slot_mark l (unat i) = slot_mark ?l (unat i)" "slot_span l (unat i) = ?u"
    by blast
  have cu: "clean_raw_span sz ?u" using clean_upd_value[OF clean c(1) cut_value_simps(1,2)] .
  then obtain s where s: "span_of_raw ?u = Inr s" using span_of_raw_total by blast
  have "?t ! k = val ! k" using k(1) by (simp add: utf8_trunc_def)
  then have cut: "\<not> modified_utf8 (take k ?t)"
    using modified_utf8_cut[OF modified_utf8_trunc[OF _ val] k(1)] k(2) by (simp add: attr_value_size_def)
  have "q < length (stored_attributes ?r)" using c by (simp add: stored_attributes_def)
  then have "(fst (stored_attributes ?r ! q), take k ?t) \<in> set (stored_attributes ?u)"
    unfolding stored_upd_value[OF clean c(1)] cut_value_simps(3)[OF nz] by (rule set_update_memI)
  moreover have "take k ?t \<noteq> []" using cut by (cases "take k ?t") auto
  ultimately have "(fst (stored_attributes ?r ! q), take k ?t) \<in> set (sp_attributes s)"
    unfolding span_of_raw_attributes(1)[OF cu s] by simp
  then have "\<not> span_utf8 s" using cut by (fastforce simp: span_utf8_def list_all_iff)
  then show ?thesis using ss l s by auto
qed

end
