(* ===== verification/Example_Program.thy ===== *)
theory Example_Program
  imports Process_Laws
begin

text \<open>
  \<^verbatim>\<open>main.cpp\<close>: the example program, which prints the spans of the last run, writes two spans
  and an attribute, and releases its context. It is the shortest complete user of the
  library, so what its second run prints is a statement about every layer at once.
\<close>

section \<open>The program\<close>

text \<open>The lines it writes; the last one goes to the error stream.\<close>

datatype line =
    Recovered_Count nat
  | Recovered_Span u64 bytes
  | Recovered_Attribute bytes bytes
  | Count_Before u64
  | Count_After u64
  | No_Writer

definition print_span :: "span \<Rightarrow> line list" where
  "print_span s =
     Recovered_Span (sp_span_id s) (sp_name s) # map (\<lambda>(key, val). Recovered_Attribute key val) (sp_attributes s)"

definition print_recovered :: "span list \<Rightarrow> line list" where
  "print_recovered ss = Recovered_Count (length ss) # concat (map print_span ss)"

definition hello :: bytes where "hello = [0x68, 0x65, 0x6c, 0x6c, 0x6f]"
definition world :: bytes where "world = [0x77, 0x6f, 0x72, 0x6c, 0x64]"

text \<open>The result is the exit status, the lines and the process.\<close>

definition example_main :: "os_results \<Rightarrow> nat \<Rightarrow> process \<Rightarrow> (int \<times> line list \<times> process) res" where
  "example_main os addr pr =
     res_bind (make_span \<lparr>ti_high = 0, ti_low = 0\<rparr> 271 0 0 0 [] []) (\<lambda>span.
     res_bind (make_span \<lparr>ti_high = 0, ti_low = 0\<rparr> 272 0 0 0 [] []) (\<lambda>span2.
     res_bind (pr_initialize os addr (mmap_size_code Small) pr) (\<lambda>(context, pr).
     res_bind (get_recovered_spans context pr) (\<lambda>(recovered_spans, pr).
     res_bind (get_mutable_span_data context pr) (\<lambda>mutable_span_data.
       if mutable_span_data = 0 then Inr (1, print_recovered recovered_spans @ [No_Writer], pr)
       else
         res_bind (pr_count mutable_span_data pr) (\<lambda>before.
         res_bind (pr_write mutable_span_data (Op_Add span) pr) (\<lambda>pr.
         res_bind (pr_write mutable_span_data (Op_Add span2) pr) (\<lambda>pr.
         res_bind (pr_write mutable_span_data (Op_Set_Attribute (sp_span_id span2) hello world) pr) (\<lambda>pr.
         res_bind (pr_count mutable_span_data pr) (\<lambda>after.
         res_map (\<lambda>(_, pr). (0, print_recovered recovered_spans @ [Count_Before before, Count_After after], pr))
           (release_span_data context pr)))))))))))"

section \<open>One run\<close>

definition example_span :: "u64 \<Rightarrow> attributes_list \<Rightarrow> span" where
  "example_span n kvs =
     \<lparr>sp_trace_id = \<lparr>ti_high = 0, ti_low = 0\<rparr>, sp_span_id = n, sp_parent_span_id = 0,
      sp_start_time = 0, sp_end_time = 0, sp_name = [], sp_attributes = kvs\<rparr>"

abbreviation example_ops :: "mutable_op list" where
  "example_ops \<equiv> [Op_Add (example_span 271 []), Op_Add (example_span 272 []), Op_Set_Attribute 272 hello world]"

lemma example_span_id [simp]: "sp_span_id (example_span n kvs) = n"
  by (simp add: example_span_def)

lemma example_spec:
  "spec_run Small example_ops [] =
     [to_raw_span Small (example_span 271 []), with_attribute Small hello world (to_raw_span Small (example_span 272 []))]"
  by (simp add: spec_add_def spec_modify_def)

text \<open>Once its spans are recovered a context gives its writer at every call.\<close>

fun write_all :: "nat \<Rightarrow> mutable_op list \<Rightarrow> process \<Rightarrow> process res" where
  "write_all p [] pr = Inr pr"
| "write_all p (op # ops) pr = res_bind (pr_write p op pr) (write_all p ops)"

lemma update_kept:
  "pr_contexts pr p = Some c \<Longrightarrow>
     \<exists>c'. pr_contexts (pr_update p impl index pr) p = Some c' \<and> cx_is_recovered c' = cx_is_recovered c"
  by (cases impl) (simp_all add: pr_update_def)

lemma write_kept:
  "pr_write p op pr = Inr pr' \<Longrightarrow> pr_contexts pr p = Some c \<Longrightarrow>
     \<exists>c'. pr_contexts pr' p = Some c' \<and> cx_is_recovered c' = cx_is_recovered c"
  using update_kept by (fastforce simp: pr_write_def res_map_Inr_iff split: option.splits)

lemma write_all_calls:
  "pr_contexts pr p = Some c \<Longrightarrow> cx_is_recovered c \<Longrightarrow> p \<noteq> 0 \<Longrightarrow>
     api_run (map (Api_Write p) ops) pr = write_all p ops pr"
proof (induction ops arbitrary: pr c)
  case (Cons op ops)
  have g: "get_mutable_span_data p pr = Inr p" using Cons.prems by (simp add: get_mutable_span_data_def)
  show ?case
  proof (cases "pr_write p op pr")
    case (Inr pr')
    from write_kept[OF Inr Cons.prems(1)] Cons.prems(2) obtain c' where
      "pr_contexts pr' p = Some c'" "cx_is_recovered c'"
      by auto
    from Cons.IH[OF this Cons.prems(3)] Inr g Cons.prems(3) show ?thesis by simp
  qed (use g Cons.prems(3) in simp)
qed simp

lemma example_run:
  assumes ok: "call_ok (Api_Initialize os addr (mmap_size_code Small)) pr" and inv: "pr_inv pr"
    and init: "pr_initialize os addr (mmap_size_code Small) pr = Inr (addr, pr1)"
  shows "\<exists>ss pr2 pr3. held_spans os (pr_kernel pr) = Inr ss \<and>
    api_run (Api_Recover addr # map (Api_Write addr) example_ops) pr1 = Inr pr2 \<and>
    example_main os addr pr = Inr (0, print_recovered ss @ [Count_Before 0, Count_After 2], pr3) \<and>
    k_file (pr_kernel pr3) = k_file (pr_kernel pr2)"
proof -
  have addr: "addr \<noteq> 0" using ok by simp
  from session_begun[OF inv ok init] obtain ss c pr0 where
    c: "held_spans os (pr_kernel pr) = Inr ss" "get_recovered_spans addr pr1 = Inr (ss, pr0)"
      "pr_inv pr0" "in_file addr pr0" "pr_contexts pr0 addr = Some c" "cx_is_recovered c"
      "pr_writers pr0 addr = Some Map.empty" "cx_writer c Map.empty = fresh_writer Small" "impl_counter (mi_impl (cx_data c)) = 0"
    by blast
  have ctr: "unat (impl_counter (mi_impl (cx_data c))) + length example_ops < 2 ^ 64"
    using c(9) by simp
  have v: "list_all valid_op example_ops" by simp
  from write_run[OF c(3,5,6,7) v ctr] c(8) obtain pr2 c2 index where
    run: "api_run (map (Api_Write addr) example_ops) pr0 = Inr pr2" "pr_inv pr2" "pr_contexts pr2 addr = Some c2"
      "mut_run example_ops (fresh_writer Small) = Inr (cx_writer c2 index)"
    by auto
  from mut_run_refines[of Small "fresh_writer Small" example_ops] v run(4) have
    m: "mut_inv Small (cx_writer c2 index)" "live (cx_writer c2 index) = spec_run Small example_ops []"
    by (auto simp del: mut_run.simps spec_run.simps)
  have "length (live (cx_writer c2 index)) = 2" by (simp only: m(2) example_spec) simp
  then have "unat (impl_count (mi_impl (cx_data c2))) = 2"
    using mut_count_live[OF m(1)] by (simp only: mut_count_def cx_writer_def mutable_span_data.simps)
  then have after: "pr_count addr pr2 = Inr 2"
    using pr_count_in_file[OF pr_inv_in_file[OF run(2,3)] run(3)] by (simp add: word_unat_eq_iff)
  have "unat (mut_count (cx_writer c Map.empty)) = 0"
    unfolding c(8) mut_count_live[OF fresh_writer_simps(1)] by simp
  then have "unat (impl_count (mi_impl (cx_data c))) = 0" by (simp add: mut_count_def cx_writer_def)
  then have before: "pr_count addr pr0 = Inr 0" using pr_count_in_file[OF c(4,5)] by (simp add: word_unat_eq_iff)
  have writes: "write_all addr example_ops pr0 = Inr pr2"
    using run(1) write_all_calls[OF c(5,6), of example_ops] addr by simp
  then obtain pra prb where wr: "pr_write addr (Op_Add (example_span 271 [])) pr0 = Inr pra"
    "pr_write addr (Op_Add (example_span 272 [])) pra = Inr prb"
    "pr_write addr (Op_Set_Attribute 272 hello world) prb = Inr pr2"
    by (auto simp: res_bind_Inr_iff)
  obtain pr3 where rel: "release_span_data addr pr2 = Inr (0, pr3)"
    using release_inv[OF run(2), of addr] run(3) by (auto simp: alive_or_null_def)
  have "k_file (pr_kernel pr3) = k_file (pr_kernel pr2)"
    using rel by (auto simp: release_span_data_def res_map_Inr_iff mm_destroy_def sys_munmap_def split: option.splits if_splits)
  moreover have "example_main os addr pr = Inr (0, print_recovered ss @ [Count_Before 0, Count_After 2], pr3)"
    using init c(2,5,6) before after rel wr addr
    by (simp add: example_main_def make_span_def get_mutable_span_data_def example_span_def[symmetric])
  moreover have "api_run (Api_Recover addr # map (Api_Write addr) example_ops) pr1 = Inr pr2"
    using c(2) run(1) by simp
  ultimately show ?thesis using c(1) by blast
qed

text \<open>Without a context it stops before it writes.\<close>

lemma example_no_context:
  "pr_initialize os addr (mmap_size_code Small) pr = Inr (0, pr1) \<Longrightarrow>
     example_main os addr pr = Inr (1, [Recovered_Count 0, No_Writer], pr1)"
  by (simp add: example_main_def make_span_def get_recovered_spans_def get_mutable_span_data_def
      print_recovered_def)

section \<open>The next run\<close>

lemma span_of_raw_upd:
  assumes "span_of_raw r = Inr s" "clean_raw_span sz r" "0 \<notin> set key"
  shows "span_of_raw (with_attribute sz key val r) = Inr (s\<lparr>sp_attributes :=
    filter (\<lambda>kv. snd kv \<noteq> []) (upsert (max_attributes (mmap_config sz)) (utf8_trunc attr_key_size key)
      (kept_text attr_value_size val) (stored_attributes r))\<rparr>)"
proof -
  let ?r = "with_attribute sz key val r"
  have same: "raw_trace_id ?r = raw_trace_id r" "raw_parent_span_id ?r = raw_parent_span_id r"
    "raw_start_time ?r = raw_start_time r" "raw_end_time ?r = raw_end_time r" "raw_name ?r = raw_name r"
    by (simp_all add: with_attribute_def Let_def upd_attr_def split: option.splits)
  have clean: "clean_raw_span sz ?r" using assms(2) by (rule clean_with_attribute)
  then obtain t where t: "span_of_raw ?r = Inr t" using span_of_raw_total by blast
  have "t = s\<lparr>sp_attributes := sp_attributes t\<rparr>"
    using t assms(1) same by (auto simp: span_of_raw_def res_bind_Inr_iff)
  with t span_of_raw_attributes(1)[OF clean t] stored_with_attribute[OF assms(2,3)] show ?thesis by simp
qed

lemma example_reads:
  "span_of_raw (to_raw_span Small (example_span n [])) = Inr (example_span n [])"
  "span_of_raw (with_attribute Small hello world (to_raw_span Small (example_span n []))) =
     Inr (example_span n [(hello, world)])"
proof -
  have fits: "span_fits Small (example_span n [])"
    by (simp add: span_fits_def example_span_def span_name_size_def)
  show r: "span_of_raw (to_raw_span Small (example_span n [])) = Inr (example_span n [])"
    using clip_span_fits[OF fits] by (simp add: span_round_trip)
  have "stored_attributes (to_raw_span Small (example_span n [])) = []"
    by (simp add: stored_attributes_def to_raw_span_eq example_span_def)
  moreover have "utf8_trunc attr_key_size hello = hello" "kept_text attr_value_size world = world"
    "0 \<notin> set hello" "world \<noteq> []"
    by (simp_all add: hello_def world_def utf8_trunc_short kept_text_fits attr_key_size_def attr_value_size_def)
  ultimately show "span_of_raw (with_attribute Small hello world (to_raw_span Small (example_span n []))) =
     Inr (example_span n [(hello, world)])"
    using span_of_raw_upd[OF r clean_to_raw_span, of hello world]
    by (simp add: upsert_def example_span_def)
qed

lemma list_all2_values:
  "list_all2 (\<lambda>r s. f r = Inr s) rs ss \<Longrightarrow> map f rs = map Inr ss"
  by (induction rule: list_all2_induct) simp_all

text \<open>The second run finds the two spans of the first, one with its attribute.\<close>

lemma example_twice:
  assumes ok: "call_ok (Api_Initialize os addr (mmap_size_code Small)) (new_process contents)"
    and first: "example_main os addr (new_process contents) = Inr (0, ls, pr3)"
    and os': "os_page_size os' = os_page_size os" "os_sound os' (pr_kernel q)"
      "calls_succeed os' (mmap_size_code Small) (pr_kernel q)"
    and q: "q = new_process (k_file (pr_kernel pr3))" "addr' \<noteq> 0"
  shows "\<exists>ss q'. example_main os' addr' q =
      Inr (0, print_recovered ss @ [Count_Before 0, Count_After 2], q') \<and>
    mset ss = {# example_span 271 [], example_span 272 [(hello, world)] #}"
proof -
  have addr: "addr \<noteq> 0" using ok by simp
  from initialize_inv[OF pr_inv_new ok] obtain r pr1 where
    r: "pr_initialize os addr (mmap_size_code Small) (new_process contents) = Inr (r, pr1)" "r = 0 \<or> r = addr"
    by blast
  have "r \<noteq> 0"
  proof
    assume "r = 0"
    from example_no_context[OF r(1)[unfolded this]] first show False by simp
  qed
  with r have init: "pr_initialize os addr (mmap_size_code Small) (new_process contents) = Inr (addr, pr1)"
    by simp
  from example_run[OF ok pr_inv_new init] first obtain pr2 where
    run: "api_run (Api_Recover addr # map (Api_Write addr) example_ops) pr1 = Inr pr2"
      "k_file (pr_kernel pr3) = k_file (pr_kernel pr2)"
    by auto
  have kept: "k_file (pr_kernel q) = k_file (pr_kernel pr2)" using q(1) run(2) by (simp add: new_process_def)
  from session_restart[OF ok init _ _ run(1) kept os'] obtain c k' rs where
    i: "initialize_span_data os' (mmap_size_code Small) (pr_kernel q) = Inr (Some c, k')"
      "held_spans os' (pr_kernel q) = Inr (cx_recovered_spans c)"
      "list_all2 (\<lambda>r s. span_of_raw r = Inr s) rs (cx_recovered_spans c)"
      "mset rs = mset (spec_run Small example_ops [])"
    by (auto simp del: spec_run.simps)
  have ok': "call_ok (Api_Initialize os' addr' (mmap_size_code Small)) q"
    using os'(2) i(2) q ok by (simp add: new_process_def)
  obtain q1 where "pr_initialize os' addr' (mmap_size_code Small) q = Inr (addr', q1)"
    using i(1) by (simp add: pr_initialize_def)
  from example_run[OF ok' _ this] i(2) q(1) obtain q' where
    second: "example_main os' addr' q =
      Inr (0, print_recovered (cx_recovered_spans c) @ [Count_Before 0, Count_After 2], q')"
    by auto
  have "image_mset Inr (mset (cx_recovered_spans c)) = image_mset span_of_raw (mset rs)"
    using list_all2_values[OF i(3)] by (metis mset_map)
  moreover have "image_mset span_of_raw (mset rs) =
      image_mset Inr {# example_span 271 [], example_span 272 [(hello, world)] #}"
    unfolding i(4) example_spec by (simp add: example_reads)
  ultimately have inr: "image_mset (Inr :: span \<Rightarrow> span res) (mset (cx_recovered_spans c)) =
      image_mset Inr {# example_span 271 [], example_span 272 [(hello, world)] #}"
    by (rule trans)
  have "image_mset projr (image_mset (Inr :: span \<Rightarrow> span res) M) = M" for M
    by (simp add: multiset.map_comp comp_def)
  from this[of "mset (cx_recovered_spans c)"] have
    "mset (cx_recovered_spans c) = {# example_span 271 [], example_span 272 [(hello, world)] #}"
    unfolding inr by simp
  with second show ?thesis by blast
qed

section \<open>The exit status\<close>

lemma example_outcome:
  assumes ok: "call_ok (Api_Initialize os addr (mmap_size_code Small)) (new_process contents)"
    and held: "held_spans os (pr_kernel (new_process contents)) = Inr ss"
  shows "\<exists>pr'. example_main os addr (new_process contents) = Inr
    (if calls_succeed os (mmap_size_code Small) (pr_kernel (new_process contents))
     then (0, print_recovered ss @ [Count_Before 0, Count_After 2], pr')
     else (1, [Recovered_Count 0, No_Writer], pr'))"
proof -
  let ?pr = "new_process contents"
  have "os_sound os (pr_kernel ?pr)" using ok by simp
  from initialize_spec[OF this held, of "mmap_size_code Small"] obtain r k' where
    r: "initialize_span_data os (mmap_size_code Small) (pr_kernel ?pr) = Inr (r, k')"
      "r \<noteq> None \<longleftrightarrow> calls_succeed os (mmap_size_code Small) (pr_kernel ?pr)"
    by (auto simp: initialized_def)
  show ?thesis
  proof (cases r)
    case None
    then have "pr_initialize os addr (mmap_size_code Small) ?pr = Inr (0, ?pr\<lparr>pr_kernel := k'\<rparr>)"
      using r(1) by (simp add: pr_initialize_def)
    from example_no_context[OF this] r(2) None show ?thesis by simp
  next
    case (Some c)
    then obtain pr1 where "pr_initialize os addr (mmap_size_code Small) ?pr = Inr (addr, pr1)"
      using r(1) by (simp add: pr_initialize_def)
    from example_run[OF ok pr_inv_new this] held r(2) Some show ?thesis by auto
  qed
qed

end
