(* ===== verification/Loops.thy ===== *)
theory Loops
  imports Recovery Android_Natives Example_Program "HOL-Library.While_Combinator"
begin

text \<open>
  The loops of the code as they are written: a counter of machine width or a position in a
  container, a condition tested before every iteration, an early return or a break. As
  \<^verbatim>\<open>while\<close> loops they may not end, so each has a result only if it ends; each is proved to end,
  with the result of the recursive definition the rest of the development uses. Loops over the
  mapping do so for every bound; those that count the elements of a container with 32 bits for
  containers of a size that 32 bits can count.
\<close>

section \<open>Counting loops\<close>

text \<open>
  \<^verbatim>\<open>for (std::uint64_t i = 0; i < n; ++i)\<close>: the body goes on with a new state (\<open>Inr\<close>) or leaves
  the loop (\<open>Inl\<close>), by a \<^verbatim>\<open>return\<close> or by a fault.
\<close>

definition for_u64 :: "u64 \<Rightarrow> (u64 \<Rightarrow> 's \<Rightarrow> 'r + 's) \<Rightarrow> 's \<Rightarrow> ('r + 's) option" where
  "for_u64 n body s =
     map_option snd
       (while_option (\<lambda>(i, c). \<not> isl c \<and> i < n)
         (\<lambda>(i, c). case c of Inl r \<Rightarrow> (i, c) | Inr s \<Rightarrow> (i + 1, body i s))
         (0, Inr s))"

text \<open>The same with the number of iterations left.\<close>

fun for_n :: "nat \<Rightarrow> u64 \<Rightarrow> (u64 \<Rightarrow> 's \<Rightarrow> 'r + 's) \<Rightarrow> 's \<Rightarrow> 'r + 's" where
  "for_n 0 i body s = Inr s"
| "for_n (Suc k) i body s = (case body i s of Inl r \<Rightarrow> Inl r | Inr s' \<Rightarrow> for_n k (i + 1) body s')"

lemma for_u64_from:
  "unat i + k = unat n \<Longrightarrow>
     map_option snd
       (while_option (\<lambda>(i, c). \<not> isl c \<and> i < n)
         (\<lambda>(i, c). case c of Inl r \<Rightarrow> (i, c) | Inr s \<Rightarrow> (i + 1, body i s))
         (i, Inr s)) = Some (for_n k i body s)"
proof (induction k arbitrary: i s)
  case 0
  then show ?case by (subst while_option_unfold) (simp add: word_less_nat_alt)
next
  case (Suc k)
  have lt: "i < n" using Suc.prems by (simp add: word_less_nat_alt)
  have "unat i + 1 < 18446744073709551616"
    using Suc.prems unat_less_64[of n] by linarith
  then have i1: "unat (i + 1) + k = unat n" using Suc.prems by (simp add: unat_plus1_64)
  show ?case
  proof (cases "body i s")
    case (Inl r)
    with lt show ?thesis
      by (subst while_option_unfold, simp, subst while_option_unfold, simp)
  next
    case (Inr s')
    with lt Suc.IH[OF i1, of s'] show ?thesis
      by (subst while_option_unfold) simp
  qed
qed

lemma for_u64_returns: "for_u64 n body s = Some (for_n (unat n) 0 body s)"
  unfolding for_u64_def by (rule for_u64_from) simp

section \<open>The loops over the mapping\<close>

text \<open>\<^verbatim>\<open>initialize.cpp\<close>, lines 127 to 131.\<close>

definition recover_for :: "span_data_impl \<Rightarrow> (fault + span list) option" where
  "recover_for x =
     (let r = Recovered_Span_Data x in
      for_u64 (recovered_count r)
        (\<lambda>i acc. res_bind (recovered_get_mark i r) (\<lambda>mark.
           if mark \<noteq> 0 then res_map (\<lambda>s. acc @ [s]) (recovered_get i r) else Inr acc))
        [])"

lemma recover_for_n:
  "for_n n i (\<lambda>i acc. res_bind (recovered_get_mark i r) (\<lambda>mark.
       if mark \<noteq> 0 then res_map (\<lambda>s. acc @ [s]) (recovered_get i r) else Inr acc)) acc =
     recover_loop n i r acc"
proof (induction n arbitrary: i acc)
  case (Suc n)
  show ?case
    by (cases "recovered_get_mark i r"; cases "recovered_get i r") (simp_all add: Suc.IH)
qed simp

lemma recover_for_returns: "recover_for x = Some (recover_spans x)"
  by (simp add: recover_for_def recover_spans_def Let_def for_u64_returns recover_for_n)

text \<open>\<^verbatim>\<open>mutable_span_data.cpp\<close>, lines 37 to 43: the state is the mark and the id found so far.\<close>

definition oldest_for :: "span_data_impl \<Rightarrow> (fault + u64) option" where
  "oldest_for x =
     map_option (res_map snd)
       (for_u64 (impl_count x)
         (\<lambda>i (oldest_mark, oldest_span_id). res_bind (impl_get_mark i x) (\<lambda>mark.
            if mark < oldest_mark then res_map (\<lambda>span_id. (mark, span_id)) (impl_get_span_id i x)
            else Inr (oldest_mark, oldest_span_id)))
         (- 1, 0))"

lemma oldest_for_n:
  "res_map snd (for_n n i (\<lambda>i (oldest_mark, oldest_span_id). res_bind (impl_get_mark i x) (\<lambda>mark.
       if mark < oldest_mark then res_map (\<lambda>span_id. (mark, span_id)) (impl_get_span_id i x)
       else Inr (oldest_mark, oldest_span_id))) (om, oid)) =
     oldest_scan n i om oid x"
proof (induction n arbitrary: i om oid)
  case (Suc n)
  show ?case
    by (cases "impl_get_mark i x"; cases "impl_get_span_id i x") (simp_all add: Suc.IH)
qed simp

lemma oldest_for_returns: "oldest_for x = Some (oldest_span x)"
  by (simp add: oldest_for_def oldest_span_def for_u64_returns oldest_for_n)

text \<open>
  \<^verbatim>\<open>raw_span_data.h\<close>, lines 134 to 139: the body leaves the loop with the index of the key, or
  by a fault when the count is beyond the array; falling out of the loop finds nothing.
\<close>

definition find_for :: "bytes \<Rightarrow> u64 \<Rightarrow> raw_attribute list \<Rightarrow> nat option res option" where
  "find_for key attr_count attributes =
     map_option (case_sum id (\<lambda>_. Inr None))
       (for_u64 attr_count
         (\<lambda>i s. if \<not> unat i < length attributes then Inl (Inl Out_Of_Bounds)
           else if key_equals attr_key_size key (attr_key (attributes ! unat i)) then Inl (Inr (Some (unat i)))
           else Inr s)
         ())"

lemma find_for_n:
  "unat i + n < 18446744073709551616 \<Longrightarrow> unat i \<le> length attributes \<Longrightarrow>
     case_sum id (\<lambda>_. Inr None) (for_n n i
       (\<lambda>i s. if \<not> unat i < length attributes then Inl (Inl Out_Of_Bounds)
         else if key_equals attr_key_size key (attr_key (attributes ! unat i)) then Inl (Inr (Some (unat i)))
         else Inr s) s) =
     find_attribute key n (drop (unat i) attributes) (unat i)"
proof (induction n arbitrary: i)
  case (Suc n)
  have i1: "unat (i + 1) = Suc (unat i)" using Suc.prems(1) by (simp add: unat_plus1_64)
  show ?case
  proof (cases "unat i < length attributes")
    case True
    with Suc.prems Suc.IH[of "i + 1"] show ?thesis
      by (simp add: i1 Cons_nth_drop_Suc[symmetric])
  qed (use Suc.prems in simp)
qed simp

lemma find_for_returns:
  "find_for key attr_count attributes = Some (find_attribute key (unat attr_count) attributes 0)"
  using find_for_n[of 0 "unat attr_count" attributes key "()"]
  by (simp add: find_for_def for_u64_returns)

text \<open>
  \<^verbatim>\<open>span.h\<close>, lines 104 to 110: the attributes of a raw span are copied. The counter is a
  \<^verbatim>\<open>size_t\<close>, 64 or 32 bits wide; the bound has always 64 bits, and the comparison widens the
  counter. The array ends before 32 bits do, so a bound that is too large ends in a fault, not in
  a counter that wraps.
\<close>

definition read_body :: "raw_attribute list \<Rightarrow> nat \<Rightarrow> attributes_list \<Rightarrow> fault + attributes_list" where
  "read_body attributes i acc =
     (if \<not> i < length attributes then Inl Out_Of_Bounds
      else let raw_attr = attributes ! i
        in res_bind (c_str (attr_value raw_attr)) (\<lambda>attr_value.
             if attr_value = [] then Inr acc
             else res_map (\<lambda>attr_key. acc @ [(attr_key, attr_value)]) (c_str (attr_key raw_attr))))"

definition read_for :: "u64 \<Rightarrow> raw_attribute list \<Rightarrow> (fault + attributes_list) option" where
  "read_for attr_count attributes = for_u64 attr_count (\<lambda>i. read_body attributes (unat i)) []"

definition read_for32 :: "u64 \<Rightarrow> raw_attribute list \<Rightarrow> (fault + attributes_list) option" where
  "read_for32 attr_count attributes =
     map_option snd
       (while_option (\<lambda>(i :: u32, c). \<not> isl c \<and> (ucast i :: u64) < attr_count)
         (\<lambda>(i, c). case c of Inl r \<Rightarrow> (i, c) | Inr acc \<Rightarrow> (i + 1, read_body attributes (unat i) acc))
         (0, Inr []))"

lemma read_attributes_step:
  "i \<le> length attributes \<Longrightarrow>
     read_attributes (Suc n) (drop i attributes) acc =
       res_bind (read_body attributes i acc) (read_attributes n (drop (Suc i) attributes))"
  by (cases "i < length attributes"; cases "c_str (attr_value (attributes ! i))";
      cases "c_str (attr_key (attributes ! i))")
    (simp_all add: read_body_def Cons_nth_drop_Suc[symmetric] Let_def)

lemma read_body_inside: "read_body attributes i acc = Inr acc' \<Longrightarrow> i < length attributes"
  by (auto simp: read_body_def split: if_splits)

lemma read_for_n:
  "unat i + n < 18446744073709551616 \<Longrightarrow> unat i \<le> length attributes \<Longrightarrow>
     for_n n i (\<lambda>i. read_body attributes (unat i)) acc = read_attributes n (drop (unat i) attributes) acc"
proof (induction n arbitrary: i acc)
  case (Suc n)
  have i1: "unat (i + 1) = Suc (unat i)" using Suc.prems(1) by (simp add: unat_plus1_64)
  show ?case
  proof (cases "read_body attributes (unat i) acc")
    case (Inr acc')
    with Suc.prems Suc.IH[of "i + 1" acc'] read_body_inside[OF Inr] show ?thesis
      unfolding read_attributes_step[OF Suc.prems(2)] by (simp add: i1)
  qed (simp add: read_attributes_step[OF Suc.prems(2)] del: read_attributes.simps)
qed simp

lemma read_for_returns:
  "read_for attr_count attributes = Some (read_attributes (unat attr_count) attributes [])"
  using read_for_n[of 0 "unat attr_count" attributes "[]"]
  by (simp add: read_for_def for_u64_returns)

lemma unat_widen: "unat (ucast (i :: u32) :: u64) = unat i"
proof -
  have "unat i < 2 ^ LENGTH(32)" by (rule unsigned_less)
  then have "unat i < 2 ^ 64" by simp
  then show ?thesis by (simp add: unsigned_ucast_eq take_bit_nat_eq_self_iff)
qed

lemma read_for32_from:
  assumes "length attributes < 4294967296"
  shows "unat (i :: u32) + k = unat n \<Longrightarrow> unat i \<le> length attributes \<Longrightarrow>
     map_option snd
       (while_option (\<lambda>(i :: u32, c). \<not> isl c \<and> (ucast i :: u64) < n)
         (\<lambda>(i, c). case c of Inl r \<Rightarrow> (i, c) | Inr acc \<Rightarrow> (i + 1, read_body attributes (unat i) acc))
         (i, Inr acc)) = Some (read_attributes k (drop (unat i) attributes) acc)"
proof (induction k arbitrary: i acc)
  case 0
  then show ?case by (subst while_option_unfold) (simp add: word_less_nat_alt unat_widen)
next
  case (Suc k)
  have lt: "(ucast i :: u64) < n" using Suc.prems(1) by (simp add: word_less_nat_alt unat_widen)
  show ?case
  proof (cases "read_body attributes (unat i) acc")
    case (Inl r)
    with lt show ?thesis
      unfolding read_attributes_step[OF Suc.prems(2)]
      by (subst while_option_unfold, simp, subst while_option_unfold, simp)
  next
    case (Inr acc')
    note inside = read_body_inside[OF Inr]
    have "Suc (unat i) < 4294967296" using inside assms by linarith
    then have i1: "unat (i + 1) = Suc (unat i)" by (simp add: unat_word_ariths)
    with Suc.prems inside have "unat (i + 1) + k = unat n" "unat (i + 1) \<le> length attributes" by simp_all
    from lt Inr Suc.IH[OF this, of acc'] show ?thesis
      unfolding read_attributes_step[OF Suc.prems(2)] i1 by (subst while_option_unfold) simp
  qed
qed

lemma read_for32_returns:
  "length attributes < 4294967296 \<Longrightarrow>
     read_for32 attr_count attributes = Some (read_attributes (unat attr_count) attributes [])"
  using read_for32_from[of attributes 0 "unat attr_count" attr_count "[]"] by (simp add: read_for32_def)

section \<open>The loop over a text\<close>

text \<open>\<^verbatim>\<open>copy_string.h\<close>, lines 37 to 39: \<^verbatim>\<open>length\<close> goes down while it is inside a character.\<close>

definition utf8_back_while :: "bytes \<Rightarrow> nat \<Rightarrow> nat option" where
  "utf8_back_while src = while_option (\<lambda>n. 0 < n \<and> is_utf8_continuation_byte (src ! n)) (\<lambda>n. n - 1)"

lemma utf8_back_while_returns: "utf8_back_while src n = Some (utf8_back src n)"
proof (induction n)
  case 0
  then show ?case unfolding utf8_back_while_def by (subst while_option_unfold) simp
next
  case (Suc n)
  then show ?case unfolding utf8_back_while_def by (subst while_option_unfold) simp
qed

section \<open>The loop over the pairs of Java\<close>

text \<open>
  \<^verbatim>\<open>android_span_data.cpp\<close>, lines 134 to 144: the counter is a signed number of 32 bits,
  starts at 1 and goes up by 2. It stays odd, so it reaches the greatest length, which is
  odd too, without an overflow.
\<close>

definition parse_while ::
    "'j jni \<Rightarrow> nat \<Rightarrow> jref \<Rightarrow> 32 word \<Rightarrow> attributes_list \<Rightarrow> 'j \<Rightarrow> (fault + attributes_list \<times> 'j) option" where
  "parse_while J env arr len attrs j =
     map_option snd
       (while_option (\<lambda>(i, c). \<not> isl c \<and> sint (i :: 32 word) < sint len)
         (\<lambda>(i, c). case c of Inl e \<Rightarrow> (i, c)
            | Inr (attrs, j) \<Rightarrow> (i + 2, parse_pair J env arr (sint i) attrs j))
         (1, Inr (attrs, j)))"

lemma sint_bounds_32: "- 2147483648 \<le> sint (i :: 32 word)" "sint (i :: 32 word) \<le> 2147483647"
  using sint_greater_eq[of i] sint_lt[of i] by simp_all

lemma sint_plus2_32:
  assumes "odd (sint (i :: 32 word))" "sint i < sint (len :: 32 word)"
  shows "sint (i + 2) = sint i + 2"
proof -
  have "sint i < 2147483647" using assms(2) sint_bounds_32(2)[of len] by linarith
  moreover have "sint i \<noteq> 2147483646" using assms(1) by auto
  ultimately have "sint i + 2 \<le> 2147483647" by linarith
  then have "signed_take_bit 31 (sint i + 2) = sint i + 2"
    using sint_bounds_32(1)[of i] by (intro signed_take_bit_int_eq_self) simp_all
  then show ?thesis by (simp add: signed_word_eqI sint_word_ariths)
qed

lemma parse_while_from:
  "odd (sint (i :: 32 word)) \<Longrightarrow> nat ((sint (len :: 32 word) - sint i + 1) div 2) = k \<Longrightarrow>
     map_option snd
       (while_option (\<lambda>(i, c). \<not> isl c \<and> sint (i :: 32 word) < sint len)
         (\<lambda>(i, c). case c of Inl e \<Rightarrow> (i, c)
            | Inr (attrs, j) \<Rightarrow> (i + 2, parse_pair J env arr (sint i) attrs j))
         (i, Inr (attrs, j))) = Some (parse_loop J env arr k (sint i) attrs j)"
proof (induction k arbitrary: i attrs j)
  case 0
  then have "\<not> sint i < sint len" by linarith
  then show ?case by (subst while_option_unfold) simp
next
  case (Suc k)
  have lt: "sint i < sint len" using Suc.prems(2) by linarith
  note i2 = sint_plus2_32[OF Suc.prems(1) lt]
  have step: "odd (sint (i + 2))" "nat ((sint len - sint (i + 2) + 1) div 2) = k"
    using Suc.prems unfolding i2 by auto
  show ?case
  proof (cases "parse_pair J env arr (sint i) attrs j")
    case (Inl e)
    with lt show ?thesis
      by (subst while_option_unfold, simp, subst while_option_unfold, simp)
  next
    case (Inr q)
    obtain attrs' j' where q: "q = (attrs', j')" by (cases q)
    from lt Inr q Suc.IH[OF step, of attrs' j'] i2 show ?thesis
      by (subst while_option_unfold) simp
  qed
qed

lemma parse_while_returns:
  "parse_while J env arr len attrs j = Some (parse_loop J env arr (nat (sint len div 2)) 1 attrs j)"
  using parse_while_from[of 1 len "nat (sint len div 2)" J env arr attrs j]
  by (simp add: parse_while_def)

section \<open>Loops over a container\<close>

text \<open>
  \<^verbatim>\<open>for (const auto& x : xs)\<close>: a position goes from the begin to the end of the container. The
  body may contain another loop, so it has a result only if it ends; it goes on with a new
  state (\<open>Inr\<close>) or leaves the loop (\<open>Inl\<close>).
\<close>

definition range_for :: "'x list \<Rightarrow> ('x \<Rightarrow> 's \<Rightarrow> ('r + 's) option) \<Rightarrow> 's \<Rightarrow> ('r + 's) option" where
  "range_for xs body s =
     Option.bind
       (while_option (\<lambda>(p, c). case c of Some (Inr _) \<Rightarrow> p \<noteq> length xs | _ \<Rightarrow> False)
         (\<lambda>(p, c). case c of Some (Inr s) \<Rightarrow> (Suc p, body (xs ! p) s) | _ \<Rightarrow> (p, c))
         (0, Some (Inr s)))
       snd"

fun range_fold :: "('x \<Rightarrow> 's \<Rightarrow> 'r + 's) \<Rightarrow> 'x list \<Rightarrow> 's \<Rightarrow> 'r + 's" where
  "range_fold f [] s = Inr s"
| "range_fold f (x # xs) s = (case f x s of Inl r \<Rightarrow> Inl r | Inr s' \<Rightarrow> range_fold f xs s')"

lemma range_for_from:
  assumes body: "\<And>x s. x \<in> set xs \<Longrightarrow> body x s = Some (f x s)"
  shows "p \<le> length xs \<Longrightarrow> drop p xs = ys \<Longrightarrow>
     Option.bind
       (while_option (\<lambda>(p, c). case c of Some (Inr _) \<Rightarrow> p \<noteq> length xs | _ \<Rightarrow> False)
         (\<lambda>(p, c). case c of Some (Inr s) \<Rightarrow> (Suc p, body (xs ! p) s) | _ \<Rightarrow> (p, c))
         (p, Some (Inr s)))
       snd = Some (range_fold f ys s)"
proof (induction ys arbitrary: p s)
  case Nil
  then have "p = length xs" by simp
  then show ?case by (subst while_option_unfold) simp
next
  case (Cons y ys)
  then have p: "p < length xs" by (cases "p < length xs") simp_all
  with Cons.prems(2) have y: "xs ! p = y" "drop (Suc p) xs = ys"
    by (simp_all add: Cons_nth_drop_Suc[symmetric])
  have b: "body y s = Some (f y s)" using body[OF nth_mem[OF p]] y(1) by simp
  show ?case
  proof (cases "f y s")
    case (Inl r)
    with p y(1) b show ?thesis
      by (subst while_option_unfold, simp, subst while_option_unfold, simp)
  next
    case (Inr s')
    have "Suc p \<le> length xs" using p by simp
    from Cons.IH[OF this y(2), of s'] p y(1) b Inr show ?thesis
      by (subst while_option_unfold) simp
  qed
qed

lemma range_for_returns:
  "(\<And>x s. x \<in> set xs \<Longrightarrow> body x s = Some (f x s)) \<Longrightarrow> range_for xs body s = Some (range_fold f xs s)"
  unfolding range_for_def by (rule range_for_from) simp_all

text \<open>\<^verbatim>\<open>span.h\<close>, lines 128 to 136: the \<^verbatim>\<open>break\<close> leaves the loop.\<close>

definition write_for :: "mmap_size \<Rightarrow> attributes_list \<Rightarrow> raw_span \<Rightarrow> raw_span option" where
  "write_for sz attrs raw =
     map_option (case_sum id id)
       (range_for attrs
         (\<lambda>(key, value) raw.
            if max_attributes (mmap_config sz) \<le> unat (raw_attr_count raw) then Some (Inl raw)
            else
              let raw' = upd_attr (unat (raw_attr_count raw)) (set_raw_attribute key value) raw
              in Some (Inr (raw'\<lparr>raw_attr_count := raw_attr_count raw + 1\<rparr>)))
         raw)"

lemma write_for_returns: "write_for sz attrs raw = Some (write_attributes sz attrs raw)"
proof -
  let ?f = "\<lambda>(key, value) raw.
    if max_attributes (mmap_config sz) \<le> unat (raw_attr_count raw) then Inl raw
    else Inr ((upd_attr (unat (raw_attr_count raw)) (set_raw_attribute key value) raw)
      \<lparr>raw_attr_count := raw_attr_count raw + 1\<rparr>)"
  have "case_sum id id (range_fold ?f attrs raw) = write_attributes sz attrs raw"
    by (induction sz attrs raw rule: write_attributes.induct) (simp_all add: Let_def)
  moreover have "range_for attrs
      (\<lambda>(key, value) raw.
         if max_attributes (mmap_config sz) \<le> unat (raw_attr_count raw) then Some (Inl raw)
         else
           let raw' = upd_attr (unat (raw_attr_count raw)) (set_raw_attribute key value) raw
           in Some (Inr (raw'\<lparr>raw_attr_count := raw_attr_count raw + 1\<rparr>)))
      raw = Some (range_fold ?f attrs raw)"
    by (rule range_for_returns) (simp add: Let_def split: prod.split)
  ultimately show ?thesis by (simp add: write_for_def)
qed

text \<open>\<^verbatim>\<open>main.cpp\<close>, lines 34 to 40: a loop in a loop; the state is the lines printed so far.\<close>

definition print_attributes_for :: "attributes_list \<Rightarrow> line list \<Rightarrow> (line list + line list) option" where
  "print_attributes_for kvs =
     range_for kvs (\<lambda>(key, val) out. Some (Inr (out @ [Recovered_Attribute key val])))"

definition print_for :: "span list \<Rightarrow> line list option" where
  "print_for ss =
     map_option (case_sum id id)
       (range_for ss
         (\<lambda>s out. print_attributes_for (sp_attributes s) (out @ [Recovered_Span (sp_span_id s) (sp_name s)]))
         [Recovered_Count (length ss)])"

lemma range_fold_append:
  "range_fold (\<lambda>x out. Inr (out @ g x)) xs out = Inr (out @ concat (map g xs))"
  by (induction xs arbitrary: out) simp_all

lemma print_attributes_for_returns:
  "print_attributes_for kvs out = Some (Inr (out @ map (\<lambda>(key, val). Recovered_Attribute key val) kvs))"
proof -
  let ?g = "\<lambda>(key, val). [Recovered_Attribute key val]"
  have "print_attributes_for kvs out = Some (range_fold (\<lambda>x out. Inr (out @ ?g x)) kvs out)"
    unfolding print_attributes_for_def by (rule range_for_returns) (simp split: prod.split)
  moreover have "concat (map ?g kvs) = map (\<lambda>(key, val). Recovered_Attribute key val) kvs"
    by (induction kvs) auto
  ultimately show ?thesis by (simp add: range_fold_append)
qed

lemma print_for_returns: "print_for ss = Some (print_recovered ss)"
proof -
  have "range_for ss
      (\<lambda>s out. print_attributes_for (sp_attributes s) (out @ [Recovered_Span (sp_span_id s) (sp_name s)]))
      [Recovered_Count (length ss)] =
    Some (range_fold (\<lambda>s out. Inr (out @ print_span s)) ss [Recovered_Count (length ss)])"
    by (rule range_for_returns) (simp add: print_attributes_for_returns print_span_def)
  then show ?thesis by (simp add: print_for_def print_recovered_def range_fold_append)
qed

section \<open>Loops that count what they keep\<close>

text \<open>
  Two loops over a container write into an array of Java, with a signed counter of 32 bits that
  goes up only when an object was made. It stays below the size of the array.
\<close>

lemma sint_plus_32:
  "0 \<le> sint (i :: 32 word) \<Longrightarrow> sint i + 1 < 2147483648 \<Longrightarrow> sint (i + 1) = sint i + 1"
  "0 \<le> sint (i :: 32 word) \<Longrightarrow> sint i + 2 < 2147483648 \<Longrightarrow> sint (i + 2) = sint i + 2"
  by (simp_all add: sint_word_ariths signed_take_bit_int_eq_self)

lemma range_fold_step: "range_fold f (x # xs) s = res_bind (f x s) (range_fold f xs)"
  by (cases "f x s") simp_all

lemmas counting_simps =
  case_prod_beta' fst_conv snd_conv res_bind.simps(2) res_bind_if res_bind_assoc res_bind_map res_map_bind

text \<open>\<^verbatim>\<open>android_span_data.cpp\<close>, lines 105 to 114.\<close>

definition write_jni_pair ::
    "'j jni \<Rightarrow> nat \<Rightarrow> jref \<Rightarrow> bytes \<times> bytes \<Rightarrow> 32 word \<times> 'j \<Rightarrow> (32 word \<times> 'j) res" where
  "write_jni_pair J env arr = (\<lambda>(key, val) (index, j).
     res_bind (new_jstring J max_attribute_key_len env key j) (\<lambda>(jkey, j).
       res_bind (new_jstring J max_attribute_val_len env val j) (\<lambda>(jval, j).
         res_bind
           (if lr_bool jkey \<and> lr_bool jval then
              res_bind (jni_set_object_array_element J arr (sint index) (lr_value jkey) j) (\<lambda>j.
                res_map (\<lambda>j. (index + 2, j))
                  (jni_set_object_array_element J arr (sint (index + 1)) (lr_value jval) j))
            else Inr (index, j))
           (\<lambda>(index, j).
             res_bind (lr_destroy J jval j) (\<lambda>j.
               res_map (\<lambda>j. (index, j)) (lr_destroy J jkey j))))))"

lemma write_jni_pair_eq:
  "write_jni_pair J env arr (key, val) (index, j) =
     res_bind (new_jstring J max_attribute_key_len env key j) (\<lambda>(jkey, j).
       res_bind (new_jstring J max_attribute_val_len env val j) (\<lambda>(jval, j).
         res_bind
           (if lr_bool jkey \<and> lr_bool jval then
              res_bind (jni_set_object_array_element J arr (sint index) (lr_value jkey) j) (\<lambda>j.
                res_map (\<lambda>j. (index + 2, j))
                  (jni_set_object_array_element J arr (sint (index + 1)) (lr_value jval) j))
            else Inr (index, j))
           (\<lambda>(index, j).
             res_bind (lr_destroy J jval j) (\<lambda>j.
               res_map (\<lambda>j. (index, j)) (lr_destroy J jkey j)))))"
  by (simp add: write_jni_pair_def)

definition write_jni_for ::
    "'j jni \<Rightarrow> nat \<Rightarrow> jref \<Rightarrow> attributes_list \<Rightarrow> 'j \<Rightarrow> 'j res option" where
  "write_jni_for J env arr kvs j =
     map_option (res_map snd) (range_for kvs (\<lambda>kv s. Some (write_jni_pair J env arr kv s)) (0, j))"

lemma write_jni_n:
  "0 \<le> sint index \<Longrightarrow> sint index + 2 * int (length kvs) < 2147483648 \<Longrightarrow>
     res_map snd (range_fold (write_jni_pair J env arr) kvs (index, j)) =
       write_jni_attributes J env arr kvs (sint index) j"
proof (induction kvs arbitrary: index j)
  case (Cons kv kvs)
  obtain key val where kv: "kv = (key, val)" by (cases kv)
  have i: "sint (index + 1) = sint index + 1" "sint (index + 2) = sint index + 2"
    using sint_plus_32[of index] Cons.prems by simp_all
  have keep: "res_map snd (range_fold (write_jni_pair J env arr) kvs (index, k)) =
      write_jni_attributes J env arr kvs (sint index) k" for k
    using Cons.prems by (intro Cons.IH) simp_all
  have up: "res_map snd (range_fold (write_jni_pair J env arr) kvs (index + 2, k)) =
      write_jni_attributes J env arr kvs (sint index + 2) k" for k
    using Cons.prems Cons.IH[of "index + 2" k] i(2) by simp
  show ?case
    unfolding kv range_fold_step res_map_bind
    by (simp only: write_jni_pair_eq write_jni_attributes.simps counting_simps i keep up)
qed simp

text \<open>\<^verbatim>\<open>android_span_data.cpp\<close>, lines 162 to 166.\<close>

definition fill_span ::
    "'j jni \<Rightarrow> span_jclass_cache \<Rightarrow> nat \<Rightarrow> jref \<Rightarrow> span \<Rightarrow> 32 word \<times> 'j \<Rightarrow> (32 word \<times> 'j) res" where
  "fill_span J g env arr s = (\<lambda>(i, j).
     res_bind (create_jni_span_object J g env s j) (\<lambda>(jspan, j).
       res_bind
         (if lr_bool jspan then
            res_map (\<lambda>j. (i + 1, j)) (jni_set_object_array_element J arr (sint i) (lr_value jspan) j)
          else Inr (i, j))
         (\<lambda>(i, j). res_map (\<lambda>j. (i, j)) (lr_destroy J jspan j))))"

definition fill_for ::
    "'j jni \<Rightarrow> span_jclass_cache \<Rightarrow> nat \<Rightarrow> jref \<Rightarrow> span list \<Rightarrow> 'j \<Rightarrow> 'j res option" where
  "fill_for J g env arr ss j =
     map_option (res_map snd) (range_for ss (\<lambda>s c. Some (fill_span J g env arr s c)) (0, j))"

lemma fill_n:
  "0 \<le> sint i \<Longrightarrow> sint i + int (length ss) < 2147483648 \<Longrightarrow>
     res_map snd (range_fold (fill_span J g env arr) ss (i, j)) = fill_spans_array J g env arr ss (sint i) j"
proof (induction ss arbitrary: i j)
  case (Cons s ss)
  have i1: "sint (i + 1) = sint i + 1" using sint_plus_32(1)[of i] Cons.prems by simp
  have keep: "res_map snd (range_fold (fill_span J g env arr) ss (i, k)) =
      fill_spans_array J g env arr ss (sint i) k" for k
    using Cons.prems by (intro Cons.IH) simp_all
  have up: "res_map snd (range_fold (fill_span J g env arr) ss (i + 1, k)) =
      fill_spans_array J g env arr ss (sint i + 1) k" for k
    using Cons.prems Cons.IH[of "i + 1" k] i1 by simp
  show ?case
    unfolding range_fold_step res_map_bind
    by (simp only: fill_span_def fill_spans_array.simps counting_simps i1 keep up)
qed simp

lemma counting_loops_return:
  "2 * length kvs < 2147483648 \<Longrightarrow> write_jni_for J env arr kvs j = Some (write_jni_attributes J env arr kvs 0 j)"
  "length ss < 2147483648 \<Longrightarrow> fill_for J g env arr ss j = Some (fill_spans_array J g env arr ss 0 j)"
  using write_jni_n[of 0 kvs J env arr j] fill_n[of 0 ss J g env arr j]
    range_for_returns[of kvs "\<lambda>kv s. Some (write_jni_pair J env arr kv s)" "write_jni_pair J env arr"]
    range_for_returns[of ss "\<lambda>s c. Some (fill_span J g env arr s c)" "fill_span J g env arr"]
  by (simp_all add: write_jni_for_def fill_for_def)

end
