(* ===== verification/Size_Word.thy ===== *)
theory Size_Word
  imports Restart
begin

text \<open>
  The size word of the header only matters when a mapping is opened: it selects the alternative
  of the variant. The operations of the writer neither read nor write it, so a writer over a
  header with any other size word makes the same run. This is what a size outside the
  enumeration comes to: a writer over a small layout whose header names the unsupported size.
\<close>

section \<open>Replacing the size word\<close>

definition size_word :: "u64 \<Rightarrow> memory_layout \<Rightarrow> memory_layout" where
  "size_word w = upd_header (\<lambda>h. h\<lparr>h_mmap_size := w\<rparr>)"

definition data_word :: "u64 \<Rightarrow> raw_span_data \<Rightarrow> raw_span_data" where
  "data_word w d = d\<lparr>rd_layout := size_word w (rd_layout d)\<rparr>"

definition impl_word :: "u64 \<Rightarrow> span_data_impl \<Rightarrow> span_data_impl" where
  "impl_word w x = with_data x (data_word w (impl_data x))"

definition mut_word :: "u64 \<Rightarrow> mutable_span_data \<Rightarrow> mutable_span_data" where
  "mut_word w m = m\<lparr>mu_impl := impl_word w (mu_impl m)\<rparr>"

named_theorems word_simps \<open>what the operations see of a replaced size word\<close>

lemma size_word_simps [word_simps]:
  "ml_marked_spans (size_word w l) = ml_marked_spans l"
  "active_count (size_word w l) = active_count l"
  "active (size_word w l) = active l"
  by (simp_all add: size_word_def layout_simps active_def)

lemma impl_word_simps [word_simps]:
  "impl_data (impl_word w x) = data_word w (impl_data x)"
  "impl_alt (impl_word w x) = impl_alt x"
  "impl_slots (impl_word w x) = impl_slots x"
  by (simp_all add: impl_word_def impl_slots_def rsd_slots_def data_word_def word_simps)

lemma mut_word_simps [word_simps]:
  "mu_index (mut_word w m) = mu_index m"
  "mu_impl (mut_word w m) = impl_word w (mu_impl m)"
  "live (mut_word w m) = live m"
  by (simp_all add: mut_word_def live_def mut_slots_def word_simps)

lemma exec_store_word:
  "keeps_header s \<Longrightarrow> exec_store sz s (size_word w l) = size_word w (exec_store sz s l)"
  by (cases s) (simp_all add: size_word_def upd_header_def upd_slot_def upd_span_def)

lemma exec_stores_word:
  "list_all keeps_header ss \<Longrightarrow> exec_stores sz ss (size_word w l) = size_word w (exec_stores sz ss l)"
  by (induction ss arbitrary: l) (simp_all add: exec_store_word)

lemma run_on_word: "list_all keeps_header ss \<Longrightarrow> run_on sz ss (data_word w d) = data_word w (run_on sz ss d)"
  by (simp add: run_on_def data_word_def exec_stores_word)

section \<open>The operations of the store\<close>

lemma rsd_add_word:
  "rsd_add sz s (data_word w d) = res_map (\<lambda>(i, d). (i, data_word w d)) (rsd_add sz s d)"
proof -
  have "add_stores sz s mark (size_word w l) = add_stores sz s mark l" for mark l
    by (simp add: add_stores_def word_simps)
  moreover have "run_on sz ss (data_word w d\<lparr>rd_mark_counter := mark\<rparr>) =
      data_word w (run_on sz ss (d\<lparr>rd_mark_counter := mark\<rparr>))" if "list_all keeps_header ss" for ss mark
    using run_on_word[OF that, of sz w "d\<lparr>rd_mark_counter := mark\<rparr>"] by (cases d) (simp add: data_word_def)
  ultimately show ?thesis
    by (simp add: rsd_add_def rsd_count_def Let_def word_simps add_stores_header)
      (simp add: data_word_def word_simps)
qed

lemma rsd_remove_word:
  "rsd_remove sz i (data_word w d) = res_map (\<lambda>(j, d). (j, data_word w d)) (rsd_remove sz i d)"
proof -
  have "remove_stores n (size_word w l) = remove_stores n l" for n l
    by (simp add: remove_stores_def Let_def word_simps)
  then show ?thesis
    using run_on_word[OF remove_stores_header, where sz = sz and w = w and d = d]
    by (simp add: rsd_remove_def Let_def data_word_def word_simps)
qed

lemma rsd_end_word:
  "rsd_set_end_time sz i t (data_word w d) = res_map (data_word w) (rsd_set_end_time sz i t d)"
  using run_on_word[of "[Store_End_Time (unat i) t]" sz w d]
  by (simp add: rsd_set_end_time_def rsd_count_def data_word_def word_simps)

lemma rsd_set_attribute_word:
  "rsd_set_attribute_on_span sz i k v (data_word w d) =
     res_map (\<lambda>(j, d). (j, data_word w d)) (rsd_set_attribute_on_span sz i k v d)"
proof -
  have r: "slot_span (rd_layout (data_word w d)) n = slot_span (rd_layout d) n" for n
    by (simp add: data_word_def word_simps)
  show ?thesis
    unfolding rsd_set_attribute_on_span_def r
    by (cases "set_attribute_stores sz (unat i) k v (slot_span (rd_layout d) (unat i))")
      (auto simp: run_on_word dest!: set_attribute_stores_header)
qed

section \<open>The members of SpanDataImpl\<close>

lemma impl_with_word: "with_data (impl_word w x) (data_word w d) = impl_word w (with_data x d)"
  by (cases x) (simp_all add: impl_word_def impl_data_def)

lemmas word_step = visit_eq word_simps res_map_map case_prod_beta impl_with_word

lemma impl_add_word: "impl_add s (impl_word w x) = res_map (\<lambda>(i, x). (i, impl_word w x)) (impl_add s x)"
  by (simp add: impl_add_def word_step rsd_add_word)

lemma impl_remove_word:
  "impl_remove i (impl_word w x) = res_map (\<lambda>(j, x). (j, impl_word w x)) (impl_remove i x)"
  by (simp add: impl_remove_def word_step rsd_remove_word)

lemma impl_end_word: "impl_set_end_time i t (impl_word w x) = res_map (impl_word w) (impl_set_end_time i t x)"
  by (simp add: impl_set_end_time_def word_step rsd_end_word)

lemma impl_set_attribute_word:
  "impl_set_attribute_on_span i k v (impl_word w x) =
     res_map (\<lambda>(j, x). (j, impl_word w x)) (impl_set_attribute_on_span i k v x)"
  by (simp add: impl_set_attribute_on_span_def word_step rsd_set_attribute_word)

lemma impl_count_word [word_simps]: "impl_count (impl_word w x) = impl_count x"
  by (simp add: impl_count_def visit_eq word_simps rsd_count_def data_word_def)

lemma impl_max_count_word [word_simps]: "impl_max_count (impl_word w x) = impl_max_count x"
  by (simp add: impl_max_count_def visit_eq word_simps)

lemma impl_read_word [word_simps]:
  "impl_get_mark i (impl_word w x) = impl_get_mark i x"
  "impl_get_span_id i (impl_word w x) = impl_get_span_id i x"
  by (simp_all add: impl_get_mark_def impl_get_span_id_def impl_get_raw_span_def visit_eq word_simps
      rsd_get_mark_def rsd_get_raw_span_def data_word_def)

lemma oldest_span_word [word_simps]: "oldest_span (impl_word w x) = oldest_span x"
proof -
  have "oldest_scan n i om oid (impl_word w x) = oldest_scan n i om oid x" for n i om oid
    by (induction n arbitrary: i om oid) (simp_all add: word_simps cong: if_cong)
  then show ?thesis by (simp add: oldest_span_def word_simps)
qed

section \<open>The writer\<close>

lemma mut_remove_word: "mut_remove i (mut_word w m) = res_map (mut_word w) (mut_remove i m)"
  by (cases m; cases "mu_index m i"; cases "impl_remove (the (mu_index m i)) (mu_impl m)")
    (auto simp: mut_remove_def impl_remove_word Let_def mut_word_def)

lemma mut_append_word:
  "res_map (\<lambda>(j, x). mut_word w m\<lparr>mu_impl := x, mu_index := map_insert k j (mu_index m)\<rparr>)
      (impl_add s (impl_word w (mu_impl m))) =
   res_map (mut_word w)
     (res_map (\<lambda>(j, x). m\<lparr>mu_impl := x, mu_index := map_insert k j (mu_index m)\<rparr>) (impl_add s (mu_impl m)))"
  by (cases m; cases "impl_add s (mu_impl m)") (auto simp: impl_add_word mut_word_def)

lemma mut_add_word: "mut_add s (mut_word w m) = res_map (mut_word w) (mut_add s m)"
proof -
  let ?room = "\<lambda>m. if unat (impl_count (mu_impl m)) = impl_max_count (mu_impl m) then
      res_bind (oldest_span (mu_impl m)) (\<lambda>oldest. if oldest \<noteq> 0 then mut_remove oldest m else Inr m)
    else Inr m"
  have room: "?room (mut_word w m) = res_map (mut_word w) (?room m)"
    by (cases "oldest_span (mu_impl m)") (simp_all add: word_simps mut_remove_word)
  show ?thesis
  proof (cases "mu_index m (sp_span_id s)")
    case None
    then show ?thesis
      unfolding mut_add_def room
      by (simp add: word_simps res_bind_map res_map_bind mut_append_word cong: if_cong)
  qed (simp add: mut_add_def word_simps)
qed

lemma mut_end_word: "mut_end now i t (mut_word w m) = res_map (mut_word w) (mut_end now i t m)"
  by (cases "mu_index m i")
    (simp_all add: mut_end_def word_simps impl_end_word res_map_map Let_def mut_word_def)

lemma mut_set_attribute_word:
  "mut_set_attribute_on_span i k v (mut_word w m) = res_map (mut_word w) (mut_set_attribute_on_span i k v m)"
  by (cases "mu_index m i")
    (simp_all add: mut_set_attribute_on_span_def word_simps impl_set_attribute_word res_map_map
      case_prod_beta mut_word_def)

lemma mut_step_word: "mut_step op (mut_word w m) = res_map (mut_word w) (mut_step op m)"
  by (cases op) (simp_all add: mut_add_word mut_remove_word mut_end_word mut_set_attribute_word)

lemma mut_run_word: "mut_run ops (mut_word w m) = res_map (mut_word w) (mut_run ops m)"
proof (induction ops arbitrary: m)
  case (Cons op ops)
  then show ?case by (cases "mut_step op m") (simp_all add: mut_step_word)
qed simp

section \<open>A size outside the enumeration\<close>

lemma unsupported_writer:
  assumes "\<not> is_supported_size target" "fresh_context target ss c"
  shows "cx_writer c Map.empty = mut_word target (fresh_writer Small)"
proof -
  have "layout_alt target = Small"
    using assms(1) by (auto simp: layout_alt_def is_supported_size_def)
  then have "cleared_layout target = size_word target (fresh_layout Small)"
    by (simp add: cleared_layout_def fresh_layout_def size_word_def upd_header_def)
  with \<open>layout_alt target = Small\<close> assms(2) show ?thesis
    by (simp add: fresh_context_def cx_writer_def fresh_writer_def mut_new_def mut_word_def
        impl_word_def data_word_def impl_data_def)
qed

lemma unsupported_run:
  assumes "\<not> is_supported_size target" "fresh_context target ss c"
    and "list_all valid_op ops" "length ops < 2 ^ 64"
  shows "\<exists>m. mut_run ops (cx_writer c Map.empty) = Inr m \<and> live m = spec_run Small ops [] \<and>
    same_header (cleared_layout target) (mut_layout m)"
proof -
  from mut_run_refines[of Small "fresh_writer Small" ops] assms(3,4) obtain m where
    m: "mut_run ops (fresh_writer Small) = Inr m" "live m = spec_run Small ops []"
    by auto
  then have r: "mut_run ops (cx_writer c Map.empty) = Inr (mut_word target m)"
    by (simp add: unsupported_writer[OF assms(1,2)] mut_run_word)
  moreover have "same_header (cleared_layout target) (mut_layout (mut_word target m))"
    using mut_run_header[OF r] assms(2) by (simp add: fresh_context_def cx_writer_def)
  ultimately show ?thesis using m(2) by (auto simp: mut_word_simps(3))
qed

end
