(* ===== verification/Store_Bytes.thy ===== *)
theory Store_Bytes
  imports Restart
begin

text \<open>
  The stores as writes of bytes. A store of the model updates a record; in the program it is
  a write of bytes at an offset of the mapping. Here each store gets its offset and its
  bytes, and running the stores on the records is proved to be running the writes on the
  file. Every store of every call is typed: its indexes are within the arrays, its bytes
  have the length of the member it writes.
\<close>

section \<open>Writes of bytes\<close>

definition poke :: "nat \<Rightarrow> bytes \<Rightarrow> bytes \<Rightarrow> bytes" where
  "poke off bs xs = take off xs @ bs @ drop (off + length bs) xs"

lemma length_poke [simp]: "off + length bs \<le> length xs \<Longrightarrow> length (poke off bs xs) = length xs"
  by (simp add: poke_def)

lemma poke_front: "off + length bs \<le> length xs \<Longrightarrow> poke off bs (xs @ ys) = poke off bs xs @ ys"
  by (simp add: poke_def)

lemma poke_back: "length xs = n \<Longrightarrow> poke (n + off) bs (xs @ ys) = xs @ poke off bs ys"
  by (simp add: poke_def)

lemma poke_all: "length bs = length xs \<Longrightarrow> poke 0 bs xs = bs"
  by (simp add: poke_def)

text \<open>
  \<open>at e off x x' bs\<close>: in the bytes of \<open>x\<close>, those at \<open>off\<close> can be written by \<open>bs\<close>, which gives
  the bytes of \<open>x'\<close>.
\<close>

definition at :: "('a \<Rightarrow> bytes) \<Rightarrow> nat \<Rightarrow> 'a \<Rightarrow> 'a \<Rightarrow> bytes \<Rightarrow> bool" where
  "at e off x x' bs \<longleftrightarrow> off + length bs \<le> length (e x) \<and> e x' = poke off bs (e x)"

lemma at_whole: "length (e x') = length (e x) \<Longrightarrow> at e 0 x x' (e x')"
  by (simp add: at_def poke_all)

lemma at_front:
  "at e off x x' bs \<Longrightarrow> f y = e x @ rest \<Longrightarrow> f y' = e x' @ rest \<Longrightarrow> at f off y y' bs"
  by (simp add: at_def poke_front)

lemma at_back:
  "length front = n \<Longrightarrow> at e off x x' bs \<Longrightarrow> f y = front @ e x \<Longrightarrow> f y' = front @ e x' \<Longrightarrow>
     at f (n + off) y y' bs"
  by (auto simp: at_def poke_back)

lemma enc_array_append: "enc_array e (xs @ ys) = enc_array e xs @ enc_array e ys"
  by (induction xs) auto

lemma length_enc_array: "(\<And>x. x \<in> set xs \<Longrightarrow> length (e x) = n) \<Longrightarrow> length (enc_array e xs) = length xs * n"
  by (induction xs) auto

lemma at_element:
  assumes x: "at e off (xs ! i) y bs" and i: "i < length xs"
    and n: "\<And>x. x \<in> set xs \<Longrightarrow> length (e x) = n"
  shows "at (enc_array e) (i * n + off) xs (xs[i := y]) bs"
proof (rule at_back)
  show "at (\<lambda>x. e x @ enc_array e (drop (Suc i) xs)) off (xs ! i) y bs"
    using x by (rule at_front) simp_all
  have "xs = take i xs @ xs ! i # drop (Suc i) xs" using i by (rule id_take_nth_drop)
  then show "enc_array e xs = enc_array e (take i xs) @ e (xs ! i) @ enc_array e (drop (Suc i) xs)"
    by (metis enc_array.simps(2) enc_array_append)
  show "enc_array e (xs[i := y]) = enc_array e (take i xs) @ e y @ enc_array e (drop (Suc i) xs)"
    using i by (simp add: upd_conv_take_nth_drop enc_array_append)
  have "length (enc_array e (take i xs)) = length (take i xs) * n"
    using n by (intro length_enc_array) (auto dest: in_set_takeD)
  then show "length (enc_array e (take i xs)) = i * n" using i by simp
qed

section \<open>The members of the structures\<close>

lemmas struct_bytes =
  enc_layout_def enc_header_def enc_marked_span_def enc_raw_span_def enc_attribute_def
  enc_pair_def member_defs

lemma length_enc_u64 [simp]: "length (enc_u64 w) = 8"
  by (simp add: enc_u64_def)

lemma length_encodings:
  "wf_attribute a \<Longrightarrow> length (enc_attribute a) = sizeof_raw_attribute"
  "wf_raw_span sz r \<Longrightarrow> length (enc_raw_span r) = sizeof_raw_span sz"
  "wf_raw_span sz (ms_span m) \<Longrightarrow> length (enc_marked_span m) = sizeof_marked_span sz"
  "length (enc_header h) = sizeof_header"
  using codec.enc_length[OF codec_attribute] codec.enc_length[OF codec_raw_span]
    codec.enc_length[OF codec_marked_span] codec.enc_length[OF codec_header]
  by simp_all

text \<open>Each step from a structure to a member of it.\<close>

lemma at_key: "length b = length (attr_key a) \<Longrightarrow> at enc_attribute 0 a (a\<lparr>attr_key := b\<rparr>) b"
  by (rule at_front[of "\<lambda>b. b" _ "attr_key a" b]) (simp_all add: at_def poke_all struct_bytes)

lemma at_value:
  "length b = length (attr_value a) \<Longrightarrow> length (attr_key a) = attr_key_size \<Longrightarrow>
     at enc_attribute (attr_key_size + 0) a (a\<lparr>attr_value := b\<rparr>) b"
  by (rule at_back[of _ _ "\<lambda>b. b" _ "attr_value a" b]) (simp_all add: at_def poke_all struct_bytes)

lemma at_end_time: "at enc_raw_span (40 + 0) r (r\<lparr>raw_end_time := w\<rparr>) (enc_u64 w)"
  by (rule at_back[of _ _ "\<lambda>w. enc_u64 w @ raw_name r @ enc_u64 (raw_attr_count r) @
        enc_array enc_attribute (raw_attributes r)" _ "raw_end_time r" w])
    (simp_all add: at_def poke_def struct_bytes)

lemma at_attr_count:
  "length (raw_name r) = span_name_size \<Longrightarrow>
     at enc_raw_span (offset_attr_count + 0) r (r\<lparr>raw_attr_count := w\<rparr>) (enc_u64 w)"
  by (rule at_back[of _ _ "\<lambda>w. enc_u64 w @ enc_array enc_attribute (raw_attributes r)" _ "raw_attr_count r" w])
    (simp_all add: at_def poke_def struct_bytes offset_attr_count_def)

lemma at_attribute:
  assumes a: "at enc_attribute off (raw_attributes r ! j) (f (raw_attributes r ! j)) bs"
    and wf: "wf_raw_span sz r" and j: "j < max_attributes (mmap_config sz)"
  shows "at enc_raw_span (offset_attr_count + 8 + (j * sizeof_raw_attribute + off)) r (upd_attr j f r) bs"
proof (rule at_back)
  show "at (enc_array enc_attribute) (j * sizeof_raw_attribute + off) (raw_attributes r)
      ((raw_attributes r)[j := f (raw_attributes r ! j)]) bs"
    using a wf j by (intro at_element) (auto simp: wf_raw_span_def list_all_iff length_encodings(1))
qed (use wf in \<open>simp_all add: struct_bytes upd_attr_def wf_raw_span_def offset_attr_count_def\<close>)

lemma at_mark: "at enc_marked_span 0 m (m\<lparr>ms_mark := w\<rparr>) (enc_u64 w)"
  by (rule at_front[of enc_u64 _ "ms_mark m" w]) (simp_all add: at_def poke_all struct_bytes)

lemma at_span:
  "at enc_raw_span off (ms_span m) r bs \<Longrightarrow> at enc_marked_span (8 + off) m (m\<lparr>ms_span := r\<rparr>) bs"
  by (rule at_back[of _ _ enc_raw_span]) (simp_all add: enc_marked_span_def enc_pair_def member_defs)

definition offset_slot :: "mmap_size \<Rightarrow> nat \<Rightarrow> nat" where
  "offset_slot sz i = sizeof_header + i * sizeof_marked_span sz"

lemma at_slot:
  assumes m: "at enc_marked_span off (ml_marked_spans l ! i) (f (ml_marked_spans l ! i)) bs"
    and wf: "wf_layout sz l" and i: "i < max_spans (mmap_config sz)"
  shows "at enc_layout (offset_slot sz i + off) l (upd_slot i f l) bs"
proof -
  have "at (enc_array enc_marked_span) (i * sizeof_marked_span sz + off) (ml_marked_spans l)
      ((ml_marked_spans l)[i := f (ml_marked_spans l ! i)]) bs"
    using m wf i by (intro at_element) (auto simp: wf_layout_def list_all_iff length_encodings(3))
  then have "at enc_layout (sizeof_header + (i * sizeof_marked_span sz + off)) l (upd_slot i f l) bs"
    by (rule at_back[OF length_encodings(4)]) (simp_all add: enc_layout_def enc_pair_def member_defs upd_slot_def)
  then show ?thesis by (simp add: offset_slot_def add.assoc)
qed

lemma at_upd_span:
  assumes "at enc_raw_span off (slot_span l i) (f (slot_span l i)) bs"
    and "wf_layout sz l" and "i < max_spans (mmap_config sz)"
  shows "at enc_layout (offset_slot sz i + (8 + off)) l (upd_span i f l) bs"
  unfolding upd_span_def by (intro at_slot at_span assms)

lemma at_header:
  "at enc_header off (ml_header l) (f (ml_header l)) bs \<Longrightarrow> at enc_layout off l (upd_header f l) bs"
  by (rule at_front[of enc_header]) (simp_all add: enc_layout_def enc_pair_def member_defs upd_header_def)

section \<open>Offsets and bytes of the stores\<close>

fun store_offset :: "mmap_size \<Rightarrow> store \<Rightarrow> nat" where
  "store_offset sz (Store_Signature w) = 0"
| "store_offset sz (Store_Version w) = 8"
| "store_offset sz (Store_Mmap_Size w) = offset_mmap_size"
| "store_offset sz (Store_Count w) = offset_active_span_count"
| "store_offset sz (Store_Mark i w) = offset_slot sz i"
| "store_offset sz (Store_Span i r) = offset_slot sz i + 8"
| "store_offset sz (Store_End_Time i w) = offset_slot sz i + 8 + 40"
| "store_offset sz (Store_Attr_Count i w) = offset_slot sz i + 8 + offset_attr_count"
| "store_offset sz (Store_Attr_Key i j b) =
     offset_slot sz i + 8 + offset_attr_count + 8 + j * sizeof_raw_attribute"
| "store_offset sz (Store_Attr_Value i j b) =
     offset_slot sz i + 8 + offset_attr_count + 8 + j * sizeof_raw_attribute + attr_key_size"
| "store_offset sz Store_Clear_Spans = sizeof_header"

fun store_bytes :: "mmap_size \<Rightarrow> store \<Rightarrow> bytes" where
  "store_bytes sz (Store_Signature w) = enc_u64 w"
| "store_bytes sz (Store_Version w) = enc_u64 w"
| "store_bytes sz (Store_Mmap_Size w) = enc_u64 w"
| "store_bytes sz (Store_Count w) = enc_u64 w"
| "store_bytes sz (Store_Mark i w) = enc_u64 w"
| "store_bytes sz (Store_Span i r) = enc_raw_span r"
| "store_bytes sz (Store_End_Time i w) = enc_u64 w"
| "store_bytes sz (Store_Attr_Count i w) = enc_u64 w"
| "store_bytes sz (Store_Attr_Key i j b) = b"
| "store_bytes sz (Store_Attr_Value i j b) = b"
| "store_bytes sz Store_Clear_Spans = replicate (max_spans (mmap_config sz) * sizeof_marked_span sz) 0"

fun poke_stores :: "mmap_size \<Rightarrow> store list \<Rightarrow> bytes \<Rightarrow> bytes" where
  "poke_stores sz [] bs = bs"
| "poke_stores sz (s # ss) bs = poke_stores sz ss (poke (store_offset sz s) (store_bytes sz s) bs)"

text \<open>A typed store has its indexes in the arrays and a payload of the right shape.\<close>

fun in_arrays :: "mmap_size \<Rightarrow> store \<Rightarrow> bool" where
  "in_arrays sz (Store_Mark i w) \<longleftrightarrow> i < max_spans (mmap_config sz)"
| "in_arrays sz (Store_Span i r) \<longleftrightarrow> i < max_spans (mmap_config sz)"
| "in_arrays sz (Store_End_Time i w) \<longleftrightarrow> i < max_spans (mmap_config sz)"
| "in_arrays sz (Store_Attr_Count i w) \<longleftrightarrow> i < max_spans (mmap_config sz)"
| "in_arrays sz (Store_Attr_Key i j b) \<longleftrightarrow>
     i < max_spans (mmap_config sz) \<and> j < max_attributes (mmap_config sz)"
| "in_arrays sz (Store_Attr_Value i j b) \<longleftrightarrow>
     i < max_spans (mmap_config sz) \<and> j < max_attributes (mmap_config sz)"
| "in_arrays sz _ \<longleftrightarrow> True"

definition typed_store :: "mmap_size \<Rightarrow> store \<Rightarrow> bool" where
  "typed_store sz s \<longleftrightarrow> in_arrays sz s \<and> wf_store sz s"

lemma le_digits_zero: "le_digits n 0 = replicate n 0"
  by (induction n) auto

lemma enc_zero_u64: "enc_u64 0 = replicate 8 0"
  by (simp add: enc_u64_def le_digits_zero)

lemma enc_array_replicate: "e x = replicate n c \<Longrightarrow> enc_array e (replicate k x) = replicate (k * n) c"
  by (induction k) (simp_all add: replicate_add)

lemma enc_zero_marked_span: "enc_marked_span (zero_marked_span sz) = replicate (sizeof_marked_span sz) 0"
proof -
  have "enc_attribute zero_attribute = replicate sizeof_raw_attribute 0"
    by (simp add: struct_bytes zero_attribute_def sizeof_raw_attribute_def replicate_add)
  from enc_array_replicate[of enc_attribute zero_attribute, OF this, of "max_attributes (mmap_config sz)"] show ?thesis
    by (simp add: struct_bytes zero_marked_span_def zero_raw_span_def enc_zero_u64
        sizeof_marked_span_def sizeof_raw_span_def offset_attr_count_def replicate_add[symmetric])
qed

lemma at_clear:
  assumes "wf_layout sz l"
  shows "at enc_layout (sizeof_header + 0) l (exec_store sz Store_Clear_Spans l)
    (replicate (max_spans (mmap_config sz) * sizeof_marked_span sz) 0)"
proof -
  let ?z = "replicate (length (ml_marked_spans l)) (zero_marked_span sz)"
  have z: "enc_array enc_marked_span ?z = replicate (max_spans (mmap_config sz) * sizeof_marked_span sz) 0"
    using enc_array_replicate[of enc_marked_span "zero_marked_span sz", OF enc_zero_marked_span] assms by (simp add: wf_layout_def)
  have "length (enc_array enc_marked_span (ml_marked_spans l)) =
      length (ml_marked_spans l) * sizeof_marked_span sz"
    using assms by (intro length_enc_array) (simp add: wf_layout_def list_all_iff length_encodings(3))
  then have "length (enc_array enc_marked_span ?z) = length (enc_array enc_marked_span (ml_marked_spans l))"
    unfolding z using assms by (simp add: wf_layout_def)
  then have "at (enc_array enc_marked_span) 0 (ml_marked_spans l) ?z (enc_array enc_marked_span ?z)"
    by (rule at_whole)
  then have "at enc_layout (sizeof_header + 0) l (exec_store sz Store_Clear_Spans l) (enc_array enc_marked_span ?z)"
    by (rule at_back[OF length_encodings(4)]) (simp_all add: enc_layout_def enc_pair_def member_defs)
  then show ?thesis unfolding z .
qed

text \<open>The members of the header, and a buffer of an attribute.\<close>

lemma at_header_words:
  "at enc_header 0 h (h\<lparr>h_signature := w\<rparr>) (enc_u64 w)"
  "at enc_header 8 h (h\<lparr>h_version := w\<rparr>) (enc_u64 w)"
  "at enc_header offset_mmap_size h (h\<lparr>h_mmap_size := w\<rparr>) (enc_u64 w)"
  "at enc_header offset_active_span_count h (h\<lparr>h_active_span_count := w\<rparr>) (enc_u64 w)"
  by (simp_all add: at_def poke_def struct_bytes offset_mmap_size_def offset_active_span_count_def
      sizeof_mmap_size_def)

lemma at_upd_attr:
  assumes wf: "wf_layout sz l" and i: "i < max_spans (mmap_config sz)" and j: "j < max_attributes (mmap_config sz)"
    and a: "\<And>a. wf_attribute a \<Longrightarrow> at enc_attribute off a (f a) bs"
  shows "at enc_layout (offset_slot sz i + (8 + (offset_attr_count + 8 + (j * sizeof_raw_attribute + off))))
    l (upd_span i (upd_attr j f) l) bs"
proof -
  note r = wf_layout_slot[OF wf i]
  then have "wf_attribute (raw_attributes (slot_span l i) ! j)"
    using j by (simp add: wf_raw_span_def list_all_length)
  from at_attribute[where f = f, OF a[OF this] r j] show ?thesis
    by (rule at_upd_span[OF _ wf i])
qed

text \<open>A typed store is the write of its bytes at its offset, inside the layout.\<close>

lemma typed_store_bytes:
  assumes wf: "wf_layout sz l" and s: "typed_store sz s"
  shows "at enc_layout (store_offset sz s) l (exec_store sz s l) (store_bytes sz s)"
proof (cases s)
  case (Store_Mark i w)
  then show ?thesis
    using at_slot[of 0 l i "\<lambda>m. m\<lparr>ms_mark := w\<rparr>", OF at_mark wf] s by (simp add: typed_store_def)
next
  case (Store_Span i r)
  with s have i: "i < max_spans (mmap_config sz)" and r: "wf_raw_span sz r"
    by (simp_all add: typed_store_def)
  have "at enc_raw_span 0 (slot_span l i) r (enc_raw_span r)"
    using wf_layout_slot[OF wf i] r by (intro at_whole) (simp add: length_encodings(2))
  from at_upd_span[of 0 l i "\<lambda>_. r", OF this wf i] Store_Span show ?thesis by simp
next
  case (Store_End_Time i w)
  with s have i: "i < max_spans (mmap_config sz)" by (simp add: typed_store_def)
  from at_upd_span[of _ l i "\<lambda>r. r\<lparr>raw_end_time := w\<rparr>", OF at_end_time wf i] Store_End_Time
  show ?thesis by (simp add: add.assoc)
next
  case (Store_Attr_Count i w)
  with s have i: "i < max_spans (mmap_config sz)" by (simp add: typed_store_def)
  have "length (raw_name (slot_span l i)) = span_name_size"
    using wf_layout_slot[OF wf i] by (simp add: wf_raw_span_def)
  from at_upd_span[of _ l i "\<lambda>r. r\<lparr>raw_attr_count := w\<rparr>", OF at_attr_count[OF this] wf i] Store_Attr_Count
  show ?thesis by (simp add: add.assoc)
next
  case (Store_Attr_Key i j b)
  have "at enc_attribute 0 a (a\<lparr>attr_key := b\<rparr>) b" if "wf_attribute a" for a
    using at_key s that Store_Attr_Key by (simp add: typed_store_def wf_attribute_def)
  from at_upd_attr[OF wf _ _ this] s Store_Attr_Key show ?thesis
    by (simp add: typed_store_def add.assoc)
next
  case (Store_Attr_Value i j b)
  have "at enc_attribute attr_key_size a (a\<lparr>attr_value := b\<rparr>) b" if "wf_attribute a" for a
    using at_value[of b a] s that Store_Attr_Value by (simp add: typed_store_def wf_attribute_def)
  from at_upd_attr[OF wf _ _ this] s Store_Attr_Value show ?thesis
    by (simp add: typed_store_def add.assoc)
qed (simp_all add: at_header at_header_words at_clear[OF wf, simplified])

text \<open>Running the stores on the records is running the writes on the bytes.\<close>

lemma exec_stores_bytes:
  "wf_layout sz l \<Longrightarrow> list_all (typed_store sz) ss \<Longrightarrow>
     enc_layout (exec_stores sz ss l) = poke_stores sz ss (enc_layout l)"
proof (induction ss arbitrary: l)
  case (Cons s ss)
  then have s: "typed_store sz s" by simp
  have "enc_layout (exec_store sz s l) = poke (store_offset sz s) (store_bytes sz s) (enc_layout l)"
    using typed_store_bytes[OF Cons.prems(1) s] by (simp add: at_def)
  moreover have "wf_layout sz (exec_store sz s l)"
    using Cons.prems(1) s by (intro wf_exec_store) (simp_all add: typed_store_def)
  ultimately show ?case using Cons by simp
qed simp

lemma typed_store_inside:
  "typed_store sz s \<Longrightarrow> store_offset sz s + length (store_bytes sz s) \<le> sizeof_memory_layout sz"
  using typed_store_bytes[OF wf_zero_layout, of sz s]
    layout_bytes.enc_length[OF wf_zero_layout, of sz]
  by (simp add: at_def)

text \<open>
  Every store begins at a whole word of the file, so that a number is not split over two of
  them: what the static assertions of the headers are for.
\<close>

lemma sizeof_word_aligned: "8 dvd sizeof_marked_span sz" "8 dvd sizeof_raw_attribute"
  by (simp_all add: sizeof_defs dvd_add dvd_mult)

lemma store_word_aligned: "word_aligned (store_offset sz s)"
proof -
  have "8 dvd attr_key_size" "8 dvd offset_attr_count" "8 dvd sizeof_header" "8 dvd (40::nat)"
    "8 dvd offset_mmap_size" "8 dvd offset_active_span_count"
    by (simp_all add: sizeof_defs assert_defs)
  moreover have "8 dvd offset_slot sz i" for i
    unfolding offset_slot_def by (intro dvd_add dvd_mult sizeof_word_aligned(1)) (simp add: sizeof_header_def)
  moreover have "8 dvd j * sizeof_raw_attribute" for j
    by (intro dvd_mult sizeof_word_aligned(2))
  ultimately have "8 dvd store_offset sz s"
    by (cases s) (simp_all only: store_offset.simps dvd_add dvd_refl dvd_0_right)
  then show ?thesis by (simp add: word_aligned_def dvd_eq_mod_eq_0)
qed

text \<open>The stores of a call begin at the count: the signature, the version and the size stay.\<close>

lemma keeps_header_offset: "keeps_header s \<Longrightarrow> offset_active_span_count \<le> store_offset sz s"
  by (cases s) (simp_all add: offset_slot_def sizeof_header_def offset_active_span_count_def
      sizeof_mmap_size_def)

section \<open>The stores of the calls are typed\<close>

lemma typed_add_stores:
  "unat (active_count l) < max_spans (mmap_config sz) \<Longrightarrow> list_all (typed_store sz) (add_stores sz s mark l)"
  by (simp add: add_stores_def Let_def typed_store_def)

lemma typed_remove_stores:
  assumes inv: "layout_inv sz c l" and i: "i < unat (active_count l)"
  shows "list_all (typed_store sz) (remove_stores i l)"
proof -
  have "active_count l \<noteq> 0" using i by auto
  then have "i < max_spans (mmap_config sz)" "unat (active_count l - 1) < max_spans (mmap_config sz)"
    using inv i by (auto simp: unat_minus1_64 layout_inv_def)
  then have "list_all (in_arrays sz) (remove_stores i l)"
    by (simp add: remove_stores_def Let_def)
  then show ?thesis
    using wf_remove_stores[OF inv i] by (simp add: typed_store_def list_all_iff)
qed

lemma find_attribute_bound:
  "find_attribute key n raws i = Inr (Some j) \<Longrightarrow> i \<le> j \<and> j < i + length raws"
  by (induction key n raws i rule: find_attribute.induct) (auto split: if_splits)

lemma typed_set_attribute_stores:
  assumes wf: "wf_raw_span sz r" and i: "i < max_spans (mmap_config sz)"
    and ss: "set_attribute_stores sz i key val r = Inr (idx, ss)"
  shows "list_all (typed_store sz) ss"
proof -
  obtain found where found: "find_attribute key (unat (raw_attr_count r)) (raw_attributes r) 0 = Inr found"
    using ss by (auto simp: set_attribute_stores_def res_bind_Inr_iff)
  have n: "length (raw_attributes r) = max_attributes (mmap_config sz)" "0 < attr_key_size" "0 < attr_value_size"
    using wf by (simp_all add: wf_raw_span_def attr_key_size_def attr_value_size_def)
  have a: "wf_attribute (raw_attributes r ! j)" if "j < max_attributes (mmap_config sz)" for j
    using wf that by (simp add: wf_raw_span_def list_all_length)
  show ?thesis
  proof (cases found)
    case None
    show ?thesis
      using ss found n(2,3) i a[of "unat (raw_attr_count r)"]
      by (auto simp: None set_attribute_stores_def append_attribute_stores_def Let_def typed_store_def
          wf_attribute_def split: if_splits)
  next
    case (Some j)
    have "j < max_attributes (mmap_config sz)"
      using find_attribute_bound found n(1) Some by fastforce
    with ss found n(3) i a[of j] show ?thesis
      by (auto simp: Some set_attribute_stores_def update_attribute_stores_def Let_def typed_store_def
          wf_attribute_def)
  qed
qed

lemma typed_removal_stores:
  assumes inv: "mut_inv sz m"
  shows "list_all (typed_store sz) (removal_stores span_id m)"
  using typed_remove_stores[OF mut_layout_inv[OF inv]] indexed_span(1)[OF inv]
  by (auto simp: removal_stores_def split: option.split)

lemma typed_op_stores:
  assumes inv: "mut_inv sz m" and ctr: "unat (mut_counter m) + 1 < 2 ^ 64"
  shows "list_all (typed_store sz) (op_stores sz op m)"
proof -
  note li = mut_layout_inv[OF inv]
  have slot: "unat i < max_spans (mmap_config sz)" if "mu_index m k = Some i" for k i
    using indexed_span(1)[OF inv that] li by (simp add: layout_inv_def)
  show ?thesis
  proof (cases op)
    case (Op_Add s)
    have "list_all (typed_store sz) (eviction_stores m)"
      using typed_removal_stores[OF inv] by (simp add: eviction_stores_def split: sum.split)
    then show ?thesis
      using Op_Add typed_add_stores[OF room_after_eviction(1)[OF inv ctr]] by simp
  next
    case (Op_Remove span_id)
    then show ?thesis using typed_removal_stores[OF inv] by simp
  next
    case (Op_End now span_id t)
    then show ?thesis using slot by (simp add: typed_store_def split: option.split)
  next
    case (Op_Set_Attribute span_id key val)
    have "list_all (typed_store sz) ss"
      if "mu_index m span_id = Some i"
        "set_attribute_stores sz (unat i) key val (slot_span (mut_layout m) (unat i)) = Inr (idx, ss)" for i idx ss
      using typed_set_attribute_stores[OF wf_layout_slot[OF _ slot[OF that(1)]] slot[OF that(1)] that(2)] li
      by (simp add: layout_inv_def)
    then show ?thesis
      using Op_Set_Attribute by (auto split: option.split sum.split)
  qed
qed

end
