(* ===== verification/Release_Build.thy ===== *)
theory Release_Build
  imports Android_Natives Header_Ops Recovery
begin

text \<open>
  The library as it is shipped. The README builds it with \<^verbatim>\<open>CMAKE_BUILD_TYPE=MinSizeRel\<close>, which
  defines \<^verbatim>\<open>NDEBUG\<close>: every \<^verbatim>\<open>assert\<close> is compiled away. The definitions here are the operations
  of \<^verbatim>\<open>raw_span_data.h\<close> and \<^verbatim>\<open>span.h\<close>, and their callers, without their assertions; what is left of the checks
  is the array itself, whose end is \<open>Out_Of_Bounds\<close>. The operations that assert nothing
  (\<open>rsd_set_attribute_on_span\<close>, \<open>rsd_get_mark\<close>, the counts) are shared by both builds.
\<close>

section \<open>Two builds of one computation\<close>

text \<open>
  The assertions only check: the debug build \<open>d\<close> and the release build \<open>r\<close> of a computation
  agree, faults included, unless an assertion failed in the debug build.
\<close>

definition asserts_only :: "'a res \<Rightarrow> 'a res \<Rightarrow> bool" where
  "asserts_only d r \<longleftrightarrow> d = r \<or> (\<exists>t. d = Inl (Assert_Failed t))"

named_theorems asserts_intros \<open>the two builds of an operation differ by assertions only\<close>

lemma asserts_only_refl [asserts_intros]: "asserts_only d d"
  by (simp add: asserts_only_def)

lemma asserts_only_assert: "asserts_only (Inl (Assert_Failed t)) r"
  by (simp add: asserts_only_def)

lemma asserts_only_bind [asserts_intros]:
  "asserts_only d r \<Longrightarrow> (\<And>x. asserts_only (f x) (g x)) \<Longrightarrow> asserts_only (res_bind d f) (res_bind r g)"
  unfolding asserts_only_def by (cases d) (auto, metis)

lemma asserts_only_map [asserts_intros]:
  "asserts_only d r \<Longrightarrow> asserts_only (res_map f d) (res_map f r)"
  by (auto simp: asserts_only_def)

lemma asserts_only_if [asserts_intros]:
  "(b \<Longrightarrow> asserts_only d r) \<Longrightarrow> (\<not> b \<Longrightarrow> asserts_only d' r') \<Longrightarrow>
     asserts_only (if b then d else d') (if b then r else r')"
  by simp

lemma asserts_only_prod [asserts_intros]:
  "(\<And>a b. asserts_only (f a b) (g a b)) \<Longrightarrow>
     asserts_only (case p of (a, b) \<Rightarrow> f a b) (case p of (a, b) \<Rightarrow> g a b)"
  by (cases p) simp

lemma asserts_only_option [asserts_intros]:
  "asserts_only d r \<Longrightarrow> (\<And>x. asserts_only (f x) (g x)) \<Longrightarrow>
     asserts_only (case q of None \<Rightarrow> d | Some x \<Rightarrow> f x) (case q of None \<Rightarrow> r | Some x \<Rightarrow> g x)"
  by (cases q) simp_all

lemma asserts_only_visit [asserts_intros]:
  "(\<And>sz d. asserts_only (f sz d) (g sz d)) \<Longrightarrow> asserts_only (visit f x) (visit g x)"
  by (simp add: visit_eq)

lemma asserts_onlyD: "asserts_only (Inr x) r \<Longrightarrow> r = Inr x"
  by (auto simp: asserts_only_def)

section \<open>span.h\<close>

definition rel_make_span ::
    "trace_id \<Rightarrow> u64 \<Rightarrow> u64 \<Rightarrow> u64 \<Rightarrow> u64 \<Rightarrow> bytes \<Rightarrow> attributes_list \<Rightarrow> span res" where
  "rel_make_span trace_id span_id parent_span_id start_time end_time name attributes =
     Inr \<lparr>sp_trace_id = trace_id, sp_span_id = span_id,
          sp_parent_span_id = parent_span_id, sp_start_time = start_time,
          sp_end_time = end_time, sp_name = name, sp_attributes = attributes\<rparr>"

lemma make_span_asserts [asserts_intros]:
  "asserts_only (make_span t i p st e n as) (rel_make_span t i p st e n as)"
  by (simp add: make_span_def rel_make_span_def asserts_only_def)

section \<open>raw_span_data.h\<close>

definition rel_rsd_add :: "mmap_size \<Rightarrow> span \<Rightarrow> raw_span_data \<Rightarrow> (index_t \<times> raw_span_data) res" where
  "rel_rsd_add sz s d =
     (let raw_index = rsd_count d; l = rd_layout d; mark = rd_mark_counter d + 1
      in if \<not> unat raw_index < rsd_max_count sz then Inl Out_Of_Bounds
         else Inr (raw_index, run_on sz (add_stores sz s mark l) (d\<lparr>rd_mark_counter := mark\<rparr>)))"

definition rel_rsd_set_end_time ::
    "mmap_size \<Rightarrow> index_t \<Rightarrow> u64 \<Rightarrow> raw_span_data \<Rightarrow> raw_span_data res" where
  "rel_rsd_set_end_time sz raw_index end_time d =
     (if \<not> unat raw_index < rsd_max_count sz then Inl Out_Of_Bounds
      else Inr (run_on sz [Store_End_Time (unat raw_index) end_time] d))"

definition rel_rsd_get_raw_span :: "mmap_size \<Rightarrow> index_t \<Rightarrow> raw_span_data \<Rightarrow> raw_span res" where
  "rel_rsd_get_raw_span sz raw_index d =
     (if \<not> unat raw_index < rsd_max_count sz then Inl Out_Of_Bounds
      else Inr (slot_span (rd_layout d) (unat raw_index)))"

definition rel_rsd_get :: "mmap_size \<Rightarrow> index_t \<Rightarrow> raw_span_data \<Rightarrow> span res" where
  "rel_rsd_get sz raw_index d =
     (if \<not> unat raw_index < rsd_max_count sz then Inl Out_Of_Bounds
      else span_of_raw (slot_span (rd_layout d) (unat raw_index)))"

text \<open>The last slot is read only when it is not the one to remove.\<close>

definition rel_rsd_remove ::
    "mmap_size \<Rightarrow> index_t \<Rightarrow> raw_span_data \<Rightarrow> (u64 \<times> raw_span_data) res" where
  "rel_rsd_remove sz raw_index d =
     (let l = rd_layout d; i = unat raw_index; last_index = active_count l - 1
      in if \<not> i < rsd_max_count sz then Inl Out_Of_Bounds
         else if raw_index = last_index then Inr (0, run_on sz (remove_stores i l) d)
         else if \<not> unat last_index < rsd_max_count sz then Inl Out_Of_Bounds
         else Inr (raw_span_id (slot_span l (unat last_index)), run_on sz (remove_stores i l) d))"

definition rel_rsd_size :: "mmap_size \<Rightarrow> raw_span_data \<Rightarrow> u64 res" where
  "rel_rsd_size sz d = Inr (mmap_size_code sz)"

lemma rsd_asserts [asserts_intros]:
  "asserts_only (rsd_add sz s d) (rel_rsd_add sz s d)"
  "asserts_only (rsd_set_end_time sz i t d) (rel_rsd_set_end_time sz i t d)"
  "asserts_only (rsd_get_raw_span sz i d) (rel_rsd_get_raw_span sz i d)"
  "asserts_only (rsd_get sz i d) (rel_rsd_get sz i d)"
  "asserts_only (rsd_remove sz i d) (rel_rsd_remove sz i d)"
  "asserts_only (rsd_size sz d) (rel_rsd_size sz d)"
  by (auto simp: asserts_only_def Let_def
      rsd_add_def rel_rsd_add_def rsd_set_end_time_def rel_rsd_set_end_time_def
      rsd_get_raw_span_def rel_rsd_get_raw_span_def rsd_get_def rel_rsd_get_def
      rsd_remove_def rel_rsd_remove_def rsd_size_def rel_rsd_size_def)

section \<open>span_data_impl.cpp\<close>

definition rel_impl_add :: "span \<Rightarrow> span_data_impl \<Rightarrow> (index_t \<times> span_data_impl) res" where
  "rel_impl_add s x = res_map (\<lambda>(i, d). (i, with_data x d)) (visit (\<lambda>sz. rel_rsd_add sz s) x)"

definition rel_impl_set_end_time :: "index_t \<Rightarrow> u64 \<Rightarrow> span_data_impl \<Rightarrow> span_data_impl res" where
  "rel_impl_set_end_time raw_index end_time x =
     res_map (with_data x) (visit (\<lambda>sz. rel_rsd_set_end_time sz raw_index end_time) x)"

definition rel_impl_get_span_id :: "index_t \<Rightarrow> span_data_impl \<Rightarrow> u64 res" where
  "rel_impl_get_span_id raw_index x =
     res_map raw_span_id (visit (\<lambda>sz. rel_rsd_get_raw_span sz raw_index) x)"

definition rel_impl_get :: "index_t \<Rightarrow> span_data_impl \<Rightarrow> span res" where
  "rel_impl_get raw_index x = visit (\<lambda>sz. rel_rsd_get sz raw_index) x"

definition rel_impl_remove :: "index_t \<Rightarrow> span_data_impl \<Rightarrow> (u64 \<times> span_data_impl) res" where
  "rel_impl_remove raw_index x =
     res_map (\<lambda>(i, d). (i, with_data x d)) (visit (\<lambda>sz. rel_rsd_remove sz raw_index) x)"

lemma impl_asserts [asserts_intros]:
  "asserts_only (impl_add s x) (rel_impl_add s x)"
  "asserts_only (impl_set_end_time i t x) (rel_impl_set_end_time i t x)"
  "asserts_only (impl_get_span_id i x) (rel_impl_get_span_id i x)"
  "asserts_only (impl_get i x) (rel_impl_get i x)"
  "asserts_only (impl_remove i x) (rel_impl_remove i x)"
  unfolding impl_add_def rel_impl_add_def impl_set_end_time_def rel_impl_set_end_time_def
    impl_get_span_id_def rel_impl_get_span_id_def impl_get_raw_span_def impl_get_def
    rel_impl_get_def impl_remove_def rel_impl_remove_def
  by (intro asserts_intros)+

section \<open>mutable_span_data.cpp\<close>

definition rel_mut_remove :: "u64 \<Rightarrow> mutable_span_data \<Rightarrow> mutable_span_data res" where
  "rel_mut_remove span_id m =
     (case mu_index m span_id of
        None \<Rightarrow> Inr m
      | Some raw_index \<Rightarrow>
          res_map (\<lambda>(moved_span_id, x).
            let index = (if 0 < moved_span_id then (mu_index m)(moved_span_id \<mapsto> raw_index)
                         else mu_index m)
            in m\<lparr>mu_impl := x, mu_index := index(span_id := None)\<rparr>)
          (rel_impl_remove raw_index (mu_impl m)))"

fun rel_oldest_scan :: "nat \<Rightarrow> u64 \<Rightarrow> mark_t \<Rightarrow> u64 \<Rightarrow> span_data_impl \<Rightarrow> u64 res" where
  "rel_oldest_scan 0 i oldest_mark oldest_span_id x = Inr oldest_span_id"
| "rel_oldest_scan (Suc n) i oldest_mark oldest_span_id x =
     res_bind (impl_get_mark i x) (\<lambda>mark.
       if mark < oldest_mark then
         res_bind (rel_impl_get_span_id i x) (\<lambda>span_id. rel_oldest_scan n (i + 1) mark span_id x)
       else rel_oldest_scan n (i + 1) oldest_mark oldest_span_id x)"

definition rel_mut_add :: "span \<Rightarrow> mutable_span_data \<Rightarrow> mutable_span_data res" where
  "rel_mut_add s m =
     (if mu_index m (sp_span_id s) \<noteq> None then Inr m
      else
        res_bind
          (if unat (impl_count (mu_impl m)) = impl_max_count (mu_impl m) then
             res_bind (rel_oldest_scan (unat (impl_count (mu_impl m))) 0 (- 1) 0 (mu_impl m))
               (\<lambda>oldest_span_id. if oldest_span_id \<noteq> 0 then rel_mut_remove oldest_span_id m else Inr m)
           else Inr m)
          (\<lambda>m. res_map (\<lambda>(raw_index, x).
             m\<lparr>mu_impl := x, mu_index := map_insert (sp_span_id s) raw_index (mu_index m)\<rparr>)
           (rel_impl_add s (mu_impl m))))"

definition rel_mut_end :: "u64 \<Rightarrow> u64 \<Rightarrow> u64 \<Rightarrow> mutable_span_data \<Rightarrow> mutable_span_data res" where
  "rel_mut_end now span_id end_time m =
     (case mu_index m span_id of
        None \<Rightarrow> Inr m
      | Some raw_index \<Rightarrow>
          let end_time = (if end_time = 0 then now else end_time)
          in res_map (\<lambda>x. m\<lparr>mu_impl := x\<rparr>) (rel_impl_set_end_time raw_index end_time (mu_impl m)))"

fun rel_step :: "mutable_op \<Rightarrow> mutable_span_data \<Rightarrow> mutable_span_data res" where
  "rel_step (Op_Add s) m = rel_mut_add s m"
| "rel_step (Op_Remove span_id) m = rel_mut_remove span_id m"
| "rel_step (Op_End now span_id end_time) m = rel_mut_end now span_id end_time m"
| "rel_step (Op_Set_Attribute span_id key val) m = mut_set_attribute_on_span span_id key val m"

fun rel_run :: "mutable_op list \<Rightarrow> mutable_span_data \<Rightarrow> mutable_span_data res" where
  "rel_run [] m = Inr m"
| "rel_run (op # ops) m = res_bind (rel_step op m) (rel_run ops)"

lemma oldest_scan_asserts [asserts_intros]:
  "asserts_only (oldest_scan n i om oid x) (rel_oldest_scan n i om oid x)"
  by (induction n arbitrary: i om oid)
    (auto simp only: oldest_scan.simps rel_oldest_scan.simps intro!: asserts_intros)

lemma mut_asserts [asserts_intros]:
  "asserts_only (mut_remove i m) (rel_mut_remove i m)"
  "asserts_only (mut_end now i t m) (rel_mut_end now i t m)"
  unfolding mut_remove_def rel_mut_remove_def mut_end_def rel_mut_end_def Let_def
  by (intro asserts_intros)+

lemma mut_add_asserts [asserts_intros]: "asserts_only (mut_add s m) (rel_mut_add s m)"
  unfolding mut_add_def rel_mut_add_def oldest_span_def by (intro asserts_intros)

lemma mut_step_asserts [asserts_intros]: "asserts_only (mut_step op m) (rel_step op m)"
  by (cases op) (simp_all add: asserts_intros)

lemma mut_run_asserts: "asserts_only (mut_run ops m) (rel_run ops m)"
  by (induction ops arbitrary: m) (auto intro!: asserts_intros)

section \<open>initialize.cpp and android_span_data.cpp\<close>

text \<open>The recovery loop, a call on a writer, and the native method that makes spans.\<close>

fun rel_recover_loop :: "nat \<Rightarrow> index_t \<Rightarrow> recovered_span_data \<Rightarrow> span list \<Rightarrow> span list res" where
  "rel_recover_loop 0 i r acc = Inr acc"
| "rel_recover_loop (Suc n) i r acc =
     res_bind (recovered_get_mark i r) (\<lambda>mark.
       if mark \<noteq> 0 then
         res_bind (rel_impl_get i (rec_impl r)) (\<lambda>s. rel_recover_loop n (i + 1) r (acc @ [s]))
       else rel_recover_loop n (i + 1) r acc)"

definition rel_recover_spans :: "span_data_impl \<Rightarrow> span list res" where
  "rel_recover_spans x =
     (let r = Recovered_Span_Data x in rel_recover_loop (unat (recovered_count r)) 0 r [])"

text \<open>
  The loop reads a span only when its mark is set, which is all the assertion asks for.
\<close>

lemma rel_impl_get_marked:
  "recovered_get_mark i r = Inr mark \<Longrightarrow> mark \<noteq> 0 \<Longrightarrow> rel_impl_get i (rec_impl r) = recovered_get i r"
  by (auto simp: recovered_get_mark_def recovered_get_def impl_get_mark_def impl_get_def visit_eq
      rel_impl_get_def rsd_get_mark_def rsd_get_def rel_rsd_get_def word_greater_zero_iff
      split: if_splits)

lemma recover_loop_builds: "rel_recover_loop n i r acc = recover_loop n i r acc"
proof (induction n arbitrary: i acc)
  case (Suc n)
  then show ?case
    by (cases "recovered_get_mark i r") (simp_all add: rel_impl_get_marked)
qed simp

lemma recover_spans_builds: "rel_recover_spans x = recover_spans x"
  by (simp add: recover_spans_def rel_recover_spans_def recover_loop_builds)

text \<open>The members of the writer with the reference to the span data explicit.\<close>

definition rel_ref_remove :: "u64 \<Rightarrow> impl_ref \<Rightarrow> span_index \<Rightarrow> (impl_ref \<times> span_index) res" where
  "rel_ref_remove span_id impl index =
     (case index span_id of
        None \<Rightarrow> Inr (impl, index)
      | Some raw_index \<Rightarrow>
          res_bind impl (\<lambda>x. res_map (\<lambda>(moved_span_id, y).
            let index = (if 0 < moved_span_id then index(moved_span_id \<mapsto> raw_index) else index)
            in (Inr y, index(span_id := None))) (rel_impl_remove raw_index x)))"

definition rel_ref_add :: "span \<Rightarrow> impl_ref \<Rightarrow> span_index \<Rightarrow> (impl_ref \<times> span_index) res" where
  "rel_ref_add s impl index =
     (if index (sp_span_id s) \<noteq> None then Inr (impl, index)
      else
        res_bind
          (res_bind impl (\<lambda>x.
             if unat (impl_count x) = impl_max_count x then
               res_bind (rel_oldest_scan (unat (impl_count x)) 0 (- 1) 0 x) (\<lambda>oldest_span_id.
                 if oldest_span_id \<noteq> 0 then rel_ref_remove oldest_span_id impl index
                 else Inr (impl, index))
             else Inr (impl, index)))
          (\<lambda>(impl, index). res_bind impl (\<lambda>x. res_map (\<lambda>(raw_index, y).
             (Inr y, map_insert (sp_span_id s) raw_index index)) (rel_impl_add s x))))"

definition rel_ref_end ::
    "u64 \<Rightarrow> u64 \<Rightarrow> u64 \<Rightarrow> impl_ref \<Rightarrow> span_index \<Rightarrow> (impl_ref \<times> span_index) res" where
  "rel_ref_end now span_id end_time impl index =
     (case index span_id of
        None \<Rightarrow> Inr (impl, index)
      | Some raw_index \<Rightarrow>
          let end_time = (if end_time = 0 then now else end_time)
          in res_bind impl (\<lambda>x. res_map (\<lambda>y. (Inr y, index)) (rel_impl_set_end_time raw_index end_time x)))"

fun rel_ref_step :: "mutable_op \<Rightarrow> impl_ref \<Rightarrow> span_index \<Rightarrow> (impl_ref \<times> span_index) res" where
  "rel_ref_step (Op_Add s) = rel_ref_add s"
| "rel_ref_step (Op_Remove span_id) = rel_ref_remove span_id"
| "rel_ref_step (Op_End now span_id end_time) = rel_ref_end now span_id end_time"
| "rel_ref_step (Op_Set_Attribute span_id key val) = ref_set_attribute_on_span span_id key val"

lemma ref_asserts [asserts_intros]:
  "asserts_only (ref_remove i impl index) (rel_ref_remove i impl index)"
  "asserts_only (ref_end now i t impl index) (rel_ref_end now i t impl index)"
  unfolding ref_remove_def rel_ref_remove_def ref_end_def rel_ref_end_def Let_def
  by (intro asserts_intros)+

lemma ref_add_asserts [asserts_intros]:
  "asserts_only (ref_add s impl index) (rel_ref_add s impl index)"
  unfolding ref_add_def rel_ref_add_def oldest_span_def by (intro asserts_intros)

lemma ref_step_asserts [asserts_intros]:
  "asserts_only (ref_step op impl index) (rel_ref_step op impl index)"
  by (cases op) (simp_all add: asserts_intros)

definition rel_pr_write :: "nat \<Rightarrow> mutable_op \<Rightarrow> process \<Rightarrow> process res" where
  "rel_pr_write w op pr =
     (case pr_writers pr w of
        None \<Rightarrow> Inl Use_After_Free
      | Some index \<Rightarrow>
          res_map (\<lambda>(impl, index). pr_update w impl index pr) (rel_ref_step op (pr_impl w pr) index))"

definition rel_add_span ::
    "'j jni \<Rightarrow> nat \<Rightarrow> nat \<Rightarrow> trace_id \<Rightarrow> u64 \<Rightarrow> u64 \<Rightarrow> u64 \<Rightarrow> jref \<Rightarrow> jref \<Rightarrow> process \<Rightarrow> 'j \<Rightarrow>
      (process \<times> 'j) res" where
  "rel_add_span J env context_ptr trace_id span_id parent_span_id start_time name attributes pr j =
     res_bind (get_mutable_span_data context_ptr pr) (\<lambda>w.
       if w = 0 then Inr (pr, j)
       else
         res_bind (jstring_to_string J env name max_span_name_len j) (\<lambda>(name, j).
           res_bind (parse_jni_attributes J env attributes j) (\<lambda>(attributes, j).
             res_bind (rel_make_span trace_id span_id parent_span_id start_time 0 name attributes) (\<lambda>s.
               res_map (\<lambda>pr. (pr, j)) (rel_pr_write w (Op_Add s) pr)))))"

lemma pr_write_asserts [asserts_intros]: "asserts_only (pr_write w op pr) (rel_pr_write w op pr)"
  unfolding pr_write_def rel_pr_write_def by (intro asserts_intros)

lemma add_span_asserts:
  "asserts_only (add_span J env p t i parent start name attrs pr j)
     (rel_add_span J env p t i parent start name attrs pr j)"
  unfolding add_span_def rel_add_span_def by (intro asserts_intros)

section \<open>Runs without the check of the span id\<close>

text \<open>
  Without its assertion the constructor makes a span with the id zero. What then is left of
  the invariant of the writer is all but the clause on ids.
\<close>

definition unchecked_inv :: "mmap_size \<Rightarrow> mutable_span_data \<Rightarrow> bool" where
  "unchecked_inv sz m \<longleftrightarrow>
     impl_inv sz (mu_impl m) \<and> index_matches (mu_index m) (map slot_id (mut_slots m))"

lemma unchecked_inv_mut: "mut_inv sz m \<Longrightarrow> unchecked_inv sz m"
  by (simp add: mut_inv_def unchecked_inv_def)

lemma unchecked_inv_count:
  assumes "unchecked_inv sz m"
  shows "unat (impl_count (mu_impl m)) = length (live m)"
    and "impl_max_count (mu_impl m) = max_spans (mmap_config sz)"
    and "length (live m) \<le> max_spans (mmap_config sz)"
    and "mu_index m k = None \<longleftrightarrow> k \<notin> raw_span_id ` set (live m)"
proof -
  have ii: "impl_inv sz (mu_impl m)" using assms by (simp add: unchecked_inv_def)
  show "unat (impl_count (mu_impl m)) = length (live m)"
    using sdi.cnt_slots[OF ii] by (simp add: mut_slots_def)
  show "impl_max_count (mu_impl m) = max_spans (mmap_config sz)"
    using ii by (rule impl_max_count_inv)
  show le: "length (live m) \<le> max_spans (mmap_config sz)"
    using sdi.slots_limit[OF ii] by (simp add: mut_slots_def)
  have "length (map slot_id (mut_slots m)) \<le> 2048"
    using le max_spans_bounds(2)[of sz] by simp
  from index_matches_dom[OF _ this, of "mu_index m" k] assms
  show "mu_index m k = None \<longleftrightarrow> k \<notin> raw_span_id ` set (live m)"
    by (simp add: unchecked_inv_def ids_live)
qed

lemma rel_add_room:
  assumes inv: "unchecked_inv sz m" and room: "length (live m) < max_spans (mmap_config sz)"
    and ctr: "unat (mut_counter m) + 1 < 2 ^ 64"
    and new: "sp_span_id s \<notin> raw_span_id ` set (live m)"
  shows "\<exists>m'. rel_mut_add s m = Inr m' \<and> unchecked_inv sz m' \<and>
    unat (mut_counter m') = unat (mut_counter m) + 1 \<and> live m' = live m @ [to_raw_span sz s]"
proof -
  have ii: "impl_inv sz (mu_impl m)" "index_matches (mu_index m) (map slot_id (impl_slots (mu_impl m)))"
    using inv by (simp_all add: unchecked_inv_def mut_slots_def)
  have "length (impl_slots (mu_impl m)) < max_spans (mmap_config sz)"
    "sp_span_id s \<notin> slot_id ` set (impl_slots (mu_impl m))"
    using room new by (simp_all add: ids_live) (simp_all add: mut_slots_def)
  from impl_add_index[OF ii(1,2) this(1) ctr this(2)] obtain i y where y:
    "impl_add s (mu_impl m) = Inr (i, y)" "impl_inv sz y" "impl_counter y = mut_counter m + 1"
    "by_age (impl_slots y) = by_age (impl_slots (mu_impl m)) @
       [\<lparr>ms_mark = mut_counter m + 1, ms_span = to_raw_span sz s\<rparr>]"
    "index_matches (map_insert (sp_span_id s) i (mu_index m)) (map slot_id (impl_slots y))"
    by blast
  have "rel_impl_add s (mu_impl m) = Inr (i, y)"
    using impl_asserts(1)[of s "mu_impl m"] unfolding y(1) by (rule asserts_onlyD)
  then have "rel_mut_add s m =
      Inr (m\<lparr>mu_impl := y, mu_index := map_insert (sp_span_id s) i (mu_index m)\<rparr>)"
    using unchecked_inv_count[OF inv] room new by (simp add: rel_mut_add_def)
  with y ctr show ?thesis
    by (simp add: unchecked_inv_def mut_slots_def live_def unat_plus1_64)
qed

lemma rel_add_all:
  assumes "unchecked_inv sz m" "distinct (map raw_span_id (live m) @ map sp_span_id ss)"
    and "length (live m) + length ss \<le> max_spans (mmap_config sz)"
    and "unat (mut_counter m) + length ss < 2 ^ 64"
  shows "\<exists>m'. rel_run (map Op_Add ss) m = Inr m' \<and> unchecked_inv sz m' \<and>
    unat (mut_counter m') = unat (mut_counter m) + length ss \<and>
    live m' = live m @ map (to_raw_span sz) ss"
  using assms
proof (induction ss arbitrary: m)
  case (Cons s ss)
  from rel_add_room[OF Cons.prems(1), of s] Cons.prems obtain m1 where m1:
    "rel_mut_add s m = Inr m1" "unchecked_inv sz m1"
    "unat (mut_counter m1) = unat (mut_counter m) + 1" "live m1 = live m @ [to_raw_span sz s]"
    by auto
  from Cons.IH[OF m1(2)] Cons.prems(2-4) m1(3,4) obtain m2 where
    "rel_run (map Op_Add ss) m1 = Inr m2" "unchecked_inv sz m2"
    "unat (mut_counter m2) = unat (mut_counter m1) + length ss"
    "live m2 = live m1 @ map (to_raw_span sz) ss"
    by (auto simp del: length_live)
  with m1 show ?case by auto
qed simp

text \<open>
  The eviction loop uses the id zero for \<^emph>\<open>no span\<close>: when the oldest span has that id nothing
  is evicted, and the addition goes on to the slot behind the array.
\<close>

lemma rel_add_full_zero:
  assumes inv: "unchecked_inv sz m" and full: "length (live m) = max_spans (mmap_config sz)"
    and oldest: "raw_span_id (hd (live m)) = 0" and ctr: "unat (mut_counter m) + 1 < 2 ^ 64"
    and new: "sp_span_id s \<notin> raw_span_id ` set (live m)"
  shows "rel_mut_add s m = Inl Out_Of_Bounds"
proof -
  have ii: "impl_inv sz (mu_impl m)" using inv by (simp add: unchecked_inv_def)
  note cnt = unchecked_inv_count[OF inv]
  have "0 < length (mut_slots m)" using full max_spans_bounds(1)[of sz] by simp
  then have ne: "mut_slots m \<noteq> []" by auto
  then have "oldest_span (mu_impl m) = Inr 0"
    using oldest_span_hd[OF ii _ ctr] hd_live[OF ne] oldest by (simp add: mut_slots_def)
  then have "rel_oldest_scan (unat (impl_count (mu_impl m))) 0 (- 1) 0 (mu_impl m) = Inr 0"
    using oldest_scan_asserts asserts_onlyD unfolding oldest_span_def by metis
  moreover have "rel_impl_add s (mu_impl m) = Inl Out_Of_Bounds"
    using cnt(1,2) full
    by (simp add: rel_impl_add_def visit_eq rel_rsd_add_def impl_count_def impl_max_count_def
        del: length_live)
  ultimately show ?thesis
    using cnt full new by (simp add: rel_mut_add_def del: length_live)
qed

end
