(* ===== verification/Spec2Isabelle.thy ===== *)
theory Spec2Isabelle
  imports Samples Sample_Jvm Java_Sessions Example_Program Entry_Model Crash_Words Loops Size_Word
    Store_Bytes Release_Build
begin

text \<open>
  firebase-telemetry-persistence keeps the open spans of a telemetry session in a file that is
  mapped into memory, so that a process that dies leaves them for the next one. This
  development models its C++ code and proves what it promises: no span is lost or mixed up by
  a crash at any point, the writer is a bounded first-in first-out list, and the native
  methods carry spans to Java and back.

  The program. A process calls \<^verbatim>\<open>initialize_span_data\<close> (\<^verbatim>\<open>src/initialize.cpp\<close>): it opens the file,
  maps it, reads the spans of an earlier process, resizes or reuses the file and makes a
  context. The context hands out the recovered spans once and then a writer
  (\<^verbatim>\<open>MutableSpanData\<close>), which keeps an index from span ids to slots, evicts the oldest span
  when the array is full, and stores through \<^verbatim>\<open>SpanDataImpl\<close> (one of three size classes) into
  \<^verbatim>\<open>RawSpanData\<close>, the packed structures of the mapping. On Android the same calls come from
  Java through the native methods of \<^verbatim>\<open>src/android/android_span_data.cpp\<close>.

  Theories, in the order of the layers (headers under
  \<^verbatim>\<open>include/firebase/telemetry/persistence\<close>, sources under \<^verbatim>\<open>src\<close>):

  \<^item> \<open>Tel_Prelude\<close>: machine integers, faults and results, lists, words.
  \<^item> \<open>Mmap_Config\<close>, \<open>Copy_String\<close>, \<open>Raw_Layout\<close>: the size classes (\<^verbatim>\<open>mmap_size.h\<close>,
    \<^verbatim>\<open>detail/mmap_config.h\<close>, \<^verbatim>\<open>detail/page_size.h\<close>), the text operations (\<^verbatim>\<open>detail/copy_string.h\<close>) and
    the packed structures (\<^verbatim>\<open>detail/marked_span.h\<close>, \<^verbatim>\<open>detail/header.h\<close>,
    \<^verbatim>\<open>detail/memory_layout.h\<close>) as records; \<open>Text_Field\<close> is the contract of a fixed text field.
  \<^item> \<open>Span_Model\<close>: \<^verbatim>\<open>span.h\<close>, with both conversions between a span and its raw form.
  \<^item> \<open>Raw_Span_Data\<close>, with \<open>Raw_Span_Laws\<close>, \<open>Attribute_Laws\<close>, \<open>Marked_Store\<close>:
    \<^verbatim>\<open>detail/raw_span_data.h\<close>. A member is its assertions followed by the list of stores it
    makes, in program order; running the list gives the effect of the call, and every way to
    stop inside it gives a crash. \<open>Marked_Store\<close> states the contract of the store as a locale.
  \<^item> \<open>Span_Data_Impl\<close>: \<^verbatim>\<open>span_data_impl.cpp\<close> and \<^verbatim>\<open>recovered_span_data.cpp\<close>.
  \<^item> \<open>Mutable_Span_Data\<close>, \<open>Mutable_Refinement\<close>: \<^verbatim>\<open>mutable_span_data.cpp\<close>, and the abstract list
    it implements (\<open>spec_run\<close>).
  \<^item> \<open>Recovery\<close>, \<open>Crash_Steps\<close>, \<open>Crash_Safety\<close>, \<open>Crash_Runs\<close>, \<open>Header_Ops\<close> (\<^verbatim>\<open>header.cpp\<close>): the
    recovery loop, and what a crash inside any call leaves for it. \<open>Crash_Words\<close> splits every
    store of a number into two halves, as a processor of 32 bits does.
  \<^item> \<open>Byte_Codec\<close>: the layouts as bytes of the file, eight bytes to a number, the lowest first;
    \<open>Store_Bytes\<close>: the offset and the bytes of every store, and that a store on the records is
    the write of these bytes (\<open>typed_store_bytes\<close>).
  \<^item> \<open>Loops\<close>: every loop of the code as it is written, with counters of machine width, as \<^verbatim>\<open>while\<close>
    loops that are proved to end.
  \<^item> \<open>Handle_Table\<close>, \<open>Managed_Mmap\<close>: the contract of move-only owners as a locale, and
    \<^verbatim>\<open>detail/managed_mmap.h\<close> as its first instance.
  \<^item> \<open>Initialize_Model\<close>, \<open>Initialize_Laws\<close>, \<open>Restart\<close>, \<open>Process_Laws\<close>: \<^verbatim>\<open>initialize.cpp\<close>, the calls of
    the interface over a process (kernel, contexts, writers), their invariant, and the step
    from one process to the next. The mapping is shared: what a writer reads and writes are the
    bytes of the file (\<open>cx_impl\<close>, \<open>pr_update\<close>), whichever context wrote them last.
    \<open>Writer_Reference\<close> has the members of the writer with its reference to the span data explicit,
    because a writer can outlive its context. \<open>Size_Word\<close>: the writer does not depend on the size
    word of the header.
  \<^item> \<open>Entry_Model\<close>: \<^verbatim>\<open>detail/entry.h\<close>. \<open>Example_Program\<close>: \<^verbatim>\<open>main.cpp\<close>.
  \<^item> \<open>Jni_Refs\<close>, \<open>Jclass_Cache\<close>, \<open>Jni_Strings\<close>, \<open>Android_Natives\<close>: the bindings
    (\<^verbatim>\<open>managed_local_ref.h\<close>, \<^verbatim>\<open>span_jclass_cache.cpp\<close>, \<^verbatim>\<open>managed_jstring.h\<close>,
    \<^verbatim>\<open>android_span_data.cpp\<close>); \<open>Jni_Frames\<close>, \<open>Android_Laws\<close>, \<open>Native_Laws\<close>, \<open>Java_Sessions\<close> prove
    them correct. \<^verbatim>\<open>ManagedLocalRef\<close> and \<^verbatim>\<open>SpanJClassCache\<close> are the other two instances of the
    contract of \<open>Handle_Table\<close>.
  \<^item> \<open>Release_Build\<close>: the operations of \<^verbatim>\<open>span.h\<close>, \<^verbatim>\<open>raw_span_data.h\<close> and their callers with the
    assertions compiled away, related to the debug build layer by layer (\<open>asserts_only\<close>). The
    assertions met while a file is opened (\<^verbatim>\<open>managed_mmap.h\<close>, \<^verbatim>\<open>SpanDataImpl::make_data\<close>, the
    constructor of \<^verbatim>\<open>RawSpanData\<close>) have no such copy: C16 and C18 prove that a start
    returns without failing one.
  \<^item> \<open>Samples\<close>, \<open>Sample_Jvm\<close>: concrete layouts, processes and a concrete virtual machine, at
    which the properties with hypotheses are applied.

  Reading the model. A result is a value or a fault: a failed assertion, an access outside an
  array, a null pointer, a use after a release. Assertions are active, as in the debug build;
  \<open>Release_Build\<close> has the shipped library, built with \<^verbatim>\<open>NDEBUG\<close>, and C39 shows that the
  two differ in nothing but failed assertions. Numbers of the code are words of their width;
  \<open>2 ^ 64\<close> in a hypothesis is the exhaustion of the counter of marks. Loops are structural recursion on the number of
  iterations left, computed from the loop condition at entry, so nothing runs on fuel; C37
  proves that the loops as written return the same.

  Parameters. The outcomes of the system calls (\<open>os_results\<close>: the page size, the descriptor,
  the addresses of mappings) and the functions of the virtual machine (the record \<open>jni\<close>) are
  arguments. \<open>os_sound\<close> says that addresses and descriptors are fresh and a page holds the
  header. Of the virtual machine the properties use, by name, what the specification of the
  interface says: \<open>jni_sound\<close> (references, strings, arrays, exceptions), \<open>jni_allocates\<close> (no
  allocation is refused), \<open>jni_classes\<close>, \<open>grants_globals\<close>, \<open>jni_machine\<close>, \<open>attached\<close>, and
  \<open>refuses_pending\<close> (\<^verbatim>\<open>NewStringUTF\<close> must not be called with an exception pending); the machine
  of \<open>Sample_Jvm\<close> meets all of them. The same machine with its table of global references full
  meets \<open>knows_classes\<close>, \<open>refuses_globals\<close> and \<open>checks_lookups\<close>. The clock is an argument of the
  calls that read it.

  The properties. C1, C7 to C11: the writer and the store. C2 to C6: crashes. C12 to C15: text
  and the recovery loop. C16 to C22: initialization, sessions and restarts, with the errors
  they can end in. C23: mappings. C24 to C32: the bindings. C33: the example program. C34 and
  C35: a crash, seen from the bindings. C36: crashes on a processor of 32 bits. C37: every loop
  ends. C38: every store is typed and is a write of bytes inside the layout. C39 and C40: the
  build without assertions.

  Not modelled. Stores reach the file in program order. C1 to C35 take a store of eight aligned
  bytes to be atomic (C38: every store is aligned); C36 does without. A crash inside the copy of
  a span leaves any well-formed span in its slot, which covers every mixture of the old and the
  new bytes. Reorderings by the compiler or the processor (the mapping is written through plain
  stores), and a crash of the machine instead of the process, are outside. A crash inside
  \<^verbatim>\<open>ftruncate\<close> is left to the file system. The path of the file is not resolved. Two live contexts
  over one file are outside the contract of the code, except for C21, which is what a test of
  the code does with them; two threads on one writer are outside. The arguments of the
  constructor of \<^verbatim>\<open>Span\<close> in \<^verbatim>\<open>add_span\<close> may be evaluated in any order; the model takes them from left to
  right. The static assertions on sizes and offsets are definitions, proved to hold
  (\<open>static_asserts_hold\<close>); those on type traits (standard layout, trivially copyable) have no
  counterpart.
\<close>

section \<open>The writer as a bounded first-in first-out list\<close>

text \<open>
  C1. Every run of calls on a fresh writer succeeds, whatever the calls and their order, and
  its live spans, in order of insertion, are those of the specification: a first-in
  first-out list bounded by the capacity of the size class, with updates in place. No
  assertion and no array access of the layers below can fail on the way.
\<close>

theorem writer_run_refines_fifo:
  assumes "list_all valid_op ops" and "length ops < 2 ^ 64"
  shows "\<exists>m. mut_run ops (fresh_writer sz) = Inr m \<and> live m = spec_run sz ops [] \<and> mut_inv sz m"
  using mut_run_refines[of sz "fresh_writer sz" ops] assms by auto

theorem writer_run_refines_fifo_witness:
  "\<exists>m. mut_run [Op_Add (sample_span 7), Op_Add (sample_span 8), Op_Remove 7] (fresh_writer Small) = Inr m \<and>
     live m = [to_raw_span Small (sample_span 8)] \<and> mut_inv Small m"
  using writer_run_refines_fifo[of "[Op_Add (sample_span 7), Op_Add (sample_span 8), Op_Remove 7]" Small]
  by (simp add: spec_add_def spec_remove_def)

section \<open>Crashes\<close>

text \<open>
  C2. A process runs any calls on a fresh writer and dies at any point of the next call,
  between two stores or inside one; the next process opens the file it leaves, for any
  size. Initialization returns a context without a fault, and its recovered spans are read
  from the layout the crash left: every live span the interrupted call keeps, and nothing
  but spans of the state before or after the call, or the one whose attribute was being
  written.
\<close>

theorem restart_after_crash:
  assumes "list_all valid_op (ops @ [op])" and "length ops + 1 < 2 ^ 64"
    and "mut_run ops (fresh_writer sz) = Inr m"
    and "crash_image sz (op_stores sz op m) (mut_layout m) l"
    and "k_file k = enc_layout l @ pad" and "get_page_size (os_page_size os) \<le> length (k_file k)"
    and "os_sound os k" and "calls_succeed os target k"
  shows "\<exists>c k'. initialize_span_data os target k = Inr (Some c, k') \<and>
    list_all2 (\<lambda>r s. span_of_raw r = Inr s) (recoverable l) (cx_recovered_spans c) \<and>
    survives sz op (spec_run sz ops []) (recoverable l)"
  using restart_recovers[OF assms] by (auto simp: fresh_context_def)

theorem restart_after_crash_witness:
  "\<exists>m c k'. mut_run [Op_Add (sample_span 7)] (fresh_writer Small) = Inr m \<and>
     initialize_span_data sample_os 1 (kernel_with (enc_layout (mut_layout m) @ replicate 16 0)) = Inr (Some c, k') \<and>
     survives Small (Op_Remove 7) [to_raw_span Small (sample_span 7)] (recoverable (mut_layout m))"
proof -
  have v: "list_all valid_op ([Op_Add (sample_span 7)] @ [Op_Remove 7])"
    "length [Op_Add (sample_span 7)] + 1 < (2::nat) ^ 64"
    by simp_all
  obtain m where m: "mut_run [Op_Add (sample_span 7)] (fresh_writer Small) = Inr m" "mut_inv Small m"
    using mut_run_refines[of Small "fresh_writer Small" "[Op_Add (sample_span 7)]"] by auto
  have "wf_layout Small (mut_layout m)"
    using mut_layout_inv[OF m(2)] by (simp add: layout_inv_def)
  then have "get_page_size (os_page_size sample_os)
      \<le> length (k_file (kernel_with (enc_layout (mut_layout m) @ replicate 16 0)))"
    by (simp add: layout_bytes.enc_length sizeof_defs sample_os_def get_page_size_def)
  from restart_after_crash[OF v m(1) crash_between _ this, of "replicate 16 0" 1] m(1)
  show ?thesis by (auto simp: spec_add_def)
qed

text \<open>
  C3. A crash inside \<^verbatim>\<open>RawSpanData::add\<close> loses the new span or keeps all of it: what can be
  recovered is what was there before, or that and the complete new span, last.
\<close>

theorem crash_in_add_atomic:
  assumes "rsd_inv sz d" and "unat (rd_mark_counter d) + 1 < 2 ^ 64"
    and "rsd_add sz s d = Inr (i, d')"
    and "crash_image sz (add_stores sz s (rd_mark_counter d + 1) (rd_layout d)) (rd_layout d) l"
  shows "recoverable (rd_layout d') = recoverable (rd_layout d) @ [to_raw_span sz s] \<and>
    (recoverable l = recoverable (rd_layout d) \<or> recoverable l = recoverable (rd_layout d'))"
proof -
  let ?l = "rd_layout d" and ?mark = "rd_mark_counter d + 1"
  have li: "layout_inv sz (rd_mark_counter d) ?l" using assms(1) by (simp add: rsd_inv_def)
  have room: "unat (active_count ?l) < max_spans (mmap_config sz)"
    using assms(3) by (simp add: rsd_add_def Let_def rsd_count_def rsd_max_count_def split: if_splits)
  have mark: "rd_mark_counter d < ?mark"
    using assms(2) by (simp add: word_less_nat_alt unat_plus1_64)
  have d': "rd_layout d' = exec_stores sz (add_stores sz s ?mark ?l) ?l"
    using assms(3) by (auto simp: rsd_add_def Let_def split: if_splits)
  have "recoverable (rd_layout d') = recoverable ?l @ [to_raw_span sz s]"
    using add_law[OF li room mark, of s] recoverable_live[OF li] by (simp add: d' recoverable_live)
  then show ?thesis
    using crash_add_recoverable(1)[OF li room mark assms(4)] by simp
qed

theorem crash_in_add_atomic_witness:
  "\<exists>d'. rsd_add Small (sample_span 9) sample_data = Inr (2, d') \<and>
     recoverable (rd_layout d') = recoverable sample_layout @ [to_raw_span Small (sample_span 9)]"
proof -
  obtain d' where d': "rsd_add Small (sample_span 9) sample_data = Inr (2, d')"
    using rsd_add_law[of Small sample_data "sample_span 9"] by (auto simp: rsd_count_def)
  show ?thesis
    using crash_in_add_atomic[OF sample_data_simps(1) _ d' crash_between] d' by simp
qed

text \<open>
  C4. A crash inside \<^verbatim>\<open>RawSpanData::remove\<close> leaves exactly one of four lists to recover: all
  the spans; all but the removed one, in place; the removed one replaced by a second copy of
  the last (the duplicate the code announces); or the result of the call. Every other span
  is in each of them, unchanged.
\<close>

theorem crash_in_remove_keeps_others:
  assumes "rsd_inv sz d" and "rsd_remove sz i d = Inr (moved, d')"
    and "crash_image sz (remove_stores (unat i) (rd_layout d)) (rd_layout d) l"
  shows "let rs = recoverable (rd_layout d)
    in recoverable (rd_layout d') = swap_remove (unat i) rs \<and>
      recoverable l \<in> {rs, take (unat i) rs @ drop (Suc (unat i)) rs, rs[unat i := last rs],
        swap_remove (unat i) rs} \<and>
      set rs - {rs ! unat i} \<subseteq> set (recoverable l) \<and> set (recoverable l) \<subseteq> set rs"
proof -
  let ?l = "rd_layout d" and ?rs = "recoverable (rd_layout d)"
  have li: "layout_inv sz (rd_mark_counter d) ?l" using assms(1) by (simp add: rsd_inv_def)
  have i: "unat i < unat (active_count ?l)"
    using assms(2) by (simp add: rsd_remove_def Let_def word_less_nat_alt split: if_splits)
  have il: "unat i < length ?rs"
    using i by (simp add: recoverable_live[OF li] length_active[OF li])
  have "rd_layout d' = exec_stores sz (remove_stores (unat i) ?l) ?l"
    using assms(2) by (auto simp: rsd_remove_def Let_def split: if_splits)
  then have "recoverable (rd_layout d') = swap_remove (unat i) ?rs"
    using remove_law[OF li i] i
    by (simp add: recoverable_live[OF li] recoverable_live map_swap_remove length_active[OF li])
  moreover note c = crash_remove_recoverable(1)[OF li i assms(3)]
  ultimately show ?thesis
    using remove_between[OF il c] c by (auto simp: Let_def)
qed

theorem crash_in_remove_keeps_others_witness:
  "\<exists>moved d'. rsd_remove Small 0 sample_data = Inr (moved, d') \<and>
     recoverable (rd_layout d') = [to_raw_span Small (sample_span 8)]"
proof -
  obtain moved d' where d': "rsd_remove Small 0 sample_data = Inr (moved, d')"
    using rsd_remove_law[of Small sample_data 0] by auto
  show ?thesis
    using crash_in_remove_keeps_others[OF sample_data_simps(1) d' crash_between] d'
    by (simp add: Let_def swap_remove_def)
qed

text \<open>
  C5. A crash inside \<^verbatim>\<open>RawSpanData::set_attribute_on_span\<close> touches one span, and in it only its
  attributes: they are the old ones, or the new ones, or the old ones with the value of that
  key cut to a prefix of its old or of its new value. The span stays readable.
\<close>

theorem crash_in_set_attribute_local:
  fixes i :: index_t
  assumes "rsd_inv sz d" and "unat i < length (rsd_slots d)" and "0 \<notin> set key"
    and "set_attribute_stores sz (unat i) key val (slot_span (rd_layout d) (unat i)) = Inr (j, ss)"
    and "crash_image sz ss (rd_layout d) l"
  shows "let rs = recoverable (rd_layout d); r = rs ! unat i; as = stored_attributes r;
      k = utf8_trunc attr_key_size key; new = kept_text attr_value_size val
    in \<exists>r'. recoverable l = rs[unat i := r'] \<and> clean_raw_span sz r' \<and>
      r' = r\<lparr>raw_attr_count := raw_attr_count r', raw_attributes := raw_attributes r'\<rparr> \<and>
      (stored_attributes r' = as \<or>
       stored_attributes r' = upsert (max_attributes (mmap_config sz)) k new as \<or>
       (\<exists>q v. first_index (\<lambda>kv. fst kv = k) as = Some q \<and> stored_attributes r' = as[q := (k, v)] \<and>
          (prefix v (snd (as ! q)) \<or> prefix v new)))"
proof -
  let ?l = "rd_layout d"
  have li: "layout_inv sz (rd_mark_counter d) ?l" using assms(1) by (simp add: rsd_inv_def)
  have i: "unat i < unat (active_count ?l)"
    using assms(2) length_active[OF li] by (simp add: rsd_slots_def)
  let ?r = "recoverable ?l ! unat i"
  have clean: "clean_raw_span sz ?r"
    using layout_inv_slot[OF li i] i
    by (simp add: recoverable_live[OF li] length_active[OF li] nth_active live_slot_def)
  from crash_set_attribute_recoverable(1)[OF li i assms(4,5)] obtain r' where
    r': "recoverable l = (recoverable ?l)[unat i := r']" "attribute_crash sz key val ?r r'"
    by blast
  have "fst (stored_attributes ?r ! q) = utf8_trunc attr_key_size key"
    if "first_index (\<lambda>kv. fst kv = utf8_trunc attr_key_size key) (stored_attributes ?r) = Some q" for q
    using first_index_Some[OF that] by simp
  with r' first_index_stored[OF clean assms(3)] stored_with_attribute[OF clean assms(3), of val]
  show ?thesis
    unfolding Let_def attribute_crash_def by metis
qed

theorem crash_in_set_attribute_local_witness:
  "\<exists>j ss r'. set_attribute_stores Small 0 [0x6b] [0x77] (slot_span sample_layout 0) = Inr (j, ss) \<and>
     recoverable (exec_stores Small ss sample_layout) = (recoverable sample_layout)[0 := r'] \<and>
     clean_raw_span Small r'"
proof -
  have n: "0 < length (ml_marked_spans sample_layout)"
    using sample_layout_inv(1) by (simp add: layout_inv_def wf_layout_def)
  have "clean_raw_span Small (slot_span sample_layout 0)" by simp
  from exec_set_attribute[OF this n, of "[0x6b]" "[0x77]"] obtain j ss where
    ss: "set_attribute_stores Small (unat (0::u64)) [0x6b] [0x77] (slot_span (rd_layout sample_data) (unat (0::u64))) =
      Inr (j, ss)"
    by auto
  have "unat (0::u64) < length (rsd_slots sample_data)" "(0::byte) \<notin> set [0x6b]" by simp_all
  from crash_in_set_attribute_local[OF sample_data_simps(1) this ss crash_image_done[of Small ss "rd_layout sample_data"]] ss
  show ?thesis by (auto simp: Let_def)
qed

text \<open>
  The half-written value is real: when the key is already there, for every \<open>k\<close> there is a
  crash after which the next start reads exactly the first \<open>k\<close> bytes of the new value, which
  can be neither the old value nor the new one, nor whole characters.
\<close>

theorem crash_cuts_value:
  fixes i :: index_t
  assumes "rsd_inv sz d" and "unat i < length (rsd_slots d)" and "0 \<notin> set val"
    and "first_index (\<lambda>a. key_equals attr_key_size key (attr_key a))
      (take (unat (raw_attr_count (slot_span (rd_layout d) (unat i))))
        (raw_attributes (slot_span (rd_layout d) (unat i)))) = Some q"
  shows "\<exists>j ss l. set_attribute_stores sz (unat i) key val (slot_span (rd_layout d) (unat i)) = Inr (j, ss) \<and>
    crash_image sz ss (rd_layout d) l \<and>
    snd (attribute_text (raw_attributes (slot_span l (unat i)) ! q)) = take k (utf8_trunc attr_value_size val)"
proof -
  let ?l = "rd_layout d" and ?r = "slot_span (rd_layout d) (unat i)"
  have clean: "clean_raw_span sz ?r" using rsd_slot(5)[OF assms(1,2)] .
  have c: "list_all clean_attribute (raw_attributes ?r)"
    "unat (raw_attr_count ?r) \<le> length (raw_attributes ?r)"
    using clean by (simp_all add: clean_raw_span_def wf_raw_span_def)
  have q: "q < length (raw_attributes ?r)" using first_index_Some[OF assms(4)] by simp
  have i: "unat i < length (ml_marked_spans ?l)"
    using rsd_slot(2)[OF assms(1,2)] assms(1) by (simp add: rsd_inv_def layout_inv_def wf_layout_def)
  have "set_attribute_stores sz (unat i) key val ?r =
      Inr (of_nat q, update_attribute_stores (unat i) q val (raw_attributes ?r ! q))"
    using assms(4) c(2) by (simp add: set_attribute_stores_def find_attribute_eq)
  moreover have "clean_attribute (raw_attributes ?r ! q)" using c(1) q by (simp add: list_all_length)
  from crash_update_cut[OF i q this assms(3), of sz k] obtain l where
    "crash_image sz (update_attribute_stores (unat i) q val (raw_attributes ?r ! q)) ?l l"
    "slot_span l (unat i) = upd_attr q (\<lambda>a. a\<lparr>attr_value := cut_value k val\<rparr>) ?r"
    by blast
  moreover from this(2) have "snd (attribute_text (raw_attributes (slot_span l (unat i)) ! q)) =
      take k (utf8_trunc attr_value_size val)"
    using q cut_value_simps(3)[OF assms(3)] by (simp add: upd_attr_def attribute_text_def)
  ultimately show ?thesis by auto
qed

lemma sample_first_index:
  "first_index (\<lambda>a. key_equals attr_key_size [0x6b] (attr_key a))
     (take (unat (raw_attr_count (slot_span sample_layout 0))) (raw_attributes (slot_span sample_layout 0))) = Some 0"
  using key_field.matches_put[of "replicate attr_key_size 0" "[0x6b]" "[0x6b]"]
  by (simp add: to_raw_span_eq sample_span_def raw_attribute_of_def set_raw_attribute_eq zero_attribute_def)

theorem crash_cuts_value_witness:
  "\<exists>j ss l. set_attribute_stores Small 0 [0x6b] [0xc3, 0xa9] (slot_span sample_layout 0) = Inr (j, ss) \<and>
     crash_image Small ss sample_layout l \<and>
     snd (attribute_text (raw_attributes (slot_span l 0) ! 0)) = [0xc3]"
  using crash_cuts_value[of Small sample_data 0 "[0xc3, 0xa9]" "[0x6b]" 0 1] sample_first_index
  by (simp add: utf8_trunc_short attr_value_size_def)

text \<open>
  C6. A crash inside initialization, once there are spans to recover: the file then holds the
  same spans for the next start, or none; never other ones. This covers the resizing of the
  file, the reset of its header and the clearing of the array.
\<close>

theorem crash_in_initialize:
  assumes "os_sound os k" and "recovers_from os k" and "init_image os target k k'"
  shows "held_spans os k' = held_spans os k \<or> held_spans os k' = Inr []"
  using init_crash_spans[OF _ assms(2,3)] assms(1) by (simp add: os_sound_def)

theorem crash_in_initialize_witness:
  "\<exists>k'. init_image sample_os 1 (kernel_with (enc_layout sample_layout)) k' \<and>
     (held_spans sample_os k' = held_spans sample_os (kernel_with (enc_layout sample_layout)) \<or>
      held_spans sample_os k' = Inr [])"
  using crash_in_initialize[OF _ sample_recovers_from image_untouched[of sample_os 1]] image_untouched by auto

section \<open>The raw store\<close>

text \<open>
  C7. \<^verbatim>\<open>RawSpanData::set_attribute_on_span\<close> on a live index is an update of an association
  list bounded by the attribute limit of the size class: the value of the (truncated) key
  changes in place, a new key goes last, and a new key on a full span changes nothing. The
  call returns the position of the key, or where it goes, and touches nothing else: the header,
  the counter, the marks and all other spans stay as they are, and of this span everything but
  the attribute at that position and the count of attributes.
\<close>

theorem set_attribute_upserts:
  fixes i :: index_t
  assumes "rsd_inv sz d" and "unat i < length (rsd_slots d)" and "0 \<notin> set key"
  shows "let r = ms_span (rsd_slots d ! unat i); k = utf8_trunc attr_key_size key
    in \<exists>j d' r' a c. rsd_set_attribute_on_span sz i key val d = Inr (j, d') \<and> rsd_inv sz d' \<and>
      unat j = attribute_slot k (stored_attributes r) \<and>
      d' = d\<lparr>rd_layout := upd_span (unat i) (\<lambda>_. r') (rd_layout d)\<rparr> \<and>
      rsd_slots d' = (rsd_slots d)[unat i := (rsd_slots d ! unat i)\<lparr>ms_span := r'\<rparr>] \<and>
      r' = r\<lparr>raw_attributes := (raw_attributes r)[unat j := a], raw_attr_count := c\<rparr> \<and>
      stored_attributes r' = upsert (max_attributes (mmap_config sz)) k
        (kept_text attr_value_size val) (stored_attributes r)"
proof -
  let ?r = "ms_span (rsd_slots d ! unat i)" and ?k = "utf8_trunc attr_key_size key"
  let ?r' = "with_attribute sz key val ?r"
  have clean: "clean_raw_span sz ?r" using rsd.slot_clean[OF assms(1) nth_mem[OF assms(2)]] .
  from rsd_attribute_exact[OF assms, of val] obtain j where
    j: "rsd_set_attribute_on_span sz i key val d =
        Inr (j, d\<lparr>rd_layout := upd_span (unat i) (\<lambda>_. ?r') (rd_layout d)\<rparr>)"
      "unat j = attribute_slot ?k (stored_attributes ?r)"
    by blast
  from with_attribute_touches[OF clean assms(3), of val] j(2) obtain a c where
    "?r' = ?r\<lparr>raw_attributes := (raw_attributes ?r)[unat j := a], raw_attr_count := c\<rparr>"
    by auto
  then show ?thesis
    unfolding Let_def
    using j rsd_attribute_law[OF assms(1,2), of key val] stored_with_attribute[OF clean assms(3), of val]
    by (intro exI[of _ j] exI[of _ "d\<lparr>rd_layout := upd_span (unat i) (\<lambda>_. ?r') (rd_layout d)\<rparr>"]
        exI[of _ ?r'] exI[of _ a] exI[of _ c]) simp
qed

theorem set_attribute_upserts_witness:
  "\<exists>j d'. rsd_set_attribute_on_span Small 1 [0x6b] [0x77] sample_data = Inr (j, d') \<and> rsd_inv Small d' \<and>
     ms_mark (rsd_slots d' ! 1) = 2"
  using set_attribute_upserts[of Small sample_data 1 "[0x6b]" "[0x77]"] by (auto simp: Let_def)

text \<open>
  C8. The store accepts an index exactly when it is below the count of live spans: for any
  other one removal, the end time, the raw span and the span all end in a failed assertion, or
  in one that itself looks behind the array, and nothing is written.
\<close>

theorem raw_index_guards:
  fixes i :: index_t
  assumes "rsd_inv sz d"
  shows "let ok = unat i < unat (rsd_count d)
    in ((\<exists>r. rsd_remove sz i d = Inr r) \<longleftrightarrow> ok) \<and>
       ((\<exists>d'. rsd_set_end_time sz i t d = Inr d') \<longleftrightarrow> ok) \<and>
       ((\<exists>r. rsd_get_raw_span sz i d = Inr r) \<longleftrightarrow> ok) \<and> ((\<exists>s. rsd_get sz i d = Inr s) \<longleftrightarrow> ok)"
proof -
  have li: "layout_inv sz (rd_mark_counter d) (rd_layout d)" using assms by (simp add: rsd_inv_def)
  have len: "length (rsd_slots d) = unat (rsd_count d)"
    using length_active[OF li] by (simp add: rsd_slots_def rsd_count_def)
  show ?thesis
  proof (cases "unat i < unat (rsd_count d)")
    case True
    then have i: "unat i < length (rsd_slots d)" by (simp add: len)
    note slot = rsd_slot[OF assms i]
    show ?thesis
      using rsd_remove_law[OF assms i] rsd_end_law[OF assms i, of t] slot(2,4) span_of_raw_total[OF slot(5)] True
      by (auto simp: Let_def rsd_get_raw_span_def rsd_get_def rsd_max_count_def)
  next
    case False
    then have "unat i < max_spans (mmap_config sz) \<Longrightarrow> slot_mark (rd_layout d) (unat i) = 0"
      using layout_inv_unmarked[OF li, of "unat i"] by (simp add: rsd_count_def)
    then show ?thesis
      using False by (auto simp: Let_def rsd_remove_def rsd_set_end_time_def rsd_get_raw_span_def
          rsd_get_def rsd_max_count_def word_less_nat_alt rsd_count_def)
  qed
qed

theorem raw_index_guards_witness:
  "(\<exists>r. rsd_remove Small 1 sample_data = Inr r) \<and> \<not> (\<exists>s. rsd_get Small 2 sample_data = Inr s)"
  using raw_index_guards[of Small sample_data 1 0] raw_index_guards[of Small sample_data 2 0]
  by (simp add: Let_def rsd_count_def)

text \<open>
  C9. Writing a span into its raw form and reading it back gives the span with every text
  cut to its field and at most as many attributes as the size class allows; a span that
  fits comes back unchanged.
\<close>

theorem raw_span_round_trip:
  "span_of_raw (to_raw_span sz s) = Inr (clip_span sz s) \<and>
   (span_fits sz s \<longrightarrow> span_of_raw (to_raw_span sz s) = Inr s)"
  by (simp add: span_round_trip clip_span_fits)

theorem raw_span_round_trip_witness:
  "span_of_raw (to_raw_span Small (sample_span 7)) = Inr (sample_span 7)"
proof -
  have "span_fits Small (sample_span 7)" by (rule sample_span_fits)
  then show ?thesis using raw_span_round_trip[of Small "sample_span 7"] by blast
qed

section \<open>The writer\<close>

text \<open>
  C10. On a full writer \<^verbatim>\<open>MutableSpanData::add\<close> of a new span drops exactly the oldest live
  span, found by the scan over the marks, and keeps all others with their order; the writer
  stays full.
\<close>

theorem full_writer_evicts_oldest:
  assumes "mut_inv sz m" and "unat (mut_counter m) + 1 < 2 ^ 64"
    and "unat (mut_count m) = max_spans (mmap_config sz)"
    and "sp_span_id s \<noteq> 0" and "sp_span_id s \<notin> raw_span_id ` set (live m)"
  shows "\<exists>m'. oldest_span (mu_impl m) = Inr (raw_span_id (hd (live m))) \<and> mut_add s m = Inr m' \<and>
    live m' = tl (live m) @ [to_raw_span sz s] \<and> mut_count m' = mut_count m"
proof -
  have full: "length (live m) = max_spans (mmap_config sz)"
    using assms(3) mut_count_live[OF assms(1)] by simp
  from mut_add_refines[OF assms(1,2,4)] obtain m' where
    m': "mut_add s m = Inr m'" "mut_inv sz m'" "live m' = spec_add sz s (live m)"
    by blast
  then have l: "live m' = tl (live m) @ [to_raw_span sz s]" using assms(5) full by (simp add: spec_add_def)
  have "unat (mut_count m') = unat (mut_count m)"
    using mut_count_live[OF m'(2)] mut_count_live[OF assms(1)] l full max_spans_bounds(1)[of sz] by simp
  with m'(1) l mut_evict(1)[OF assms(1,2) full] show ?thesis by (simp add: word_unat_eq_iff)
qed

theorem full_writer_evicts_oldest_witness:
  "\<exists>m m'. mut_run (map Op_Add sample_spans) (fresh_writer Small) = Inr m \<and> mut_count m = 128 \<and>
     mut_add (sample_span 500) m = Inr m' \<and> mut_count m' = mut_count m \<and>
     hd (live m') = to_raw_span Small (sample_span 2)"
proof -
  obtain m where m: "mut_run (map Op_Add sample_spans) (fresh_writer Small) = Inr m" "mut_inv Small m"
    "unat (mut_counter m) \<le> 128" "live m = map (to_raw_span Small) sample_spans"
    by (rule sample_full_writer)
  have full: "unat (mut_count m) = max_spans (mmap_config Small)"
    using mut_count_live[OF m(2)] m(4) by (simp add: sample_spans_def)
  have "(500 :: u64) \<noteq> of_nat n" if "n < 129" for n
  proof
    assume "(500 :: u64) = of_nat n"
    then have "unat (500 :: u64) = unat (of_nat n :: u64)" by simp
    with that show False by simp
  qed
  then have "sp_span_id (sample_span 500) \<notin> raw_span_id ` set (live m)"
    by (auto simp: m(4) sample_spans_def simp del: upt.simps)
  from full_writer_evicts_oldest[OF m(2) _ full _ this] m(3) obtain m' where
    "mut_add (sample_span 500) m = Inr m'" "mut_count m' = mut_count m"
    "live m' = tl (live m) @ [to_raw_span Small (sample_span 500)]"
    by auto
  moreover have "hd (tl (live m) @ x) = to_raw_span Small (sample_span 2)" for x
    by (simp add: m(4) sample_spans_def upt_rec)
  moreover have "mut_count m = 128" using full by (simp add: word_unat_eq_iff)
  ultimately show ?thesis using m(1) by auto
qed

text \<open>
  C11. After every run of calls the index map is exact: it maps a span id to a slot exactly
  when that slot is live and holds that span. Ids are unique and never zero.
\<close>

theorem index_map_exact:
  fixes j :: index_t
  assumes "list_all valid_op ops" and "length ops < 2 ^ 64" and "mut_run ops (fresh_writer sz) = Inr m"
  shows "(mu_index m span_id = Some j \<longleftrightarrow>
      j < mut_count m \<and> impl_get_span_id j (mu_impl m) = Inr span_id) \<and>
    distinct (map raw_span_id (live m)) \<and> 0 \<notin> raw_span_id ` set (live m)"
proof -
  have inv: "mut_inv sz m" using mut_run_refines[of sz "fresh_writer sz" ops] assms by auto
  then have i: "impl_inv sz (mu_impl m)" "index_matches (mu_index m) (map slot_id (mut_slots m))"
    "list_all (\<lambda>ms. slot_id ms \<noteq> 0) (mut_slots m)"
    by (simp_all add: mut_inv_def)
  have n: "unat (mut_count m) = length (mut_slots m)"
    using sdi.cnt_slots[OF i(1)] by (simp add: mut_count_def mut_slots_def)
  have "impl_get_span_id j (mu_impl m) = Inr (slot_id (mut_slots m ! unat j))" if "unat j < length (mut_slots m)"
    using sdi.get_raw_slot[OF i(1)] that by (simp add: impl_get_span_id_def mut_slots_def)
  then show ?thesis
    using index_matchesD[OF i(2), of span_id j] n distinct_live[OF inv] i(3) ids_live[of m]
    by (auto simp: word_less_nat_alt list_all_iff)
qed

theorem index_map_exact_witness:
  "\<exists>m. mut_run [Op_Add (sample_span 7), Op_Add (sample_span 8), Op_Remove 7] (fresh_writer Small) = Inr m \<and>
     0 \<notin> raw_span_id ` set (live m)"
proof -
  let ?ops = "[Op_Add (sample_span 7), Op_Add (sample_span 8), Op_Remove 7]"
  obtain m where m: "mut_run ?ops (fresh_writer Small) = Inr m"
    using mut_run_refines[of Small "fresh_writer Small" ?ops] by auto
  show ?thesis using index_map_exact[OF _ _ m] m by simp
qed

section \<open>Text\<close>

text \<open>
  C12. \<^verbatim>\<open>get_utf8_length\<close> cuts the UTF-8 encoding of any sequence of code points between two
  characters, and as late as the buffer allows: one more character would not leave room for
  the terminator.
\<close>

theorem truncation_keeps_characters:
  assumes "0 < N" and "list_all (\<lambda>c. c < 0x110000) cps"
  shows "\<exists>k \<le> length cps.
    take (get_utf8_length N (utf8_string cps)) (utf8_string cps) = utf8_string (take k cps) \<and>
    length (utf8_string (take k cps)) < N \<and>
    (k < length cps \<longrightarrow> N \<le> length (utf8_string (take (Suc k) cps)))"
proof -
  let ?cs = "map utf8_encode cps"
  have cs: "list_all utf8_char ?cs" using assms(2) utf8_char_encode by (auto simp: list_all_iff)
  have eq: "utf8_trunc N (utf8_string cps) = concat (utf8_fit (N - 1) ?cs)"
    using utf8_trunc_chars[OF assms(1) cs] by (simp add: utf8_string_def)
  obtain k where k: "k \<le> length ?cs" "utf8_fit (N - 1) ?cs = take k ?cs"
    using utf8_fit_prefix by blast
  obtain rest where rest: "?cs = utf8_fit (N - 1) ?cs @ rest"
    "length (concat (utf8_fit (N - 1) ?cs)) \<le> N - 1"
    "rest \<noteq> [] \<longrightarrow> N - 1 < length (concat (utf8_fit (N - 1) ?cs)) + length (hd rest)"
    using utf8_fit_split by blast
  have s: "utf8_string (take n cps) = concat (take n ?cs)" for n by (simp add: utf8_string_def take_map)
  have "take k ?cs @ rest = take k ?cs @ drop k ?cs" using rest(1) k(2) by simp
  then have r: "rest = drop k ?cs" by (simp only: same_append_eq)
  have "N \<le> length (utf8_string (take (Suc k) cps))" if "k < length cps"
  proof -
    have "take (Suc k) ?cs = take k ?cs @ [?cs ! k]" using that by (simp add: take_Suc_conv_app_nth)
    moreover have "rest \<noteq> []" "hd rest = ?cs ! k" using that by (simp_all add: r hd_drop_conv_nth)
    ultimately show ?thesis using rest(3) k(2) by (simp add: s)
  qed
  then show ?thesis
    using k rest(2) eq assms(1) by (intro exI[of _ k]) (auto simp: s utf8_trunc_def)
qed

theorem truncation_keeps_characters_witness:
  "\<exists>k \<le> 2. take (get_utf8_length 4 (utf8_string [0x61, 0x20AC])) (utf8_string [0x61, 0x20AC]) =
     utf8_string (take k [0x61, 0x20AC]) \<and> length (utf8_string (take k [0x61, 0x20AC])) < 4"
proof -
  have "0 < (4::nat)" "list_all (\<lambda>c. c < 0x110000) [0x61, 0x20AC :: nat]" "length [0x61, 0x20AC :: nat] = 2"
    by simp_all
  with truncation_keeps_characters[OF this(1,2)] show ?thesis by metis
qed

text \<open>
  C13. \<^verbatim>\<open>key_equals\<close> compares a key with a terminated buffer as \<^verbatim>\<open>strcmp\<close> would compare the
  truncated key with its text: it holds exactly when the two are the same, so a key found is
  the key that a write of it would store.
\<close>

theorem key_equals_is_comparison:
  assumes "0 < N" and "0 \<notin> set key" and "length buf = N" and "c_str buf = Inr text"
  shows "(key_equals N key buf \<longleftrightarrow> text = take (get_utf8_length N key) key) \<and>
    (key_equals N key buf \<longleftrightarrow> c_str (copy_string N key buf) = Inr text)"
proof -
  have "takeWhile (\<lambda>c. c \<noteq> 0) (utf8_trunc N key) = utf8_trunc N key"
    using assms(2) set_mono_prefix[OF prefix_utf8_trunc[of N key]] by (auto simp: takeWhile_eq_all_conv)
  then show ?thesis
    using key_equals_c_str[OF assms(1-4)] c_str_copy_string[OF assms(1,3), of key]
    by (auto simp: utf8_trunc_def)
qed

theorem key_equals_is_comparison_witness:
  "key_equals 4 [0x61, 0x62] [0x61, 0x62, 0, 7] \<and> \<not> key_equals 4 [0x61] [0x61, 0x62, 0, 7]"
  using key_equals_is_comparison[of 4 "[0x61, 0x62]" "[0x61, 0x62, 0, 7]" "[0x61, 0x62]"]
    key_equals_is_comparison[of 4 "[0x61]" "[0x61, 0x62, 0, 7]" "[0x61, 0x62]"]
  by (simp add: c_str_def get_utf8_length_short)

text \<open>
  C14. \<^verbatim>\<open>copy_string\<close> fills exactly the buffer, whatever the source: the last byte is the
  terminator, the text read back is the truncated source up to its first zero, nothing of the
  old contents is left, and a source that was cut on the way to the call, anywhere from the
  size of the buffer on, gives the same bytes.
\<close>

theorem copy_string_fills_buffer:
  assumes "0 < N" and "length dest = N"
  shows "length (copy_string N src dest) = N \<and> copy_string N src dest ! (N - 1) = 0 \<and>
    c_str (copy_string N src dest) = Inr (kept_text N src) \<and>
    copy_string N src dest = copy_string N src (replicate N 0) \<and>
    copy_string N (take N src) dest = copy_string N src dest"
proof -
  have "copy_string N src' dest = utf8_trunc N src' @ replicate (N - length (utf8_trunc N src')) 0"
    "copy_string N src' (replicate N 0) = utf8_trunc N src' @ replicate (N - length (utf8_trunc N src')) 0"
    for src'
    using copy_string_eq[OF assms(1)] assms(2) by simp_all
  then show ?thesis
    using copy_string_last[OF assms, of src] c_str_copy_string[OF assms, of src]
      length_copy_string[OF assms, of src] utf8_trunc_take[OF assms(1), of src]
    by (simp only: kept_text_def simp_thms)
qed

theorem copy_string_fills_buffer_witness:
  "c_str (copy_string 3 [0x61, 0x62, 0x63, 0x64] [9, 9, 9]) = Inr (kept_text 3 [0x61, 0x62, 0x63, 0x64])"
proof -
  have "0 < (3::nat)" "length [9, 9, 9 :: byte] = 3" by simp_all
  from copy_string_fills_buffer[OF this, of "[0x61, 0x62, 0x63, 0x64]"] show ?thesis by blast
qed

section \<open>Recovery and initialization\<close>

text \<open>
  C15. The recovery loop of \<^verbatim>\<open>initialize_span_data\<close>, which goes through the size-erased reader
  and checks every index, reads exactly the marked spans among the first \<open>count\<close> slots, in
  slot order, and fails only where the reading of one of them fails.
\<close>

theorem recovery_reads_marked_spans:
  assumes "length (ml_marked_spans l) = max_spans (mmap_config sz)"
    and "unat (active_count l) \<le> max_spans (mmap_config sz)"
    and "make_data (Some l) = Inr x" and "h_mmap_size (ml_header l) = mmap_size_code sz"
  shows "recover_spans x =
    res_list span_of_raw (map ms_span (filter (\<lambda>m. ms_mark m \<noteq> 0)
      (take (unat (active_count l)) (ml_marked_spans l))))"
  using recover_spans_eq[OF assms(1,2), of 0] assms(3,4)
  by (simp add: make_data_eq recoverable_def active_def)

theorem recovery_reads_marked_spans_witness:
  "\<exists>x. make_data (Some sample_layout) = Inr x \<and>
     recover_spans x = res_list span_of_raw [to_raw_span Small (sample_span 7), to_raw_span Small (sample_span 8)]"
proof -
  have l: "length (ml_marked_spans sample_layout) = max_spans (mmap_config Small)"
    "unat (active_count sample_layout) \<le> max_spans (mmap_config Small)"
    "h_mmap_size (ml_header sample_layout) = mmap_size_code Small"
    using sample_layout_inv(1) by (auto simp: layout_inv_def wf_layout_def)
  obtain x where x: "make_data (Some sample_layout) = Inr x" by (simp add: make_data_eq)
  show ?thesis
    using recovery_reads_marked_spans[OF l(1,2) x l(3)] x sample_recoverable
    by (simp add: recoverable_def active_def)
qed

text \<open>
  C16. \<^verbatim>\<open>initialize_span_data\<close> on a file whose spans can be read, for every outcome of the
  system calls: it never faults and closes what it opened. It returns a context exactly when
  the calls it needs succeed (no resizing when the old mapping can be kept). On failure no
  mapping is left; on success the one new mapping is owned by the context, the file has the
  aligned size and holds an empty array under the right header, and the recovered spans are
  those of the file before the call.
\<close>

theorem initialize_outcome:
  assumes "os_sound os k" and "held_spans os k = Inr ss"
  shows "\<exists>r k'. initialize_span_data os target k = Inr (r, k') \<and> k_fds k' = k_fds k \<and>
    (r \<noteq> None \<longleftrightarrow> calls_succeed os target k) \<and>
    (case r of
       None \<Rightarrow> k_maps k' = k_maps k
     | Some c \<Rightarrow>
         k_maps k (mm_mmap_ptr (mi_mmap (cx_data c))) = None \<and>
         k_maps k' = (k_maps k)(mm_mmap_ptr (mi_mmap (cx_data c)) \<mapsto> get_aligned_size (os_page_size os) target) \<and>
         length (k_file k') = get_aligned_size (os_page_size os) target \<and>
         file_layout (layout_alt target) k' = cleared_layout target \<and>
         cx_recovered_spans c = ss \<and> \<not> cx_is_recovered c)"
  using initialize_spec[OF assms, of target]
  by (auto simp: initialized_def Let_def fresh_context_def split: option.splits)

theorem initialize_outcome_witness:
  "\<exists>c k'. initialize_span_data sample_os 1 (kernel_with []) = Inr (Some c, k') \<and> k_fds k' = {} \<and>
     length (k_file k') = get_aligned_size 4096 1 \<and> cx_recovered_spans c = []"
  using initialize_outcome[OF sample_os_sound sample_empty, of 1]
  by auto

text \<open>
  C17. Recovery trusts the span count of the header: with a valid header whose count is beyond
  the array, no start has a result: the loop reads behind the last slot, which is undefined, or
  faults earlier in a slot it cannot read.
\<close>

theorem count_overrun_faults:
  assumes "os_sound os k" and "recovers_from os k"
    and "max_spans (mmap_config (layout_alt (h_mmap_size (file_header k)))) < unat (h_active_span_count (file_header k))"
    and "os_open os \<noteq> None" and "os_fstat os" and "os_mmap_existing os \<noteq> None"
  shows "\<exists>e. initialize_span_data os target k = Inl e"
  using initialize_overrun[OF assms(1-3) _ assms(5)] assms(4,6) by auto

theorem count_overrun_faults_witness:
  "\<exists>e. initialize_span_data sample_os 0
     (kernel_with (enc_layout (exec_stores Small [Store_Count 129] sample_layout))) = Inl e"
proof -
  let ?l = "exec_stores Small [Store_Count 129] sample_layout"
  let ?k = "kernel_with (enc_layout ?l)"
  have wf: "wf_layout Small ?l"
    using sample_layout_inv(1) by (intro wf_exec_stores) (simp_all add: layout_inv_def)
  have "same_header sample_layout ?l" by (intro exec_stores_header) simp
  then have hd: "h_signature (ml_header ?l) = header_signature" "h_version (ml_header ?l) = header_version"
    "h_mmap_size (ml_header ?l) = mmap_size_code Small"
    using sample_header by (simp_all add: same_header_def)
  have page: "get_page_size (os_page_size sample_os) \<le> length (k_file ?k)"
    using layout_bytes.enc_length[OF wf] by (simp add: sizeof_defs sample_os_def get_page_size_def)
  note held = held_of_layout[OF wf _ hd page, of "[]"]
  have count: "active_count ?l = 129" by (simp add: layout_simps)
  then have rec: "recovers_from sample_os ?k" using held(1) by simp
  have h: "file_header ?k = ml_header ?l"
    using count_of_written[of Small ?k ?l] wf layout_bytes.enc_length[OF wf]
    by (simp add: write_layout_def)
  have over: "max_spans (mmap_config (layout_alt (h_mmap_size (file_header ?k))))
      < unat (h_active_span_count (file_header ?k))"
    using held(3) count h by simp
  show ?thesis
    using count_overrun_faults[OF _ rec over] by simp
qed

section \<open>The library over the life of a process\<close>

text \<open>
  C18. Any session of calls of the interface that respects its rules runs without a fault,
  whatever the system calls return. The rules: pointers are null or alive; the file is
  initialized only while no context over it is alive, because the mappings are shared (C21 is
  the other case), and only when its spans can be read (C17 is the other case); the counter of
  marks is not exhausted. Afterwards every mapping of the process is owned by the one live
  context, if there is one; its release unmaps everything and leaves a file that every next
  start can read.
\<close>

theorem session_never_faults:
  assumes "session_ok calls (new_process contents)"
  shows "\<exists>pr. api_run calls (new_process contents) = Inr pr \<and>
    sole_owners mm_owned (cx_mappings pr) (mm_held (pr_kernel pr)) \<and>
    (pr_contexts pr = Map.empty \<longrightarrow> k_maps (pr_kernel pr) = Map.empty) \<and>
    (\<forall>p c. pr_contexts pr p = Some c \<longrightarrow>
      (\<exists>pr'. release_span_data p pr = Inr (0, pr') \<and> pr_contexts pr' = Map.empty \<and>
        k_maps (pr_kernel pr') = Map.empty \<and> (\<forall>os. \<exists>ss. held_spans os (pr_kernel pr') = Inr ss)))"
proof -
  from api_run_ok[OF pr_inv_new assms] obtain pr where
    pr: "api_run calls (new_process contents) = Inr pr" "pr_inv pr"
    by blast
  moreover have "sole_owners mm_owned (cx_mappings pr) (mm_held (pr_kernel pr))"
    using pr(2) by (simp add: pr_inv_def)
  ultimately show ?thesis using no_context_no_mapping[OF pr(2)] last_release[OF pr(2)] by blast
qed

theorem session_never_faults_witness:
  "\<exists>pr. api_run [Api_Initialize sample_os 100 (mmap_size_code Small), Api_Recover 100,
       Api_Write 100 (Op_Add (sample_span 7)), Api_Release 100] (new_process []) = Inr pr \<and>
     sole_owners mm_owned (cx_mappings pr) (mm_held (pr_kernel pr))"
proof -
  let ?calls = "[Api_Recover 100, Api_Write 100 (Op_Add (sample_span 7)), Api_Release 100]"
  let ?init = "Api_Initialize sample_os 100 (mmap_size_code Small)"
  obtain pr1 c where pr1:
    "pr_initialize sample_os 100 (mmap_size_code Small) (new_process []) = Inr (100, pr1)"
    "pr_inv pr1" "pr_contexts pr1 = [100 \<mapsto> c]" "fresh_context (mmap_size_code Small) [] c"
    by (rule sample_process)
  let ?pr2 = "pr1\<lparr>pr_contexts := [100 \<mapsto> c\<lparr>cx_is_recovered := True, cx_recovered_spans := []\<rparr>]\<rparr>"
  have pr2: "api_step (Api_Recover 100) pr1 = Inr ?pr2"
    using pr1(3,4) by (simp add: get_recovered_spans_def fresh_context_def)
  have w: "call_ok (Api_Write 100 (Op_Add (sample_span 7))) ?pr2"
    using pr1(4) by (simp add: alive_or_null_def fresh_context_def impl_counter_def)
  have r: "call_ok (Api_Release 100) pr3"
    if "api_step (Api_Write 100 (Op_Add (sample_span 7))) ?pr2 = Inr pr3" for pr3
    using that write_kept[of 100 _ ?pr2 pr3] by (auto simp: get_mutable_span_data_def alive_or_null_def)
  have "session_ok ?calls pr1"
    using pr2 w r pr1(3) by (auto simp: alive_or_null_def split: sum.splits simp del: api_step.simps)
  then have "session_ok (?init # ?calls) (new_process [])"
    using sample_call_ok[of Small] pr1(1) by simp
  from session_never_faults[OF this] show ?thesis by blast
qed

text \<open>
  C19. What a session writes is what the next start recovers. A process initializes a file of
  any contents, collects the recovered spans and makes any writes; it dies without releasing
  anything. The next process that initializes the file recovers the live spans of the
  specification, all of them and nothing else.
\<close>

theorem next_start_recovers_session:
  assumes "call_ok (Api_Initialize os addr (mmap_size_code sz)) (new_process contents)"
    and "pr_initialize os addr (mmap_size_code sz) (new_process contents) = Inr (addr, pr1)"
    and "list_all valid_op ops" and "length ops < 2 ^ 64"
    and "api_run (Api_Recover addr # map (Api_Write addr) ops) pr1 = Inr pr2"
    and "k_file k = k_file (pr_kernel pr2)" and "os_page_size os' = os_page_size os"
    and "os_sound os' k" and "calls_succeed os' target k"
  shows "\<exists>c k' rs. initialize_span_data os' target k = Inr (Some c, k') \<and>
    list_all2 (\<lambda>r s. span_of_raw r = Inr s) rs (cx_recovered_spans c) \<and>
    mset rs = mset (spec_run sz ops [])"
  using session_restart[OF assms] by blast

theorem next_start_recovers_session_witness:
  "\<exists>pr2 c k' rs. api_run [Api_Initialize sample_os 100 (mmap_size_code Small), Api_Recover 100,
       Api_Write 100 (Op_Add (sample_span 7))] (new_process []) = Inr pr2 \<and>
     initialize_span_data sample_os 1 (kernel_with (k_file (pr_kernel pr2))) = Inr (Some c, k') \<and>
     list_all2 (\<lambda>r s. span_of_raw r = Inr s) rs (cx_recovered_spans c) \<and>
     mset rs = {# to_raw_span Small (sample_span 7) #}"
proof -
  obtain pr1 pr3 where
    init: "pr_initialize sample_os 100 (mmap_size_code Small) (new_process []) = Inr (100, pr1)" and
    run: "api_run (Api_Recover 100 # map (Api_Write 100) [Op_Add (sample_span 7)]) pr1 = Inr pr3"
    by (rule sample_session)
  then have "api_run [Api_Initialize sample_os 100 (mmap_size_code Small), Api_Recover 100,
       Api_Write 100 (Op_Add (sample_span 7))] (new_process []) = Inr pr3"
    using init by simp
  then show ?thesis
    using next_start_recovers_session[OF sample_call_ok init _ _ run _ _ sample_os_sound sample_os_calls,
        of "kernel_with (k_file (pr_kernel pr3))" 1]
    by (auto simp: spec_add_def)
qed

text \<open>
  C20. A writer outlives its context. After \<^verbatim>\<open>release_span_data\<close> the caller's pointer is null,
  but a writer that was kept still knows the ids of the spans that were live, and holds a
  reference into the freed context. Which of its calls follow the reference: the count, an
  addition with an id it does not know, a removal, an end or an attribute with one it knows.
  The others return without an effect, so that the error can stay unseen.
\<close>

theorem writer_dangles_after_release:
  assumes "pr_inv pr" and "pr_contexts pr p = Some c" and "pr_writers pr p = Some index"
    and "release_span_data p pr = Inr (q, pr')"
  shows "let ids = raw_span_id ` set (live (cx_writer c index))
    in q = 0 \<and> pr_count p pr' = Inl Use_After_Free \<and>
      pr_write p (Op_Add s) pr' = (if sp_span_id s \<in> ids then Inr pr' else Inl Use_After_Free) \<and>
      pr_write p (Op_Remove i) pr' = (if i \<in> ids then Inl Use_After_Free else Inr pr') \<and>
      pr_write p (Op_End now i t) pr' = (if i \<in> ids then Inl Use_After_Free else Inr pr') \<and>
      pr_write p (Op_Set_Attribute i k v) pr' = (if i \<in> ids then Inl Use_After_Free else Inr pr')"
  unfolding Let_def by (intro conjI dangling_impl(1)[OF assms(1,2,4)] dangling_writer[OF assms])

theorem writer_dangles_after_release_witness:
  "\<exists>pr1 pr2. api_step (Api_Initialize sample_os 100 (mmap_size_code Small)) (new_process []) = Inr pr1 \<and>
     release_span_data 100 pr1 = Inr (0, pr2) \<and>
     pr_write 100 (Op_Add (sample_span 7)) pr2 = Inl Use_After_Free \<and>
     pr_write 100 (Op_Remove 7) pr2 = Inr pr2"
proof -
  obtain pr1 c where pr1:
    "pr_initialize sample_os 100 (mmap_size_code Small) (new_process []) = Inr (100, pr1)"
    "pr_inv pr1" "pr_contexts pr1 = [100 \<mapsto> c]" "pr_writers pr1 = [100 \<mapsto> Map.empty]"
    "fresh_context (mmap_size_code Small) [] c"
    by (rule sample_process)
  then obtain pr2 where pr2: "release_span_data 100 pr1 = Inr (0, pr2)"
    using release_inv[OF pr1(2), of 100] by (auto simp: alive_or_null_def)
  have "live (cx_writer c Map.empty) = []" using fresh_context_writer[OF pr1(5)] by simp
  then show ?thesis
    using writer_dangles_after_release[OF pr1(2) _ _ pr2, of c Map.empty "sample_span 7" 7] pr1 pr2
    by (auto simp: Let_def)
qed

text \<open>
  C21. Two live contexts over one file, as \<^verbatim>\<open>InitializeTwiceRecoveryDeathTest\<close> of
  \<^verbatim>\<open>tests/initialize_tests.cpp\<close> has them. A process initializes the file, recovers, makes any
  writes, and initializes the file again with the same size while the first context is alive.
  The second context recovers the live spans of the first writer, and clears the array they
  share: for the first writer the count is then zero, and the removal and the end of a span it
  still has in its index stop in a failed assertion.
\<close>

theorem second_context_breaks_writer:
  assumes "call_ok (Api_Initialize os addr (mmap_size_code sz)) (new_process contents)"
    and "pr_initialize os addr (mmap_size_code sz) (new_process contents) = Inr (addr, pr1)"
    and "list_all valid_op ops" and "length ops < 2 ^ 64"
    and "api_run (Api_Recover addr # map (Api_Write addr) ops) pr1 = Inr pr2"
    and "os_page_size os' = os_page_size os" and "os_sound os' (pr_kernel pr2)"
    and "calls_succeed os' (mmap_size_code sz) (pr_kernel pr2)"
    and "addr2 \<noteq> addr" and "i \<in> raw_span_id ` set (spec_run sz ops [])"
  shows "\<exists>pr3 c2 rs. pr_initialize os' addr2 (mmap_size_code sz) pr2 = Inr (addr2, pr3) \<and>
    pr_contexts pr3 addr2 = Some c2 \<and>
    list_all2 (\<lambda>r s. span_of_raw r = Inr s) rs (cx_recovered_spans c2) \<and>
    mset rs = mset (spec_run sz ops []) \<and>
    pr_count addr pr3 = Inr 0 \<and>
    pr_write addr (Op_Remove i) pr3 = Inl (Assert_Failed ''layout_->marked_spans[raw_index].mark > 0'') \<and>
    pr_write addr (Op_End now i t) pr3 = Inl (Assert_Failed ''raw_index < count()'')"
  using second_context[OF assms] .

theorem second_context_breaks_writer_witness:
  "\<exists>a pr1 pr2 pr3. pr_initialize sample_os 100 (mmap_size_code Small) (new_process []) = Inr (100, pr1) \<and>
     api_run [Api_Recover 100, Api_Write 100 (Op_Add (sample_span 7))] pr1 = Inr pr2 \<and>
     pr_initialize (second_os a) 200 (mmap_size_code Small) pr2 = Inr (200, pr3) \<and>
     pr_write 100 (Op_Remove 7) pr3 = Inl (Assert_Failed ''layout_->marked_spans[raw_index].mark > 0'')"
proof -
  obtain pr1 pr2 where
    init: "pr_initialize sample_os 100 (mmap_size_code Small) (new_process []) = Inr (100, pr1)" and
    run: "api_run (Api_Recover 100 # map (Api_Write 100) [Op_Add (sample_span 7)]) pr1 = Inr pr2" and
    fds: "k_fds (pr_kernel pr2) = {}"
    by (rule sample_session)
  have ops: "list_all valid_op [Op_Add (sample_span 7)]" "length [Op_Add (sample_span 7)] < 2 ^ 64"
    by simp_all
  from session_written[OF sample_call_ok init ops run] obtain c where
    c: "pr_inv pr2" "pr_contexts pr2 100 = Some c"
    by blast
  let ?a = "Suc (mm_mmap_ptr (mi_mmap (cx_data c)))"
  have os: "os_sound (second_os ?a) (pr_kernel pr2)"
    using free_address[OF c] fds by (intro second_os_sound) simp_all
  have "7 \<in> raw_span_id ` set (spec_run Small [Op_Add (sample_span 7)] [])" by (simp add: spec_add_def)
  from second_context_breaks_writer[OF sample_call_ok init ops run _ os _ _ this, of 200] obtain pr3 where
    "pr_initialize (second_os ?a) 200 (mmap_size_code Small) pr2 = Inr (200, pr3)"
    "pr_write 100 (Op_Remove 7) pr3 = Inl (Assert_Failed ''layout_->marked_spans[raw_index].mark > 0'')"
    by auto
  with init run[unfolded list.map] show ?thesis by blast
qed

text \<open>
  C22. A size outside the enumeration (the native method casts any ordinal) is accepted
  silently. Initialization returns a context, and its writer works: every run of calls succeeds
  and its live spans are those of the specification, bounded as for the small size. But the file
  carries the unsupported size in its header, no call changes that, and the next start reads
  none of the spans back.
\<close>

theorem unsupported_size_is_lost:
  assumes "\<not> is_supported_size target" and "os_sound os k" and "held_spans os k = Inr ss"
    and "calls_succeed os target k" and "list_all valid_op ops" and "length ops < 2 ^ 64"
  shows "\<exists>c k1 m. initialize_span_data os target k = Inr (Some c, k1) \<and> cx_recovered_spans c = ss \<and>
    mut_run ops (cx_writer c Map.empty) = Inr m \<and> live m = spec_run Small ops [] \<and>
    h_mmap_size (ml_header (mut_layout m)) = target \<and>
    (\<forall>k2 pad os2. k_file k2 = enc_layout (mut_layout m) @ pad \<longrightarrow> held_spans os2 k2 = Inr [])"
proof -
  from initialize_spec[OF assms(2,3), of target] assms(4) obtain c k1 where
    c: "initialize_span_data os target k = Inr (Some c, k1)" "fresh_context target ss c"
    by (auto simp: initialized_def Let_def)
  from unsupported_run[OF assms(1) c(2) assms(5,6)] obtain m where
    m: "mut_run ops (cx_writer c Map.empty) = Inr m" "live m = spec_run Small ops []"
      "same_header (cleared_layout target) (mut_layout m)"
    by blast
  then have h: "h_mmap_size (ml_header (mut_layout m)) = target"
    by (simp add: same_header_def cleared_layout_def)
  have "cx_recovered_spans c = ss" using c(2) by (simp add: fresh_context_def)
  moreover have "held_spans os2 k2 = Inr []" if "k_file k2 = enc_layout (mut_layout m) @ pad" for k2 pad os2
    using unsupported_not_held[OF _ that] assms(1) h by simp
  ultimately show ?thesis using c(1) m(1,2) h by blast
qed

theorem unsupported_size_is_lost_witness:
  "\<exists>c k1 m. initialize_span_data sample_os 7 (kernel_with []) = Inr (Some c, k1) \<and>
     mut_run [Op_Add (sample_span 7)] (cx_writer c Map.empty) = Inr m \<and>
     live m = [to_raw_span Small (sample_span 7)] \<and>
     held_spans sample_os (kernel_with (enc_layout (mut_layout m))) = Inr []"
proof -
  have u: "\<not> is_supported_size 7" by (simp add: is_supported_size_def)
  have ops: "list_all valid_op [Op_Add (sample_span 7)]" "length [Op_Add (sample_span 7)] < 2 ^ 64"
    by simp_all
  have s: "spec_run Small [Op_Add (sample_span 7)] [] = [to_raw_span Small (sample_span 7)]"
    by (simp add: spec_add_def)
  from unsupported_size_is_lost[OF u sample_os_sound sample_empty sample_os_calls ops] obtain c k1 m where
    m: "initialize_span_data sample_os 7 (kernel_with []) = Inr (Some c, k1)"
      "mut_run [Op_Add (sample_span 7)] (cx_writer c Map.empty) = Inr m"
      "live m = spec_run Small [Op_Add (sample_span 7)] []"
      "\<forall>k2 pad os2. k_file k2 = enc_layout (mut_layout m) @ pad \<longrightarrow> held_spans os2 k2 = Inr []"
    by (auto simp del: mut_run.simps spec_run.simps)
  then have "held_spans sample_os (kernel_with (enc_layout (mut_layout m))) = Inr []"
    by (metis append_Nil2 kernel.select_convs(1))
  with m(1-3) show ?thesis unfolding s by blast
qed

section \<open>Ownership of mappings\<close>

text \<open>
  C23. Whatever moves, move assignments (to itself too) and destructions a program makes with
  \<^verbatim>\<open>ManagedMmap\<close> objects, in any order, no mapping is unmapped twice or while another object
  uses it, and when all objects are gone every mapping has been unmapped.
\<close>

theorem mappings_released_once:
  assumes "sole_owners mm_owned t (mm_held k)"
  shows "\<exists>t' k'. object_run mm_destroy mm_move mm_assign ops t k = Inr (t', k') \<and>
    sole_owners mm_owned t' (mm_held k') \<and>
    (dom t' \<subseteq> set objs \<longrightarrow>
      (\<exists>k''. object_run mm_destroy mm_move mm_assign (map Obj_Destroy objs) t' k' = Inr (Map.empty, k'') \<and>
         k_maps k'' = Map.empty))"
proof -
  from mmap_owner.run_owned[OF TrueI assms, of ops] obtain t' k' where
    run: "object_run mm_destroy mm_move mm_assign ops t k = Inr (t', k')" "sole_owners mm_owned t' (mm_held k')"
    by blast
  have "\<exists>k''. object_run mm_destroy mm_move mm_assign (map Obj_Destroy objs) t' k' = Inr (Map.empty, k'') \<and>
      k_maps k'' = Map.empty" if "dom t' \<subseteq> set objs"
    using mmap_owner.scope_exit_releases[OF TrueI run(2) _ that] by (simp only: mm_held_empty simp_thms)
  with run show ?thesis by blast
qed

theorem mappings_released_once_witness:
  "\<exists>t' k'. object_run mm_destroy mm_move mm_assign [Obj_Assign 1 0, Obj_Move 2 1, Obj_Assign 2 2]
       [0 \<mapsto> \<lparr>mm_mmap_ptr = 4096, mm_required_size = 8\<rparr>, 1 \<mapsto> \<lparr>mm_mmap_ptr = 8192, mm_required_size = 8\<rparr>]
       ((kernel_with [])\<lparr>k_maps := [4096 \<mapsto> 8, 8192 \<mapsto> 8]\<rparr>) = Inr (t', k') \<and>
     sole_owners mm_owned t' (mm_held k')"
proof -
  let ?t = "[0 \<mapsto> \<lparr>mm_mmap_ptr = 4096, mm_required_size = 8\<rparr>,
    1 \<mapsto> \<lparr>mm_mmap_ptr = 8192, mm_required_size = 8\<rparr>] :: managed_mmap objects"
  let ?k = "(kernel_with [])\<lparr>k_maps := [4096 \<mapsto> 8, 8192 \<mapsto> 8]\<rparr>"
  let ?a = "\<lparr>mm_mmap_ptr = 4096, mm_required_size = 8\<rparr>" and ?b = "\<lparr>mm_mmap_ptr = 8192, mm_required_size = 8\<rparr>"
  have "sole_owners mm_owned Map.empty {}" by (simp add: sole_owners_def)
  from sole_owners_put[OF this, where i = 0 and h = ?a] have "sole_owners mm_owned [0 \<mapsto> ?a] (mm_owned ?a)" by simp
  from sole_owners_put[OF this, where i = 1 and h = ?b] have "sole_owners mm_owned ?t (mm_owned ?a \<union> mm_owned ?b)"
    by (simp add: mm_owned_def mm_is_initialized_def)
  moreover have "mm_held ?k = mm_owned ?a \<union> mm_owned ?b"
    by (auto simp: mm_held_def mm_owned_def mm_is_initialized_def split: if_splits)
  ultimately have "sole_owners mm_owned ?t (mm_held ?k)" by simp
  from mappings_released_once[OF this] show ?thesis by blast
qed

section \<open>The file\<close>

text \<open>
  The file has a whole number of pages, enough for the layout and less than a page more,
  so never less than the one page that recovery asks for; the layouts take 409632, 12714016
  and 50593824 bytes, and no size fits a smaller one.
\<close>

theorem file_size_bounds:
  "get_page_size ps dvd get_aligned_size ps w \<and>
   get_memory_layout_size w \<le> get_aligned_size ps w \<and>
   get_aligned_size ps w < get_memory_layout_size w + get_page_size ps \<and>
   get_page_size ps \<le> get_aligned_size ps w \<and>
   get_memory_layout_size (mmap_size_code sz) =
     (case sz of Small \<Rightarrow> 409632 | Medium \<Rightarrow> 12714016 | Large \<Rightarrow> 50593824)"
  using aligned_bounds[where w = w and ps = ps] by (auto simp: sizeof_defs split: mmap_size.splits)

section \<open>The Android bindings\<close>

text \<open>
  C24. A span added from Java arrives as if its strings had never been cut at the interface:
  \<^verbatim>\<open>add_span\<close> does to the process what the writer does with the span of the full texts, which
  the bindings cut at a byte and the fields at a character. Pairs of attributes with a null
  are dropped, a null name is empty. No reference is left behind and no exception.
\<close>

theorem native_add_is_add:
  assumes "jni_sound J V" and "jni_allocates J V" and "\<not> vw_pending V j" and "env \<noteq> 0"
    and "name = 0 \<or> name \<in> vw_live V j" and "attrs = 0 \<or> attrs \<in> vw_live V j"
    and "get_mutable_span_data p pr = Inr p" and "p \<noteq> 0" and "span_id \<noteq> 0"
  shows "\<exists>j'. frame V {} {} j j' \<and>
    add_span J env p trace_id span_id parent_span_id start_time name attrs pr j =
      res_map (\<lambda>pr. (pr, j')) (pr_write p (Op_Add
        \<lparr>sp_trace_id = trace_id, sp_span_id = span_id, sp_parent_span_id = parent_span_id,
         sp_start_time = start_time, sp_end_time = 0, sp_name = java_text V name j,
         sp_attributes = java_pairs V attrs j\<rparr>) pr)"
  using add_span_native[OF assms] .

theorem native_add_is_add_witness:
  "\<exists>pr2 pr3 j'. api_run [Api_Initialize sample_os 100 (mmap_size_code Small), Api_Recover 100] (new_process []) = Inr pr2 \<and>
     add_span (sample_jni (\<lambda>_. False)) 1 100 \<lparr>ti_high = 1, ti_low = 2\<rparr> 7 0 10 1 7 pr2 sample_jvm = Inr (pr3, j') \<and>
     pr_write 100 (Op_Add \<lparr>sp_trace_id = \<lparr>ti_high = 1, ti_low = 2\<rparr>, sp_span_id = 7, sp_parent_span_id = 0,
       sp_start_time = 10, sp_end_time = 0, sp_name = [0x6e], sp_attributes = [([0x6b], [0x76])]\<rparr>) pr2 = Inr pr3"
proof -
  obtain pr2 where pr2:
    "api_run [Api_Initialize sample_os 100 (mmap_size_code Small), Api_Recover 100] (new_process []) = Inr pr2"
    "get_mutable_span_data 100 pr2 = Inr 100"
    "\<forall>op. valid_op op \<longrightarrow> (\<exists>pr3. pr_write 100 op pr2 = Inr pr3)"
    by (rule sample_ready)
  let ?s = "\<lparr>sp_trace_id = \<lparr>ti_high = 1, ti_low = 2\<rparr>, sp_span_id = 7, sp_parent_span_id = 0,
       sp_start_time = 10, sp_end_time = 0, sp_name = [0x6e], sp_attributes = [([0x6b], [0x76])]\<rparr>"
  have java: "java_text sample_view 1 sample_jvm = [0x6e]"
    "java_pairs sample_view 7 sample_jvm = [([0x6b], [0x76])]"
    by (simp_all add: java_text_def java_pairs_def vw_texts_def)
  obtain pr3 where pr3: "pr_write 100 (Op_Add ?s) pr2 = Inr pr3" using spec[OF pr2(3), of "Op_Add ?s"] by auto
  have refs: "(1::nat) = 0 \<or> 1 \<in> vw_live sample_view sample_jvm" "(7::nat) = 0 \<or> 7 \<in> vw_live sample_view sample_jvm"
    "\<not> vw_pending sample_view sample_jvm" "(1::nat) \<noteq> 0" "(100::nat) \<noteq> 0" "(7::u64) \<noteq> 0"
    by simp_all
  from native_add_is_add[OF sample_sound sample_allocates refs(3,4,1,2) pr2(2) refs(5,6),
      of "\<lparr>ti_high = 1, ti_low = 2\<rparr>" 0 10] pr3 pr2(1) java
  show ?thesis by auto
qed

text \<open>
  C25. The same holds of \<^verbatim>\<open>set_attribute_on_span\<close>: the key is found, and key and value are
  stored, as if the full strings had been passed.
\<close>

theorem native_set_attribute_is_set:
  assumes "jni_sound J V" and "jni_allocates J V" and "\<not> vw_pending V j" and "env \<noteq> 0"
    and "key = 0 \<or> key \<in> vw_live V j" and "val = 0 \<or> val \<in> vw_live V j"
    and "get_mutable_span_data p pr = Inr p" and "p \<noteq> 0"
  shows "\<exists>j'. frame V {} {} j j' \<and>
    set_attribute_on_span J env p span_id key val pr j =
      res_map (\<lambda>pr. (pr, j'))
        (pr_write p (Op_Set_Attribute span_id (java_text V key j) (java_text V val j)) pr)"
  using set_attribute_native[OF assms] .

theorem native_set_attribute_is_set_witness:
  "\<exists>pr2 pr3 j'. api_run [Api_Initialize sample_os 100 (mmap_size_code Small), Api_Recover 100] (new_process []) = Inr pr2 \<and>
     set_attribute_on_span (sample_jni (\<lambda>_. False)) 1 100 7 3 5 pr2 sample_jvm = Inr (pr3, j') \<and>
     pr_write 100 (Op_Set_Attribute 7 [0x6b] [0x76]) pr2 = Inr pr3"
proof -
  obtain pr2 where pr2:
    "api_run [Api_Initialize sample_os 100 (mmap_size_code Small), Api_Recover 100] (new_process []) = Inr pr2"
    "get_mutable_span_data 100 pr2 = Inr 100"
    "\<forall>op. valid_op op \<longrightarrow> (\<exists>pr3. pr_write 100 op pr2 = Inr pr3)"
    by (rule sample_ready)
  have java: "java_text sample_view 3 sample_jvm = [0x6b]" "java_text sample_view 5 sample_jvm = [0x76]"
    by (simp_all add: java_text_def)
  obtain pr3 where pr3: "pr_write 100 (Op_Set_Attribute 7 [0x6b] [0x76]) pr2 = Inr pr3"
    using spec[OF pr2(3), of "Op_Set_Attribute 7 [0x6b] [0x76]"] by auto
  have refs: "(3::nat) = 0 \<or> 3 \<in> vw_live sample_view sample_jvm" "(5::nat) = 0 \<or> 5 \<in> vw_live sample_view sample_jvm"
    "\<not> vw_pending sample_view sample_jvm" "(1::nat) \<noteq> 0" "(100::nat) \<noteq> 0"
    by simp_all
  from native_set_attribute_is_set[OF sample_sound sample_allocates refs(3,4,1,2) pr2(2) refs(5), of 7]
    pr3 pr2(1) java
  show ?thesis by auto
qed

text \<open>
  C26. \<^verbatim>\<open>recover_spans_native\<close> hands Java one object per recovered span, in order: the object
  at position \<open>i\<close> of the array is the one made from the numbers of span \<open>i\<close>, its name and its
  attributes as a flat array of keys and values. The array is the only reference it leaves.
\<close>

theorem native_recover_creates_all:
  assumes "jni_sound J V" and "jni_allocates J V" and "\<not> vw_pending V j" and "env \<noteq> 0"
    and "cache_live V g j" and "p \<noteq> 0" and "pr_contexts pr p = Some c" and "\<not> cx_is_recovered c"
    and "list_all span_utf8 (cx_recovered_spans c)" and "length (cx_recovered_spans c) < 2 ^ 31"
  shows "\<exists>a pr' j' obs. recover_spans_native J g env p pr j = Inr (a, pr', j') \<and>
    a \<noteq> 0 \<and> frame V {} {a} j j' \<and> vw_elems V (vw_object V a j') j' = map Some obs \<and>
    map (vw_made_by V) obs = map jni_span (cx_recovered_spans c) \<and>
    get_mutable_span_data p pr' = Inr p"
  using create_jni_span_objects_array_frame[OF assms(1-5,9,10)] assms(6-8)
  by (fastforce simp: recover_spans_native_def get_recovered_spans_def get_mutable_span_data_def)

theorem native_recover_creates_all_witness:
  "\<exists>a j' obs. recover_spans_native (sample_jni (\<lambda>_. False)) sample_cache 1 100
       \<lparr>pr_kernel = kernel_with [], pr_contexts = [100 \<mapsto> sample_context], pr_writers = Map.empty\<rparr> sample_jvm =
     Inr (a, \<lparr>pr_kernel = kernel_with [], pr_contexts =
       [100 \<mapsto> sample_context\<lparr>cx_is_recovered := True, cx_recovered_spans := []\<rparr>], pr_writers = Map.empty\<rparr>, j') \<and>
     m_elems (m_object a j') j' = map Some obs \<and>
     map m_made_by obs = [([1, 2, 7, 0, 10], [0x61], [Some [0x6b], Some [0x76]]),
       ([1, 2, 8, 0, 10], [0x61], [Some [0x6b], Some [0x76]])]"
proof -
  let ?pr = "\<lparr>pr_kernel = kernel_with [], pr_contexts = [100 \<mapsto> sample_context], pr_writers = Map.empty\<rparr>"
  have c: "cx_recovered_spans sample_context = [sample_span 7, sample_span 8]" "\<not> cx_is_recovered sample_context"
    by (simp_all add: sample_context_def)
  have s: "list_all span_utf8 (cx_recovered_spans sample_context)" "length (cx_recovered_spans sample_context) < 2 ^ 31"
    by (simp_all add: c span_utf8_def sample_span_def)
  have h: "\<not> vw_pending sample_view sample_jvm" "(1::nat) \<noteq> 0" "(100::nat) \<noteq> 0"
    "pr_contexts ?pr 100 = Some sample_context"
    by simp_all
  have j: "jni_span (sample_span n) = ([1, 2, n, 0, 10], [0x61], [Some [0x6b], Some [0x76]])" for n
    by (simp add: jni_span_def sample_span_def span_numbers_def jni_texts_def utf8_trunc_short jni_limits)
  from native_recover_creates_all[OF sample_sound sample_allocates h(1,2) sample_cache_live h(3,4) c(2) s]
  obtain a pr' j' obs where r:
    "recover_spans_native (sample_jni (\<lambda>_. False)) sample_cache 1 100 ?pr sample_jvm = Inr (a, pr', j')"
    "m_elems (m_object a j') j' = map Some obs" "map m_made_by obs = map jni_span (cx_recovered_spans sample_context)"
    by (auto simp del: fun_upd_apply)
  have "pr' = \<lparr>pr_kernel = kernel_with [], pr_contexts =
       [100 \<mapsto> sample_context\<lparr>cx_is_recovered := True, cx_recovered_spans := []\<rparr>], pr_writers = Map.empty\<rparr>"
    using r(1) c by (auto simp: recover_spans_native_def get_recovered_spans_def res_map_Inr_iff)
  with r show ?thesis by (auto simp: c j)
qed

text \<open>
  C27. Java reads back what it wrote. The raw form of a span made from strings of Java reads
  as a span that \<^verbatim>\<open>NewStringUTF\<close> accepts, and the object made from it has the numbers of the
  original, its name cut once to its field, and its attributes cut once, without empty values
  and at most as many as the size class holds.
\<close>

theorem java_span_round_trip:
  assumes "modified_utf8 (sp_name s)"
    and "list_all (\<lambda>(k, v). modified_utf8 k \<and> modified_utf8 v) (sp_attributes s)"
  shows "\<exists>s'. span_of_raw (to_raw_span sz (cut_span s)) = Inr s' \<and> span_utf8 s' \<and>
    jni_span s' = (span_numbers s, utf8_trunc span_name_size (sp_name s),
      jni_texts (filter (\<lambda>(k, v). utf8_trunc attr_value_size v \<noteq> [])
        (take (max_attributes (mmap_config sz)) (sp_attributes s))))"
  using java_round_trip[OF assms, of sz] by (simp add: to_raw_span_cut span_round_trip)

theorem java_span_round_trip_witness:
  "\<exists>s'. span_of_raw (to_raw_span Small (cut_span (sample_span 7))) = Inr s' \<and> span_utf8 s' \<and>
     fst (jni_span s') = [1, 2, 7, 0, 10]"
  using java_span_round_trip[of "sample_span 7" Small]
  by (auto simp: sample_span_def span_numbers_def)

text \<open>
  C28. Loading and unloading the library balance, whichever of \<^verbatim>\<open>GetEnv\<close>, \<^verbatim>\<open>GetJavaVM\<close>,
  \<^verbatim>\<open>FindClass\<close>, \<^verbatim>\<open>GetStaticMethodID\<close> and \<^verbatim>\<open>RegisterNatives\<close> fails, as long as global references
  are granted (C29 is the other case). On a thread that is not attached \<^verbatim>\<open>JNI_OnLoad\<close> does
  nothing and reports the error. On one that is it leaves no local reference, and the global
  references it adds are exactly those of the cache, which is complete when the load succeeds;
  after \<^verbatim>\<open>JNI_OnUnload\<close> they are gone. An unload on a thread that is not attached keeps them.
\<close>

theorem load_and_unload_balance:
  assumes "jni_deletes J V" and "jni_classes J V" and "grants_globals J" and "jni_machine J"
    and "\<not> vw_pending V j" and "jni_get_env J vm j = None \<or> attached J j"
  shows "\<exists>r g j1 g' j2. jni_on_load J vm sc_empty j = Inr (r, g, j1) \<and>
    vw_locals V j1 = vw_locals V j \<and> vw_globals V j1 = vw_globals V j \<union> sc_owned g \<and>
    (if r = JNI_VERSION_1_6 then sc_is_initialized g else r = JNI_ERR) \<and>
    (jni_get_env J vm j = None \<longrightarrow> r = JNI_ERR \<and> g = sc_empty \<and> j1 = j) \<and>
    jni_on_unload J g j1 = Inr (g', j2) \<and> \<not> sc_is_initialized g' \<and>
    vw_locals V j2 = vw_locals V j \<and> vw_globals V j2 = vw_globals V j - sc_owned g \<and>
    (\<forall>k. jni_get_env J (sc_vm g) k = None \<longrightarrow>
      (\<exists>g''. jni_on_unload J g k = Inr (g'', k) \<and> \<not> sc_is_initialized g''))"
proof (cases "jni_get_env J vm j")
  case None
  have "jni_on_unload J sc_empty k = Inr (sc_empty, k)" for k
    by (simp add: jni_on_unload_def sc_release_def current_env_def release_global_def sc_empty_def)
  then show ?thesis
    using jni_on_load_detached[OF None, of sc_empty] None
    by (intro exI[of _ JNI_ERR] exI[of _ sc_empty] exI[of _ j])
      (simp add: JNI_ERR_def JNI_VERSION_1_6_def)
next
  case (Some env)
  then have att: "attached J j" using assms(6) by simp
  from jni_on_load_spec[OF assms(1-5) att Some, of sc_empty] obtain r g j1 where
    l: "jni_on_load J vm sc_empty j = Inr (r, g, j1)" "sc_valid g" "attached J j1"
      "vw_locals V j1 = vw_locals V j" "vw_globals V j1 = vw_globals V j \<union> sc_owned g"
      "if r = JNI_VERSION_1_6 then sc_is_initialized g else r = JNI_ERR"
    by auto
  have "sc_owned g \<subseteq> vw_globals V j1" using l(5) by simp
  from sc_release_owned[OF assms(1) l(3,2) this] obtain g' j2 where
    u: "sc_release J g j1 = Inr (g', j2)" "\<not> sc_is_initialized g'"
      "vw_globals V j2 = vw_globals V j1 - sc_owned g" "vw_locals V j2 = vw_locals V j1"
    by blast
  then have "jni_on_unload J g j1 = Inr (g', j2)" "vw_globals V j2 = vw_globals V j - sc_owned g"
    using l(5) by (auto simp: jni_on_unload_def)
  with l u Some jni_on_unload_detached[of J g] show ?thesis
    by (intro exI[of _ r] exI[of _ g] exI[of _ j1] exI[of _ g'] exI[of _ j2]) simp
qed

theorem load_and_unload_balance_witness:
  "\<exists>r g j1 g' j2. jni_on_load (sample_jni (\<lambda>_. False)) 1 sc_empty sample_jvm = Inr (r, g, j1) \<and>
     vw_locals sample_view j1 = vw_locals sample_view sample_jvm \<and>
     jni_on_unload (sample_jni (\<lambda>_. False)) g j1 = Inr (g', j2) \<and> \<not> sc_is_initialized g'"
  using load_and_unload_balance[where J = "sample_jni (\<lambda>_. False)" and V = sample_view and j = sample_jvm
      and vm = 1, OF sample_deletes sample_classes sample_machine(1,2) _ disjI2[OF sample_machine(3)]]
  by auto

text \<open>
  C29. A global reference that is refused breaks the load. \<^verbatim>\<open>NewGlobalRef\<close> returns null when the
  table of references is full; the constructor of the cache does not look, and hands the null
  class to \<^verbatim>\<open>GetStaticMethodID\<close> (or goes on with the exception pending, where one is). On a
  machine that checks its calls the process stops inside \<^verbatim>\<open>JNI_OnLoad\<close>, where \<^verbatim>\<open>JNI_ERR\<close> was
  to be returned.
\<close>

theorem refused_global_breaks_load:
  assumes "jni_deletes J V" and "jni_classes J V" and "knows_classes J" and "refuses_globals J"
    and "checks_lookups J V" and "\<not> vw_pending V j"
    and "jni_get_env J vm j = Some env" and "env \<noteq> 0" and "jni_get_java_vm J env j = Some w"
  shows "\<exists>e. jni_on_load J vm g j = Inl e"
proof -
  from sc_new_refused[OF assms(1-6,8,9)] obtain e where "sc_new J env j = Inl e" by blast
  then show ?thesis
    by (simp add: jni_on_load_def register_natives_def cache_jni_globals_def assms(7))
qed

theorem refused_global_breaks_load_witness:
  "\<exists>e. jni_on_load full_jni 1 sc_empty sample_jvm = Inl e"
  using refused_global_breaks_load[OF full_deletes full_classes full_refuses, of sample_jvm 1 1 1 sc_empty]
  by (simp add: sample_jni_def)

text \<open>
  C30. \<^verbatim>\<open>SpanJClassCache\<close> objects own their global references: whatever moves, move
  assignments (to itself too) and destructions a program makes on an attached thread, no
  reference is deleted twice or while another cache uses it, and when all caches are gone so
  are their references.
\<close>

theorem class_caches_release_once:
  assumes "jni_deletes J V" and "attached J j" and "sole_owners sc_owned t (vw_globals V j)"
    and "\<forall>i h. t i = Some h \<longrightarrow> sc_valid h"
  shows "\<exists>t' j'. object_run (sc_destroy J) sc_move (sc_assign J) ops t j = Inr (t', j') \<and>
    sole_owners sc_owned t' (vw_globals V j') \<and> (\<forall>i h. t' i = Some h \<longrightarrow> sc_valid h) \<and>
    (dom t' \<subseteq> set objs \<longrightarrow>
      (\<exists>j''. object_run (sc_destroy J) sc_move (sc_assign J) (map Obj_Destroy objs) t' j' = Inr (Map.empty, j'') \<and>
         vw_globals V j'' = {}))"
proof -
  from global_owner.run_owned[OF conjI[OF assms(1,2)] assms(3,4), of ops] obtain t' j' where
    run: "object_run (sc_destroy J) sc_move (sc_assign J) ops t j = Inr (t', j')"
      "jni_deletes J V \<and> attached J j'" "\<forall>i h. t' i = Some h \<longrightarrow> sc_valid h"
      "sole_owners sc_owned t' (vw_globals V j')"
    by blast
  have exit: "\<exists>j''. object_run (sc_destroy J) sc_move (sc_assign J) (map Obj_Destroy objs) t' j' = Inr (Map.empty, j'') \<and>
      vw_globals V j'' = {}" if "dom t' \<subseteq> set objs"
    using global_owner.scope_exit_releases[OF run(2,4,3) that] by (elim exE conjE) (intro exI conjI)
  show ?thesis
    by (rule exI[of _ t'], rule exI[of _ j'], intro conjI run(1,3,4) impI, erule exit)
qed

theorem class_caches_release_once_witness:
  "\<exists>t' j'. object_run (sc_destroy (sample_jni (\<lambda>_. False))) sc_move (sc_assign (sample_jni (\<lambda>_. False)))
       [Obj_Move 1 0, Obj_Assign 1 1, Obj_Assign 0 1] [0 \<mapsto> sample_cache] sample_jvm = Inr (t', j') \<and>
     sole_owners sc_owned t' (vw_globals sample_view j')"
proof -
  have own: "sc_owned sample_cache = vw_globals sample_view sample_jvm"
    by (auto simp: sample_cache_def sc_owned_def sample_jvm_def sample_view_def m_live_def elim!: evenE)
  have "sole_owners sc_owned [0 \<mapsto> sample_cache] (vw_globals sample_view sample_jvm)"
    by (auto simp: sole_owners_def own split: if_splits)
  moreover have "sc_valid sample_cache"
    by (simp add: sc_valid_def sample_cache_def sc_is_initialized_def)
  then have "\<forall>i h. [0 \<mapsto> sample_cache] i = Some h \<longrightarrow> sc_valid h" by simp
  ultimately show ?thesis
    using class_caches_release_once[OF sample_deletes sample_machine(3), of "[0 \<mapsto> sample_cache]" sample_jvm]
    by blast
qed

text \<open>
  C31. One name that cannot be made breaks the whole list. If \<^verbatim>\<open>NewStringUTF\<close> refuses the name
  of a span and throws, \<^verbatim>\<open>create_jni_span_objects_array\<close> goes on to the next span with the
  exception pending, which the interface forbids for \<^verbatim>\<open>NewStringUTF\<close>: wherever the span
  stands in the list, unless it is the last, the array is never returned.
\<close>

theorem refused_name_breaks_recovery:
  assumes "refuses_pending J V" and "env \<noteq> 0" and "sc_is_initialized g"
    and "jni_new_object_array J (jsize_of (length (pre @ s # s' # post))) (sc_span_class g) j = Inr (arr, j0)"
    and "arr \<noteq> 0" and "0 \<notin> set (sp_name s)"
    and "refuses_string J V (utf8_trunc max_span_name_len (sp_name s))"
  shows "\<exists>e. create_jni_span_objects_array J g env (pre @ s # s' # post) j = Inl e"
  using fill_after_failed_name[OF assms(1-3,7,6), of arr pre s' post 0 j0] assms(3-5)
  by (auto simp: create_jni_span_objects_array_def)

theorem refused_name_breaks_recovery_witness:
  "\<exists>e. create_jni_span_objects_array (sample_jni (\<lambda>b. b = [0x61])) sample_cache 1
     [sample_span 7, sample_span 8] sample_jvm = Inl e"
proof -
  let ?J = "sample_jni (\<lambda>b. b = [0x61])"
  have name: "sp_name (sample_span n) = [0x61]" for n by (simp add: sample_span_def)
  obtain arr j0 where "jni_new_object_array ?J (jsize_of (length ([] @ sample_span 7 # sample_span 8 # [])))
      (sc_span_class sample_cache) sample_jvm = Inr (arr, j0)" "arr \<noteq> 0"
    by (auto simp: sample_jni_def m_guard_def sample_cache_def m_new_array_def m_local_def Let_def
        sample_jvm_def m_live_def)
  moreover have "refuses_string ?J sample_view (utf8_trunc max_span_name_len (sp_name (sample_span 7)))"
    by (auto simp: refuses_string_def name utf8_trunc_short jni_limits sample_jni_def m_guard_def)
  moreover have "sc_is_initialized sample_cache" "0 \<notin> set (sp_name (sample_span 7))"
    by (simp_all add: name sample_cache_def sc_is_initialized_def)
  ultimately show ?thesis
    using refused_name_breaks_recovery[OF sample_refuses, where pre = "[]" and post = "[]" and env = 1]
    by fastforce
qed

text \<open>
  C32. From Java to Java over a restart. A process initializes a file of any contents and makes
  any writes with strings of Java; it dies without releasing anything. The next process that
  initializes the file and asks for the recovered spans gets an array of objects, one for each
  live span of the specification and nothing else, each made from what its raw span reads as.
\<close>

theorem java_session_recovered:
  assumes "call_ok (Api_Initialize os addr (mmap_size_code sz)) (new_process contents)"
    and "pr_initialize os addr (mmap_size_code sz) (new_process contents) = Inr (addr, pr1)"
    and "list_all valid_op ops" and "length ops < 2 ^ 64" and "list_all java_op ops"
    and "api_run (Api_Recover addr # map (Api_Write addr) ops) pr1 = Inr pr2"
    and "k_file (pr_kernel q) = k_file (pr_kernel pr2)" and "os_page_size os' = os_page_size os"
    and "os_sound os' (pr_kernel q)" and "calls_succeed os' target (pr_kernel q)" and "p \<noteq> 0"
    and "jni_sound J V" and "jni_allocates J V" and "\<not> vw_pending V j" and "env \<noteq> 0"
    and "cache_live V g j"
  shows "\<exists>q1 rs a q2 j' obs. pr_initialize os' p target q = Inr (p, q1) \<and>
    mset rs = mset (spec_run sz ops []) \<and>
    recover_spans_native J g env p q1 j = Inr (a, q2, j') \<and> frame V {} {a} j j' \<and>
    vw_elems V (vw_object V a j') j' = map Some obs \<and>
    list_all2 (\<lambda>r x. \<exists>s. span_of_raw r = Inr s \<and> vw_made_by V x = jni_span s) rs obs"
  using java_restart[OF assms] .

theorem java_session_recovered_witness:
  "\<exists>pr2 q1 a q2 j' x. api_run [Api_Initialize sample_os 100 (mmap_size_code Small), Api_Recover 100,
       Api_Write 100 (Op_Add (sample_span 7))] (new_process []) = Inr pr2 \<and>
     pr_initialize sample_os 200 1 (new_process (k_file (pr_kernel pr2))) = Inr (200, q1) \<and>
     recover_spans_native (sample_jni (\<lambda>_. False)) sample_cache 1 200 q1 sample_jvm = Inr (a, q2, j') \<and>
     m_elems (m_object a j') j' = [Some x] \<and>
     m_made_by x = ([1, 2, 7, 0, 10], [0x61], [Some [0x6b], Some [0x76]])"
proof -
  obtain pr1 pr2 where
    init: "pr_initialize sample_os 100 (mmap_size_code Small) (new_process []) = Inr (100, pr1)" and
    run: "api_run (Api_Recover 100 # map (Api_Write 100) [Op_Add (sample_span 7)]) pr1 = Inr pr2"
    by (rule sample_session)
  let ?q = "new_process (k_file (pr_kernel pr2))"
  have q: "pr_kernel ?q = kernel_with (k_file (pr_kernel pr2))" by (simp add: new_process_def)
  have ops: "list_all valid_op [Op_Add (sample_span 7)]" "length [Op_Add (sample_span 7)] < 2 ^ 64"
    "list_all java_op [Op_Add (sample_span 7)]"
    by (simp_all add: sample_span_def)
  have os: "k_file (pr_kernel ?q) = k_file (pr_kernel pr2)" "os_sound sample_os (pr_kernel ?q)"
    "calls_succeed sample_os 1 (pr_kernel ?q)"
    by (simp_all add: q)
  have j: "\<not> vw_pending sample_view sample_jvm" "(1::nat) \<noteq> 0" "(200::nat) \<noteq> 0" by simp_all
  have s: "span_of_raw (to_raw_span Small (sample_span 7)) = Inr (sample_span 7)"
    using clip_span_fits[OF sample_span_fits] by (simp add: span_round_trip)
  have js: "jni_span (sample_span 7) = ([1, 2, 7, 0, 10], [0x61], [Some [0x6b], Some [0x76]])"
    by (simp add: jni_span_def sample_span_def span_numbers_def jni_texts_def utf8_trunc_short jni_limits)
  from java_session_recovered[OF sample_call_ok init ops run os(1) refl os(2,3) j(3) sample_sound
      sample_allocates j(1,2) sample_cache_live]
  obtain q1 rs a q2 j' obs where r:
    "pr_initialize sample_os 200 1 ?q = Inr (200, q1)"
    "mset rs = mset (spec_run Small [Op_Add (sample_span 7)] [])"
    "recover_spans_native (sample_jni (\<lambda>_. False)) sample_cache 1 200 q1 sample_jvm = Inr (a, q2, j')"
    "m_elems (m_object a j') j' = map Some obs"
    "list_all2 (\<lambda>r x. \<exists>s. span_of_raw r = Inr s \<and> m_made_by x = jni_span s) rs obs"
    by (simp only: sample_view_simps) blast
  have "rs = [to_raw_span Small (sample_span 7)]" using r(2) by (simp add: spec_add_def)
  with r(5) s js obtain x where "obs = [x]" "m_made_by x = ([1, 2, 7, 0, 10], [0x61], [Some [0x6b], Some [0x76]])"
    by (auto simp: list_all2_Cons1)
  with r(1,3,4) run init show ?thesis by auto
qed

section \<open>The example program\<close>

text \<open>
  C33. The example program run twice. Whatever the file held, a first run that ends with status
  0 leaves a file from which the second run prints exactly the two spans of the first, the
  attribute of the second span with them, and then counts as the first did: nothing before
  its own writes, two spans after them.
\<close>

theorem example_second_run:
  assumes "call_ok (Api_Initialize os addr (mmap_size_code Small)) (new_process contents)"
    and "example_main os addr (new_process contents) = Inr (0, ls, pr)"
    and "os_page_size os' = os_page_size os" and "os_sound os' (pr_kernel q)"
    and "calls_succeed os' (mmap_size_code Small) (pr_kernel q)"
    and "q = new_process (k_file (pr_kernel pr))" and "addr' \<noteq> 0"
  shows "\<exists>ss q'. example_main os' addr' q =
      Inr (0, print_recovered ss @ [Count_Before 0, Count_After 2], q') \<and>
    mset ss = {# example_span 271 [], example_span 272 [(hello, world)] #}"
  using example_twice[OF assms] .

theorem example_second_run_witness:
  "\<exists>ls pr ss q'. example_main sample_os 100 (new_process []) = Inr (0, ls, pr) \<and>
     example_main sample_os 200 (new_process (k_file (pr_kernel pr))) =
       Inr (0, print_recovered ss @ [Count_Before 0, Count_After 2], q') \<and> length ss = 2"
proof -
  have k: "pr_kernel (new_process b) = kernel_with b" for b by (simp add: new_process_def)
  have held: "held_spans sample_os (pr_kernel (new_process [])) = Inr []" by (simp add: k)
  obtain ls pr where first: "example_main sample_os 100 (new_process []) = Inr (0, ls, pr)"
    using example_outcome[OF sample_call_ok held] by auto
  have os: "os_sound sample_os (pr_kernel (new_process (k_file (pr_kernel pr))))" by (simp add: k)
  from example_second_run[OF sample_call_ok first refl os sample_os_calls refl, of 200] obtain ss q' where
    "example_main sample_os 200 (new_process (k_file (pr_kernel pr))) =
      Inr (0, print_recovered ss @ [Count_Before 0, Count_After 2], q')"
    "mset ss = {# example_span 271 [], example_span 272 [(hello, world)] #}"
    by auto
  moreover have "length ss = 2" using arg_cong[OF calculation(2), of size] by simp
  ultimately show ?thesis using first by blast
qed

text \<open>
  The exit status of the example program tells whether the context could be made: 0 with
  the recovered spans and both counts printed when the system calls succeed, 1 with the
  message that there is no writer when one of them fails. There is no third outcome.
\<close>

theorem example_exit_status:
  assumes "call_ok (Api_Initialize os addr (mmap_size_code Small)) (new_process contents)"
    and "held_spans os (pr_kernel (new_process contents)) = Inr ss"
  shows "\<exists>pr'. example_main os addr (new_process contents) = Inr
    (if calls_succeed os (mmap_size_code Small) (pr_kernel (new_process contents))
     then (0, print_recovered ss @ [Count_Before 0, Count_After 2], pr')
     else (1, [Recovered_Count 0, No_Writer], pr'))"
  using example_outcome[OF assms] .

theorem example_exit_status_witness:
  "\<exists>pr1 pr2. example_main sample_os 100 (new_process []) =
       Inr (0, [Recovered_Count 0, Count_Before 0, Count_After 2], pr1) \<and>
     example_main (sample_os\<lparr>os_open := None\<rparr>) 100 (new_process []) =
       Inr (1, [Recovered_Count 0, No_Writer], pr2)"
proof -
  let ?os = "sample_os\<lparr>os_open := None\<rparr>"
  have k: "pr_kernel (new_process []) = kernel_with []" by (simp add: new_process_def)
  have held: "held_spans os (pr_kernel (new_process [])) = Inr []" if "os_page_size os = 4096" for os
    using that by (simp add: k held_spans_def recovers_from_def get_page_size_def)
  have ok: "call_ok (Api_Initialize ?os 100 (mmap_size_code Small)) (new_process [])"
    using sample_call_ok[of Small] held[of ?os]
    by (simp add: os_sound_def mmap_sound_def new_process_def)
  show ?thesis
    using example_exit_status[OF sample_call_ok held[of sample_os]] example_exit_status[OF ok held[of ?os]]
    by (auto simp: calls_succeed_def print_recovered_def)
qed

section \<open>Crashes seen from Java\<close>

text \<open>
  C34. From Java to Java over a crash. A writer has made any calls with strings of Java and dies
  at any point of the next one, also between the halves of a number, unless that call is
  writing an attribute. The next process asks for the recovered spans and gets one object for
  each span the crash left, made from what it reads as: every span the call keeps, and
  nothing that was not written.
\<close>

theorem java_crash_recovered:
  assumes "list_all valid_op (ops @ [op])" and "length ops + 1 < 2 ^ 64"
    and "list_all java_op (ops @ [op])" and "\<nexists>i k v. op = Op_Set_Attribute i k v"
    and "mut_run ops (fresh_writer sz) = Inr m"
    and "crash_image32 sz (op_stores sz op m) (mut_layout m) l"
    and "k_file (pr_kernel q) = enc_layout l @ pad"
    and "get_page_size (os_page_size os) \<le> length (k_file (pr_kernel q))"
    and "os_sound os (pr_kernel q)" and "calls_succeed os target (pr_kernel q)" and "p \<noteq> 0"
    and "jni_sound J V" and "jni_allocates J V" and "\<not> vw_pending V j" and "env \<noteq> 0"
    and "cache_live V g j"
  shows "\<exists>q1 a q2 j' obs. pr_initialize os p target q = Inr (p, q1) \<and>
    recover_spans_native J g env p q1 j = Inr (a, q2, j') \<and> frame V {} {a} j j' \<and>
    vw_elems V (vw_object V a j') j' = map Some obs \<and>
    list_all2 (\<lambda>r x. \<exists>s. span_of_raw r = Inr s \<and> vw_made_by V x = jni_span s) (recoverable l) obs \<and>
    (\<exists>op' \<in> set (torn_ops op (spec_run sz ops [])). survives sz op' (spec_run sz ops []) (recoverable l))"
  using java_crash[OF assms(1-3) _ assms(5-16)] assms(4) by blast

theorem java_crash_recovered_witness:
  "\<exists>m l q1 a q2 j' x. mut_run [Op_Add (sample_span 7)] (fresh_writer Small) = Inr m \<and>
     crash_image32 Small (op_stores Small (Op_End 0 7 0x100000001) m) (mut_layout m) l \<and>
     pr_initialize sample_os 200 1 (new_process (enc_layout l @ replicate 16 0)) = Inr (200, q1) \<and>
     recover_spans_native (sample_jni (\<lambda>_. False)) sample_cache 1 200 q1 sample_jvm = Inr (a, q2, j') \<and>
     m_elems (m_object a j') j' = [Some x]"
proof -
  let ?ops = "[Op_Add (sample_span 7)]" and ?op = "Op_End 0 7 0x100000001"
  obtain m l where m: "mut_run ?ops (fresh_writer Small) = Inr m"
    "crash_image32 Small (op_stores Small ?op m) (mut_layout m) l"
    "recoverable l = [(to_raw_span Small (sample_span 7))\<lparr>raw_end_time := 0x100000000\<rparr>]"
    "wf_layout Small l"
    by (rule sample_torn_end)
  let ?q = "new_process (enc_layout l @ replicate 16 0)"
  have ops: "list_all valid_op (?ops @ [?op])" "length ?ops + 1 < 2 ^ 64" "list_all java_op (?ops @ [?op])"
    "\<nexists>i k v. ?op = Op_Set_Attribute i k v"
    by (simp_all add: sample_span_def)
  have q: "pr_kernel ?q = kernel_with (enc_layout l @ replicate 16 0)" by (simp add: new_process_def)
  have os: "k_file (pr_kernel ?q) = enc_layout l @ replicate 16 0"
    "get_page_size (os_page_size sample_os) \<le> length (k_file (pr_kernel ?q))"
    "os_sound sample_os (pr_kernel ?q)" "calls_succeed sample_os 1 (pr_kernel ?q)"
    using m(4) by (simp_all add: q layout_bytes.enc_length sizeof_defs sample_os_def get_page_size_def
        flip: sample_os_def)
  have j: "\<not> vw_pending sample_view sample_jvm" "(1::nat) \<noteq> 0" "(200::nat) \<noteq> 0" by simp_all
  from java_crash_recovered[OF ops m(1,2) os j(3) sample_sound sample_allocates j(1,2) sample_cache_live]
  obtain q1 a q2 j' obs where r: "pr_initialize sample_os 200 1 ?q = Inr (200, q1)"
    "recover_spans_native (sample_jni (\<lambda>_. False)) sample_cache 1 200 q1 sample_jvm = Inr (a, q2, j')"
    "m_elems (m_object a j') j' = map Some obs"
    "list_all2 (\<lambda>r x. \<exists>s. span_of_raw r = Inr s \<and> m_made_by x = jni_span s) (recoverable l) obs"
    by (simp only: sample_view_simps) blast
  from r(4) obtain x where "obs = [x]" by (auto simp: m(3) list_all2_Cons1)
  with r(3) have "m_elems (m_object a j') j' = [Some x]" by simp
  with m(1,2) r(1,2) show ?thesis by blast
qed

section \<open>Text that a crash has cut\<close>

text \<open>
  C35. A crash can leave a span that must not be handed to Java. If it cuts the copy of a value
  of Java inside a character, the slot keeps its mark and its span is read back without a
  fault, but with text that is not modified UTF-8, which \<^verbatim>\<open>NewStringUTF\<close> must not be given.
\<close>

theorem crash_leaves_broken_text:
  fixes i :: index_t
  assumes "rsd_inv sz d" and "unat i < length (rsd_slots d)" and "modified_utf8 val"
    and "first_index (\<lambda>a. key_equals attr_key_size key (attr_key a))
      (take (unat (raw_attr_count (slot_span (rd_layout d) (unat i))))
        (raw_attributes (slot_span (rd_layout d) (unat i)))) = Some q"
    and "k < length (utf8_trunc attr_value_size val)" and "is_utf8_continuation_byte (val ! k)"
  shows "\<exists>j ss l s. set_attribute_stores sz (unat i) key val (slot_span (rd_layout d) (unat i)) = Inr (j, ss) \<and>
    crash_image sz ss (rd_layout d) l \<and> slot_mark l (unat i) = slot_mark (rd_layout d) (unat i) \<and>
    span_of_raw (slot_span l (unat i)) = Inr s \<and> \<not> span_utf8 s"
  using crash_unreadable[OF assms] .

theorem crash_leaves_broken_text_witness:
  "\<exists>j ss l s. set_attribute_stores Small 0 [0x6b] [0xc3, 0xa9] (slot_span sample_layout 0) = Inr (j, ss) \<and>
     crash_image Small ss sample_layout l \<and> slot_mark l 0 = 1 \<and>
     span_of_raw (slot_span l 0) = Inr s \<and> \<not> span_utf8 s"
  using crash_leaves_broken_text[of Small sample_data 0 "[0xc3, 0xa9]" "[0x6b]" 0 1] sample_first_index
  by (simp add: utf8_trunc_short attr_value_size_def is_utf8_continuation_byte_def)

section \<open>What the machine and the compiler may do\<close>

text \<open>
  C36. The same promise on a processor of 32 bits, where a number of the mapping is stored in
  two halves and a process can die between them. A torn mark is still set or not, and a
  count fits one half. An end time can be seen torn: then the next start recovers what a crash of \<^verbatim>\<open>end_span\<close> with that mixed
  time would have left, and still every other span.
\<close>

theorem restart_after_crash_32:
  assumes "list_all valid_op (ops @ [op])" and "length ops + 1 < 2 ^ 64"
    and "mut_run ops (fresh_writer sz) = Inr m"
    and "crash_image32 sz (op_stores sz op m) (mut_layout m) l"
    and "k_file k = enc_layout l @ pad" and "get_page_size (os_page_size os) \<le> length (k_file k)"
    and "os_sound os k" and "calls_succeed os target k"
  shows "\<exists>c k'. initialize_span_data os target k = Inr (Some c, k') \<and>
    list_all2 (\<lambda>r s. span_of_raw r = Inr s) (recoverable l) (cx_recovered_spans c) \<and>
    list_ex (\<lambda>op'. survives sz op' (spec_run sz ops []) (recoverable l)) (torn_ops op (spec_run sz ops []))"
  using restart_recovers32[OF assms] by (auto simp: fresh_context_def list_ex_iff)

theorem restart_after_crash_32_witness:
  "\<exists>m l c k' s. mut_run [Op_Add (sample_span 7)] (fresh_writer Small) = Inr m \<and>
     crash_image32 Small (op_stores Small (Op_End 0 7 0x100000001) m) (mut_layout m) l \<and>
     initialize_span_data sample_os 1 (kernel_with (enc_layout l @ replicate 16 0)) = Inr (Some c, k') \<and>
     cx_recovered_spans c = [s] \<and> sp_span_id s = 7 \<and> sp_end_time s = 0x100000000"
proof -
  have v: "list_all valid_op ([Op_Add (sample_span 7)] @ [Op_End 0 7 0x100000001])"
    "length [Op_Add (sample_span 7)] + 1 < (2::nat) ^ 64"
    by simp_all
  obtain m l where m: "mut_run [Op_Add (sample_span 7)] (fresh_writer Small) = Inr m"
    "crash_image32 Small (op_stores Small (Op_End 0 7 0x100000001) m) (mut_layout m) l"
    "recoverable l = [(to_raw_span Small (sample_span 7))\<lparr>raw_end_time := 0x100000000\<rparr>]"
    "wf_layout Small l"
    by (rule sample_torn_end)
  have "get_page_size (os_page_size sample_os)
      \<le> length (k_file (kernel_with (enc_layout l @ replicate 16 0)))"
    using m(4) by (simp add: layout_bytes.enc_length sizeof_defs sample_os_def get_page_size_def)
  from restart_after_crash_32[OF v m(1,2) _ this, of "replicate 16 0" 1] obtain c k' where
    c: "initialize_span_data sample_os 1 (kernel_with (enc_layout l @ replicate 16 0)) = Inr (Some c, k')"
    "list_all2 (\<lambda>r s. span_of_raw r = Inr s) (recoverable l) (cx_recovered_spans c)"
    by auto
  then obtain s where "cx_recovered_spans c = [s]"
    "span_of_raw ((to_raw_span Small (sample_span 7))\<lparr>raw_end_time := 0x100000000\<rparr>) = Inr s"
    using m(3) by (auto simp: list_all2_Cons1)
  with m(1,2) c(1) show ?thesis
    by (intro exI[of _ m] exI[of _ l] exI[of _ c] exI[of _ k'] exI[of _ s])
      (auto simp: span_of_raw_def res_bind_Inr_iff)
qed

text \<open>
  C37. Every loop of the code ends, with what the structural definition returns. Over the
  mapping, where the bound may come from a corrupt file: the recovery loop, the scan for the
  oldest span, the search for a key, with counters of 64 bits, and the copying of attributes,
  with a counter of the width of \<^verbatim>\<open>size_t\<close>, 64 or 32 bits. Over a text: the way back to a
  character boundary. Over the strings of Java: the signed counter of 32 bits goes up by two
  and never overflows. Over a container: the writing of attributes with its \<^verbatim>\<open>break\<close>, the two
  nested loops that print, and the two that fill arrays of Java, whose signed counters of 32
  bits do not overflow while the container has fewer than 2 to the 30 pairs or 2 to the 31
  spans.
\<close>

theorem loops_return:
  assumes "length attributes < 2 ^ 32" and "length kvs < 2 ^ 30" and "length ss < 2 ^ 31"
  shows "recover_for x = Some (recover_spans x) \<and> oldest_for x = Some (oldest_span x) \<and>
   find_for key attr_count raws = Some (find_attribute key (unat attr_count) raws 0) \<and>
   read_for attr_count raws = Some (read_attributes (unat attr_count) raws []) \<and>
   read_for32 attr_count attributes = Some (read_attributes (unat attr_count) attributes []) \<and>
   utf8_back_while src n = Some (utf8_back src n) \<and>
   parse_while J env arr len attrs j = Some (parse_loop J env arr (nat (sint len div 2)) 1 attrs j) \<and>
   write_for sz attrs raw = Some (write_attributes sz attrs raw) \<and>
   print_for spans = Some (print_recovered spans) \<and>
   write_jni_for J env arr kvs j = Some (write_jni_attributes J env arr kvs 0 j) \<and>
   fill_for J g env arr ss j = Some (fill_spans_array J g env arr ss 0 j)"
  using assms by (simp add: recover_for_returns oldest_for_returns find_for_returns read_for_returns
      read_for32_returns utf8_back_while_returns parse_while_returns write_for_returns print_for_returns
      counting_loops_return)

theorem loops_return_witness:
  "read_for32 1000 [] = Some (read_attributes 1000 [] []) \<and>
   write_jni_for (sample_jni (\<lambda>_. False)) 1 7 [([0x6b], [0x76])] sample_jvm =
     Some (write_jni_attributes (sample_jni (\<lambda>_. False)) 1 7 [([0x6b], [0x76])] 0 sample_jvm) \<and>
   fill_for (sample_jni (\<lambda>_. False)) sample_cache 1 7 [sample_span 7] sample_jvm =
     Some (fill_spans_array (sample_jni (\<lambda>_. False)) sample_cache 1 7 [sample_span 7] 0 sample_jvm)"
  using loops_return[where attributes = "[]" and kvs = "[([0x6b], [0x76])]" and ss = "[sample_span 7]" and
      attr_count = 1000 and J = "sample_jni (\<lambda>_. False)" and env = 1 and arr = 7 and j = sample_jvm and
      g = sample_cache]
  by (simp del: read_attributes.simps write_jni_attributes.simps fill_spans_array.simps)

text \<open>
  C38. The stores of every call of a writer are typed. Their indexes are within the arrays and
  their payloads have the shape of what they overwrite; as bytes they begin at whole words
  and stay in the layout, behind the signature, the version and the size. Writing those
  bytes to the file is the call.
\<close>

theorem calls_write_typed_bytes:
  assumes "mut_inv sz m" and "unat (mut_counter m) + 1 < 2 ^ 64" and "mut_step op m = Inr m'"
  shows "list_all (\<lambda>s. typed_store sz s \<and> word_aligned (store_offset sz s) \<and>
      offset_active_span_count \<le> store_offset sz s \<and>
      store_offset sz s + length (store_bytes sz s) \<le> sizeof_memory_layout sz) (op_stores sz op m) \<and>
    enc_layout (mut_layout m') = poke_stores sz (op_stores sz op m) (enc_layout (mut_layout m))"
proof -
  note t = typed_op_stores[OF assms(1,2), of op]
  have "wf_layout sz (mut_layout m)" using mut_layout_inv[OF assms(1)] by (simp add: layout_inv_def)
  with t op_stores_header[of sz op m] show ?thesis
    by (simp add: mut_step_layout[OF assms] exec_stores_bytes list_all_iff store_word_aligned
        keeps_header_offset typed_store_inside)
qed

theorem calls_write_typed_bytes_witness:
  "\<exists>m. mut_step (Op_Add (sample_span 7)) (fresh_writer Small) = Inr m \<and>
     enc_layout (mut_layout m) =
       poke_stores Small (op_stores Small (Op_Add (sample_span 7)) (fresh_writer Small))
         (enc_layout (mut_layout (fresh_writer Small)))"
proof -
  obtain m where m: "mut_step (Op_Add (sample_span 7)) (fresh_writer Small) = Inr m"
    using mut_step_refines[of Small "fresh_writer Small" "Op_Add (sample_span 7)"] by auto
  have "mut_inv Small (fresh_writer Small)" "unat (mut_counter (fresh_writer Small)) + 1 < 2 ^ 64"
    by simp_all
  from calls_write_typed_bytes[OF this m] m show ?thesis by blast
qed

section \<open>The build without assertions\<close>

text \<open>
  C39. The shipped library, in which every assertion is compiled away, does what the checked
  one does. Any run of calls on a fresh writer ends in the same state in both builds, the
  recovery loop is the same function of every store, however corrupt, and the native method
  that adds a span has the same outcome, faults included, unless an assertion fails.
\<close>

theorem release_build_agrees:
  assumes "list_all valid_op ops" and "length ops < 2 ^ 64"
  shows "(\<exists>m. mut_run ops (fresh_writer sz) = Inr m \<and> rel_run ops (fresh_writer sz) = Inr m \<and>
      live m = spec_run sz ops []) \<and>
    rel_recover_spans x = recover_spans x \<and>
    (rel_add_span J env p t i parent start name attrs pr j =
       add_span J env p t i parent start name attrs pr j \<or>
     (\<exists>a. add_span J env p t i parent start name attrs pr j = Inl (Assert_Failed a)))"
proof -
  obtain m where m: "mut_run ops (fresh_writer sz) = Inr m" "live m = spec_run sz ops []"
    using mut_run_refines[of sz "fresh_writer sz" ops] assms by auto
  have "rel_run ops (fresh_writer sz) = Inr m"
    using mut_run_asserts[of ops "fresh_writer sz"] unfolding m(1) by (rule asserts_onlyD)
  with m recover_spans_builds[of x] add_span_asserts[of J env p t i parent start name attrs pr j]
  show ?thesis by (auto simp: asserts_only_def)
qed

theorem release_build_agrees_witness:
  "\<exists>m. rel_run [Op_Add (sample_span 7), Op_Add (sample_span 8), Op_Remove 7] (fresh_writer Small) = Inr m \<and>
     live m = [to_raw_span Small (sample_span 8)]"
  using release_build_agrees[THEN conjunct1, of "[Op_Add (sample_span 7), Op_Add (sample_span 8), Op_Remove 7]" Small]
  by (auto simp: spec_add_def spec_remove_def)

text \<open>
  C40. One assertion is not redundant: that a span has an id. A span id zero (the native method
  passes on any number) stops the checked build in the constructor. In the shipped build the
  span is stored, and when it has become the oldest of a full writer, the scan for the oldest
  span finds its id, which stands for \<^emph>\<open>none\<close>; nothing is evicted, and the next addition writes
  behind the array.
\<close>

theorem zero_id_overruns:
  assumes "0 \<notin> set (map sp_span_id (ss @ [s]))" and "distinct (map sp_span_id (ss @ [s]))"
    and "length ss + 1 = max_spans (mmap_config sz)"
  shows "make_span t 0 parent start fin name attrs = Inl (Assert_Failed ''span_id != 0'') \<and>
    (\<exists>z m. rel_make_span t 0 parent start fin name attrs = Inr z \<and>
      rel_run (map Op_Add (z # ss)) (fresh_writer sz) = Inr m \<and>
      live m = map (to_raw_span sz) (z # ss) \<and>
      rel_step (Op_Add s) m = Inl Out_Of_Bounds)"
proof -
  obtain z where z: "rel_make_span t 0 parent start fin name attrs = Inr z" "sp_span_id z = 0"
    by (auto simp: rel_make_span_def)
  have lim: "max_spans (mmap_config sz) < 2 ^ 64 - 1" using max_spans_bounds(2)[of sz] by simp
  have "unchecked_inv sz (fresh_writer sz)" by (rule unchecked_inv_mut) simp
  from rel_add_all[OF this, of "z # ss"] assms z(2) lim obtain m where m:
    "rel_run (map Op_Add (z # ss)) (fresh_writer sz) = Inr m" "unchecked_inv sz m"
    "unat (mut_counter m) = length (z # ss)" "live m = map (to_raw_span sz) (z # ss)"
    by auto
  have "rel_mut_add s m = Inl Out_Of_Bounds"
    using m(2-4) assms z(2) lim by (intro rel_add_full_zero) (auto simp del: length_live)
  with z(1) m(1,4) show ?thesis by (simp add: make_span_def)
qed

theorem zero_id_overruns_witness:
  "\<exists>z m. rel_make_span \<lparr>ti_high = 0, ti_low = 0\<rparr> 0 0 0 0 [] [] = Inr z \<and>
     rel_run (map Op_Add (z # map (\<lambda>i. sample_span (word_of_nat i)) [1..<128])) (fresh_writer Small) = Inr m \<and>
     rel_step (Op_Add (sample_span 128)) m = Inl Out_Of_Bounds"
proof -
  let ?ss = "map (\<lambda>i. sample_span (word_of_nat i)) [1..<128]"
  have ids: "map sp_span_id (?ss @ [sample_span 128]) = map word_of_nat [1..<129]"
    by (simp add: sample_span_def upt_rec)
  have "distinct (map word_of_nat [1..<129] :: u64 list)"
    by (auto simp: distinct_map inj_on_def dest!: arg_cong[where f = unat])
  moreover have "(0 :: u64) \<notin> set (map word_of_nat [1..<129])"
    by (auto dest!: arg_cong[where f = unat])
  moreover have "length ?ss + 1 = max_spans (mmap_config Small)" by simp
  ultimately show ?thesis
    using zero_id_overruns[of ?ss "sample_span 128" Small] ids by metis
qed

end
